(* ===== verification/Prelude.thy ===== *)
theory Prelude
  imports Main "HOL-Library.Word" "HOL-Library.Sublist"
begin

text \<open>
  What every component shares: the machine integers of the Rust sources and the
  checked and saturating arithmetic on them, the string operations of Rust's standard
  library that the sources call (\<open>trim\<close>, \<open>contains\<close>, decimal formatting), results as sums,
  the opaque error objects of third-party crates as the code can observe them, and the
  lemma collections and the invariant locale that the component theories use.
\<close>

named_theorems str_simps "rewrite rules for the string operations"
named_theorems step_defs "definitions to unfold when one step of a machine is analysed"

section \<open>Results\<close>

text \<open>
  \<open>Result<T, E>\<close> is a sum with the error on the left. \<open>rbind\<close> is the question mark
  operator, \<open>rmap_err\<close> is \<open>map_err\<close>, \<open>ok_or\<close> is \<open>Option::ok_or_else\<close>.
\<close>

type_synonym ('e, 'a) res = "'e + 'a"

definition rbind :: "('e, 'a) res \<Rightarrow> ('a \<Rightarrow> ('e, 'b) res) \<Rightarrow> ('e, 'b) res" where
  "rbind r f = (case r of Inl e \<Rightarrow> Inl e | Inr a \<Rightarrow> f a)"

definition rmap_err :: "('e \<Rightarrow> 'f) \<Rightarrow> ('e, 'a) res \<Rightarrow> ('f, 'a) res" where
  "rmap_err f r = (case r of Inl e \<Rightarrow> Inl (f e) | Inr a \<Rightarrow> Inr a)"

definition ok_or :: "'e \<Rightarrow> 'a option \<Rightarrow> ('e, 'a) res" where
  "ok_or e x = (case x of None \<Rightarrow> Inl e | Some a \<Rightarrow> Inr a)"

definition opt_filter :: "('a \<Rightarrow> bool) \<Rightarrow> 'a option \<Rightarrow> 'a option" where
  "opt_filter p x = (case x of None \<Rightarrow> None | Some a \<Rightarrow> if p a then Some a else None)"

definition opt_or :: "'a option \<Rightarrow> 'a option \<Rightarrow> 'a option" where
  "opt_or x y = (case x of None \<Rightarrow> y | Some a \<Rightarrow> Some a)"

definition unwrap_or :: "'a \<Rightarrow> 'a option \<Rightarrow> 'a" where
  "unwrap_or d x = (case x of None \<Rightarrow> d | Some a \<Rightarrow> a)"

lemma rbind_simps [simp]:
  "rbind (Inl e) f = Inl e"
  "rbind (Inr a) f = f a"
  by (simp_all add: rbind_def)

lemma rmap_err_simps [simp]:
  "rmap_err g (Inl e) = Inl (g e)"
  "rmap_err g (Inr a) = Inr a"
  by (simp_all add: rmap_err_def)

lemma rmap_err_Inr [simp]: "rmap_err g r = Inr a \<longleftrightarrow> r = Inr a"
  by (cases r) simp_all

lemma rmap_err_Inl: "rmap_err g r = Inl e \<longleftrightarrow> (\<exists>x. r = Inl x \<and> e = g x)"
  by (cases r) auto

lemma map_sum_Inl: "map_sum id f r = Inl e \<longleftrightarrow> r = Inl e"
  by (cases r) auto

lemma rbind_Inr_iff: "rbind r f = Inr b \<longleftrightarrow> (\<exists>a. r = Inr a \<and> f a = Inr b)"
  by (cases r) simp_all

lemma rbind_Inl_iff: "rbind r f = Inl e \<longleftrightarrow> r = Inl e \<or> (\<exists>a. r = Inr a \<and> f a = Inl e)"
  by (cases r) auto

lemma ok_or_simps [simp]:
  "ok_or e None = Inl e"
  "ok_or e (Some a) = Inr a"
  by (simp_all add: ok_or_def)

lemma ok_or_Inr [simp]: "ok_or e x = Inr a \<longleftrightarrow> x = Some a"
  by (cases x) simp_all

lemma ok_or_Inl [simp]: "ok_or e x = Inl f \<longleftrightarrow> x = None \<and> f = e"
  by (cases x) auto

lemma opt_filter_simps [simp]:
  "opt_filter p None = None"
  "opt_filter p (Some a) = (if p a then Some a else None)"
  by (simp_all add: opt_filter_def)

lemma opt_filter_Some [simp]: "opt_filter p x = Some a \<longleftrightarrow> x = Some a \<and> p a"
  by (cases x) auto

lemma opt_or_simps [simp]:
  "opt_or None y = y"
  "opt_or (Some a) y = Some a"
  by (simp_all add: opt_or_def)

lemma unwrap_or_simps [simp]:
  "unwrap_or d None = d"
  "unwrap_or d (Some a) = a"
  by (simp_all add: unwrap_or_def)

section \<open>Machine integers\<close>

text \<open>
  \<open>i64\<close> and \<open>i32\<close> values are words read with \<^const>\<open>sint\<close>, \<open>u64\<close> and \<open>u32\<close> values are
  words read with \<^const>\<open>uint\<close>. \<open>checked_add_i64\<close> is \<open>i64::checked_add\<close>,
  \<open>u64_try_from\<close> is \<open>u64::try_from\<close> on an \<open>i64\<close>, \<open>saturating_add_u32\<close> is
  \<open>u32::saturating_add\<close>.
\<close>

type_synonym i64 = "64 word"
type_synonym u64 = "64 word"
type_synonym i32 = "32 word"
type_synonym u32 = "32 word"

definition checked_add_i64 :: "i64 \<Rightarrow> i64 \<Rightarrow> i64 option" where
  "checked_add_i64 a b =
     (let s = sint a + sint b in if - (2 ^ 63) \<le> s \<and> s < 2 ^ 63 then Some (a + b) else None)"

definition u64_try_from :: "i64 \<Rightarrow> u64 option" where
  "u64_try_from a = (if sint a < 0 then None else Some a)"

definition saturating_add_u32 :: "u32 \<Rightarrow> u32 \<Rightarrow> u32" where
  "saturating_add_u32 a b = (if uint a + uint b < 2 ^ 32 then a + b else - 1)"

lemma sint_i64_range: "- (2 ^ 63) \<le> sint (a :: i64)" "sint (a :: i64) < 2 ^ 63"
  using sint_range_size [of a] by (simp_all add: word_size)

lemma sint_add_i64:
  fixes a b :: i64
  assumes "- (2 ^ 63) \<le> sint a + sint b" "sint a + sint b < 2 ^ 63"
  shows "sint (a + b) = sint a + sint b"
  using assms by (simp add: sint_word_ariths signed_take_bit_int_eq_self)

lemma checked_add_i64_Some:
  "checked_add_i64 a b = Some c \<Longrightarrow> sint c = sint a + sint b"
  by (auto simp: checked_add_i64_def Let_def sint_add_i64 split: if_splits)

lemma checked_add_i64_None_iff:
  "checked_add_i64 a b = None \<longleftrightarrow> \<not> (- (2 ^ 63) \<le> sint a + sint b \<and> sint a + sint b < 2 ^ 63)"
  by (auto simp: checked_add_i64_def Let_def)

lemma uint_eq_sint_nonneg: "0 \<le> sint (a :: i64) \<Longrightarrow> uint a = sint a"
  using sint_i64_range(2) [of a] by (simp add: uint_sint take_bit_int_eq_self)

lemma u64_try_from_Some: "u64_try_from a = Some n \<Longrightarrow> uint n = sint a \<and> n = a"
  by (auto simp: u64_try_from_def uint_eq_sint_nonneg split: if_splits)

lemma u64_try_from_None: "u64_try_from a = None \<longleftrightarrow> sint a < 0"
  by (simp add: u64_try_from_def)

section \<open>Strings\<close>

text \<open>
  A \<open>str\<close> is its UTF-8 bytes. \<open>whitespace\<close> lists the encodings of the characters with
  the Unicode property White\_Space, which is what \<open>str::trim\<close> removes;
  \<open>contains_str\<close> is \<open>str::contains\<close>; \<open>show_nat\<close> and \<open>show_int\<close> are the decimal output of
  \<open>format!\<close>; \<open>join\<close> is \<open>[&str]::join\<close>.
\<close>

definition whitespace :: "string list" where
  "whitespace =
     map (\<lambda>n. [char_of (n :: nat)]) [9, 10, 11, 12, 13, 32] @
     map (map char_of)
       [[194, 133], [194, 160], [225, 154, 128 :: nat],
        [226, 128, 128], [226, 128, 129], [226, 128, 130], [226, 128, 131], [226, 128, 132],
        [226, 128, 133], [226, 128, 134], [226, 128, 135], [226, 128, 136], [226, 128, 137],
        [226, 128, 138], [226, 128, 168], [226, 128, 169], [226, 128, 175], [226, 129, 159],
        [227, 128, 128]]"

definition leading_ws :: "string \<Rightarrow> string option" where
  "leading_ws s = find (\<lambda>w. prefix w s) whitespace"

definition trailing_ws :: "string \<Rightarrow> string option" where
  "trailing_ws s = find (\<lambda>w. suffix w s) whitespace"

lemma whitespace_nonempty: "w \<in> set whitespace \<Longrightarrow> w \<noteq> []"
  by (auto simp: whitespace_def)

lemma leading_ws_Some: "leading_ws s = Some w \<Longrightarrow> prefix w s \<and> 0 < length w \<and> 0 < length s"
  by (auto simp: leading_ws_def find_Some_iff whitespace_nonempty dest!: whitespace_nonempty [OF nth_mem])

lemma trailing_ws_Some: "trailing_ws s = Some w \<Longrightarrow> suffix w s \<and> 0 < length w \<and> 0 < length s"
  by (auto simp: trailing_ws_def find_Some_iff whitespace_nonempty dest!: whitespace_nonempty [OF nth_mem])

function trim_start :: "string \<Rightarrow> string" where
  "trim_start s = (case leading_ws s of None \<Rightarrow> s | Some w \<Rightarrow> trim_start (drop (length w) s))"
  by pat_completeness auto
termination
  by (relation "measure length") (auto dest: leading_ws_Some)

function trim_end :: "string \<Rightarrow> string" where
  "trim_end s =
     (case trailing_ws s of None \<Rightarrow> s | Some w \<Rightarrow> trim_end (take (length s - length w) s))"
  by pat_completeness auto
termination
  by (relation "measure length") (auto dest: trailing_ws_Some)

declare trim_start.simps [simp del] trim_end.simps [simp del]

definition trim :: "string \<Rightarrow> string" where
  "trim s = trim_end (trim_start s)"

fun contains_str :: "string \<Rightarrow> string \<Rightarrow> bool" where
  "contains_str [] n = (n = [])"
| "contains_str (c # cs) n = (prefix n (c # cs) \<or> contains_str cs n)"

lemma contains_str_sublist [str_simps]: "contains_str h n \<longleftrightarrow> sublist n h"
  by (induction h) (auto simp: sublist_Cons_right)

lemma sublist_trans: "sublist a b \<Longrightarrow> sublist b c \<Longrightarrow> sublist a c"
  by (rule sublist_order.order.trans)

lemma sublist_last_segment: "sublist c (a @ b @ c)"
  using sublist_append_leftI [of c "a @ b"] by simp

fun join :: "string \<Rightarrow> string list \<Rightarrow> string" where
  "join sep [] = []"
| "join sep [x] = x"
| "join sep (x # y # xs) = x @ sep @ join sep (y # xs)"

fun show_nat :: "nat \<Rightarrow> string" where
  "show_nat n =
     (if n < 10 then [char_of (48 + n)] else show_nat (n div 10) @ [char_of (48 + n mod 10)])"

declare show_nat.simps [simp del]

definition show_int :: "int \<Rightarrow> string" where
  "show_int i = (if i < 0 then CHR ''-'' # show_nat (nat (- i)) else show_nat (nat i))"

lemma trim_start_fix: "leading_ws (trim_start s) = None"
proof (induction s rule: trim_start.induct)
  case (1 s)
  then show ?case
    by (cases "leading_ws s") (simp_all add: trim_start.simps [of s])
qed

lemma trim_end_fix: "trailing_ws (trim_end s) = None"
proof (induction s rule: trim_end.induct)
  case (1 s)
  then show ?case
    by (cases "trailing_ws s") (simp_all add: trim_end.simps [of s])
qed

lemma trim_start_suffix: "suffix (trim_start s) s"
proof (induction s rule: trim_start.induct)
  case (1 s)
  then show ?case
    by (cases "leading_ws s")
      (auto simp: trim_start.simps [of s] intro: suffix_order.trans suffix_drop)
qed

lemma trim_end_prefix: "prefix (trim_end s) s"
proof (induction s rule: trim_end.induct)
  case (1 s)
  then show ?case
    by (cases "trailing_ws s")
      (auto simp: trim_end.simps [of s] intro: prefix_order.trans take_is_prefix)
qed

lemma trim_Nil [simp]: "trim_start [] = []" "trim_end [] = []" "trim [] = []"
  using trim_start_suffix [of "[]"] trim_end_prefix [of "[]"] by (simp_all add: trim_def)

section \<open>Error objects of third-party crates\<close>

text \<open>
  A \<open>dyn std::error::Error\<close> is what the code can observe of it: its \<open>Display\<close> text, its
  \<open>source\<close>, and the Python exception it is when \<open>downcast_ref::<PyErr>\<close> succeeds. A Python
  exception is its class with all base classes (\<open>isinstance\<close> is membership) and its text.
\<close>

datatype py_class =
    PyException | PyRuntimeError | PyTypeError | PyValueError | PyKeyError | PyAttributeError
  | PyImportError | PyNotImplementedError | PySyntaxError | PyBigQueryError | PyOther string

datatype py_err = PyErr (py_bases: "py_class list") (py_text: string)

definition is_instance_of :: "py_class \<Rightarrow> py_err \<Rightarrow> bool" where
  "is_instance_of c e \<longleftrightarrow> c \<in> set (py_bases e)"

datatype std_error =
  StdError (err_text: string) (err_source: "std_error option") (err_py: "py_err option")

text \<open>The chain of causes that repeated calls of \<open>source\<close> visit.\<close>

fun source_chain :: "std_error option \<Rightarrow> std_error list" where
  "source_chain None = []"
| "source_chain (Some (StdError m s p)) = StdError m s p # source_chain s"

text \<open>
  The gRPC status codes, a status with its details, and a \<open>google_cloud_gax::error::Error\<close> by
  the answers its accessors give.
\<close>

datatype grpc_code =
    CodeOk | Cancelled | Unknown | InvalidArgument | DeadlineExceeded | NotFound | AlreadyExists
  | PermissionDenied | ResourceExhausted | FailedPrecondition | Aborted | OutOfRange
  | Unimplemented | Internal | Unavailable | DataLoss | Unauthenticated

datatype status_detail =
    DebugInfo (debug_detail: string)
  | ErrorInfo (info_reason: string) (info_metadata: "(string \<times> string) list")
  | OtherDetail string

record rpc_status =
  st_code :: grpc_code
  st_message :: string
  st_details :: "status_detail list"

record gax_error =
  ge_transient_before_rpc :: bool
  ge_io :: bool
  ge_timeout :: bool
  ge_connect :: bool
  ge_transport :: bool
  ge_http_status :: "nat option"
  ge_status :: "rpc_status option"
  ge_std :: std_error

section \<open>Machines driven by inputs\<close>

text \<open>
  Every stateful component below is a step function from a state and one input (what its
  environment answers during that step) to the next state. An invariant that one step keeps
  holds after any sequence of inputs, and a measure that no step increases bounds a run.
\<close>

locale step_invariant =
  fixes stp :: "'i \<Rightarrow> 's \<Rightarrow> 's"
    and ok :: "'i \<Rightarrow> bool"
    and inv :: "'s \<Rightarrow> bool"
  assumes inv_step: "ok i \<Longrightarrow> inv s \<Longrightarrow> inv (stp i s)"
begin

lemma inv_run: "\<forall>i \<in> set is. ok i \<Longrightarrow> inv s \<Longrightarrow> inv (fold stp is s)"
  by (induction "is" arbitrary: s) (auto intro: inv_step)

end

text \<open>Absorbing states: once in one, no input leads out, so the rest of a run is idle.\<close>

locale absorbing =
  fixes stp :: "'i \<Rightarrow> 's \<Rightarrow> 's"
    and final :: "'s \<Rightarrow> bool"
  assumes final_step: "final s \<Longrightarrow> stp i s = s"
begin

lemma final_run: "final s \<Longrightarrow> fold stp is s = s"
  by (induction "is") (auto simp: final_step)

lemma final_prefix: "final (fold stp is s) \<Longrightarrow> fold stp (is @ js) s = fold stp is s"
  by (simp add: final_run)

end

text \<open>A machine that makes progress on every input of a kind finishes within its rank.\<close>

locale ranked = absorbing stp final
  for stp :: "'i \<Rightarrow> 's \<Rightarrow> 's" and final :: "'s \<Rightarrow> bool" +
  fixes ok :: "'i \<Rightarrow> bool"
    and live :: "'s \<Rightarrow> bool"
    and rank :: "'s \<Rightarrow> nat"
  assumes progress: "ok i \<Longrightarrow> live s \<Longrightarrow> \<not> final s \<Longrightarrow>
    final (stp i s) \<or> live (stp i s) \<and> rank (stp i s) < rank s"
begin

lemma finishes:
  "\<forall>i \<in> set is. ok i \<Longrightarrow> live s \<Longrightarrow> rank s < length is \<Longrightarrow> final (fold stp is s)"
proof (induction "is" arbitrary: s)
  case (Cons i "is")
  show ?case
  proof (cases "final s \<or> final (stp i s)")
    case True
    then have "final (stp i s)" by (auto simp: final_step)
    then show ?thesis by (simp add: final_run)
  next
    case False
    with progress [of i s] Cons.prems have "live (stp i s)" "rank (stp i s) < rank s" by auto
    with Cons show ?thesis by simp
  qed
qed simp

end

text \<open>
  A machine whose actions are guarded: an action that is not enabled yields None, and a run takes
  enabled actions only. An invariant is kept by every enabled action; a rank that every action of
  a kind lowers bounds the number of such actions.
\<close>

fun run_actions :: "('a \<Rightarrow> 's \<Rightarrow> 's option) \<Rightarrow> 'a list \<Rightarrow> 's \<Rightarrow> 's option" where
  "run_actions stp [] s = Some s"
| "run_actions stp (a # as) s = (case stp a s of None \<Rightarrow> None | Some s' \<Rightarrow> run_actions stp as s')"

lemma run_actions_append:
  "run_actions stp (as @ bs) s = Option.bind (run_actions stp as s) (run_actions stp bs)"
  by (induction "as" arbitrary: s) (auto split: option.splits)

locale guarded_invariant =
  fixes stp :: "'a \<Rightarrow> 's \<Rightarrow> 's option"
    and ok :: "'a \<Rightarrow> bool"
    and inv :: "'s \<Rightarrow> bool"
  assumes inv_action: "ok a \<Longrightarrow> inv s \<Longrightarrow> stp a s = Some s' \<Longrightarrow> inv s'"
begin

lemma inv_actions: "\<forall>a \<in> set as. ok a \<Longrightarrow> inv s \<Longrightarrow> run_actions stp as s = Some s' \<Longrightarrow> inv s'"
  by (induction "as" arbitrary: s) (auto split: option.splits intro: inv_action)

end

locale guarded_rank = guarded_invariant stp ok inv
  for stp :: "'a \<Rightarrow> 's \<Rightarrow> 's option" and ok :: "'a \<Rightarrow> bool" and inv :: "'s \<Rightarrow> bool" +
  fixes rank :: "'s \<Rightarrow> nat"
  assumes rank_action: "ok a \<Longrightarrow> inv s \<Longrightarrow> stp a s = Some s' \<Longrightarrow> rank s' < rank s"
begin

lemma bounded_actions:
  "\<forall>a \<in> set as. ok a \<Longrightarrow> inv s \<Longrightarrow> run_actions stp as s = Some s' \<Longrightarrow> length as + rank s' \<le> rank s"
proof (induction "as" arbitrary: s)
  case (Cons a "as")
  then obtain t where t: "stp a s = Some t" "run_actions stp as t = Some s'"
    by (auto split: option.splits)
  with Cons.prems inv_action [of a s t] rank_action [of a s t] Cons.IH [of t] show ?case by auto
qed simp

end

end
