(* ===== verification/Bq_Error.thy ===== *)
theory Bq_Error
  imports Prelude
begin

text \<open>
  The error type of the client library (\<open>crates/arrow-bigquery/src/error.rs\<close>): job errors as
  BigQuery reports them, the error enum with its \<open>Display\<close> and \<open>source\<close>, and the rendering of
  the whole causal chain. The lemmas give closed forms for the two renderings and show that no
  cause and no distinct job error is lost.
\<close>

section \<open>Job errors\<close>

record error_proto =
  ep_reason :: string
  ep_location :: string
  ep_message :: string
  ep_debug_info :: string

record job_error =
  je_reason :: "string option"
  je_location :: "string option"
  je_message :: string
  je_debug_info :: "string option"

definition then_some :: "bool \<Rightarrow> 'a \<Rightarrow> 'a option" where
  "then_some b a = (if b then Some a else None)"

definition job_error_from :: "error_proto \<Rightarrow> job_error" where
  "job_error_from proto =
     \<lparr>je_reason = then_some (ep_reason proto \<noteq> []) (ep_reason proto),
      je_location = then_some (ep_location proto \<noteq> []) (ep_location proto),
      je_message = ep_message proto,
      je_debug_info = then_some (ep_debug_info proto \<noteq> []) (ep_debug_info proto)\<rparr>"

record job_failed_error =
  jf_project_id :: "string option"
  jf_location :: "string option"
  jf_job_id :: "string option"
  jf_error :: job_error
  jf_errors :: "job_error list"

datatype bq_error =
    Grpc gax_error
  | ClientBuilder std_error
  | Arrow std_error
  | JobFailed job_failed_error
  | Protocol string
  | InvalidConfig string
  | Other std_error

text \<open>The conversions of third-party errors, which the question mark operator applies.\<close>

definition from_grpc :: "gax_error \<Rightarrow> bq_error" where "from_grpc s = Grpc s"
definition from_client_builder :: "std_error \<Rightarrow> bq_error" where "from_client_builder e = ClientBuilder e"
definition from_polars :: "std_error \<Rightarrow> bq_error" where "from_polars e = Arrow e"

section \<open>Display\<close>

definition format_job_error :: "job_error \<Rightarrow> bool \<Rightarrow> string" where
  "format_job_error err is_primary =
     (let reason = unwrap_or [] (map_option trim (je_reason err));
          location = unwrap_or [] (map_option trim (je_location err));
          message = trim_end (je_message err);
          has_meta = (reason \<noteq> [] \<or> location \<noteq> [])
      in (if is_primary \<and> has_meta then '' '' else [])
         @ (if reason \<noteq> [] \<and> location \<noteq> [] then ''('' @ reason @ '' at '' @ location @ '')''
            else if reason \<noteq> [] then ''('' @ reason @ '')''
            else if location \<noteq> [] then ''(at '' @ location @ '')''
            else [])
         @ (if message \<noteq> []
            then (if is_primary \<or> has_meta then '': '' @ message else message)
            else []))"

definition is_same_job_error :: "job_error \<Rightarrow> job_error \<Rightarrow> bool" where
  "is_same_job_error a b \<longleftrightarrow>
     map_option trim (je_reason a) = map_option trim (je_reason b)
     \<and> map_option trim (je_location a) = map_option trim (je_location b)
     \<and> trim (je_message a) = trim (je_message b)"

fun format_extra_errors :: "job_error \<Rightarrow> job_error list \<Rightarrow> string" where
  "format_extra_errors primary [] = []"
| "format_extra_errors primary (extra # rest) =
     (if \<not> is_same_job_error primary extra then ''; '' @ format_job_error extra False else [])
     @ format_extra_errors primary rest"

definition job_failed_header :: "job_failed_error \<Rightarrow> string" where
  "job_failed_header e =
     (let location = unwrap_or [] (map_option trim (jf_location e));
          job_id = unwrap_or [] (map_option trim (jf_job_id e))
      in if location \<noteq> [] \<and> job_id \<noteq> []
         then ''BigQuery job '' @ location @ '':'' @ job_id @ '' failed''
         else if location = [] \<and> job_id \<noteq> [] then ''BigQuery job '' @ job_id @ '' failed''
         else ''BigQuery job failed'')"

definition fmt_job_failed :: "job_failed_error \<Rightarrow> string" where
  "fmt_job_failed e =
     job_failed_header e
     @ format_job_error (jf_error e) True
     @ format_extra_errors (jf_error e) (jf_errors e)"

definition err_display :: "bq_error \<Rightarrow> string" where
  "err_display e = (case e of
       Grpc s \<Rightarrow> ''BigQuery Storage API error: '' @ err_text (ge_std s)
     | ClientBuilder c \<Rightarrow> ''BigQuery client builder error: '' @ err_text c
     | Arrow a \<Rightarrow> ''Arrow decoding error: '' @ err_text a
     | JobFailed err \<Rightarrow> fmt_job_failed err
     | Protocol msg \<Rightarrow> ''BigQuery protocol error: '' @ msg
     | InvalidConfig msg \<Rightarrow> ''BigQuery configuration error: '' @ msg
     | Other o' \<Rightarrow> ''BigQuery client error: '' @ err_text o')"

definition err_cause :: "bq_error \<Rightarrow> std_error option" where
  "err_cause e = (case e of
       Grpc s \<Rightarrow> Some (ge_std s)
     | ClientBuilder c \<Rightarrow> Some c
     | Arrow a \<Rightarrow> Some a
     | JobFailed _ \<Rightarrow> None
     | Protocol _ \<Rightarrow> None
     | InvalidConfig _ \<Rightarrow> None
     | Other o' \<Rightarrow> Some o')"

section \<open>The causal chain\<close>

text \<open>The loop of \<open>format_causal_chain\<close>: \<open>full\<close> grows, \<open>prev\<close> is the previous message.\<close>

fun causal_loop :: "string \<Rightarrow> string \<Rightarrow> std_error option \<Rightarrow> string" where
  "causal_loop full prev None = full"
| "causal_loop full prev (Some (StdError msg src p)) =
     causal_loop
       (if msg \<noteq> [] \<and> \<not> contains_str prev msg then full @ '': caused by: '' @ msg else full)
       msg src"

definition format_causal_chain :: "bq_error \<Rightarrow> string" where
  "format_causal_chain e = causal_loop (err_display e) (err_display e) (err_cause e)"

text \<open>The segments that are not embedded in the message before them.\<close>

definition new_segments :: "string \<Rightarrow> string list \<Rightarrow> string list" where
  "new_segments first ms =
     map snd (filter (\<lambda>(prev, m). m \<noteq> [] \<and> \<not> sublist m prev) (zip (first # ms) ms))"

lemma causal_loop_segments:
  "causal_loop full prev src =
     full @ concat (map (\<lambda>m. '': caused by: '' @ m)
       (new_segments prev (map err_text (source_chain src))))"
  by (induction full prev src rule: causal_loop.induct)
    (auto simp: new_segments_def str_simps)

lemma causal_loop_prefix: "prefix full (causal_loop full prev src)"
  by (simp add: causal_loop_segments)

lemma causal_loop_complete:
  "sublist prev full \<Longrightarrow> s \<in> set (source_chain src) \<Longrightarrow>
     sublist (err_text s) (causal_loop full prev src)"
proof (induction full prev src arbitrary: s rule: causal_loop.induct)
  case (1 full prev)
  then show ?case by simp
next
  case (2 full prev msg src p)
  let ?full = "if msg \<noteq> [] \<and> \<not> contains_str prev msg then full @ '': caused by: '' @ msg else full"
  have here: "sublist msg ?full"
    using "2.prems"(1)
    by (auto simp: str_simps intro: sublist_trans
        sublist_last_segment [of msg full "'': caused by: ''", simplified])
  show ?case
  proof (cases "s = StdError msg src p")
    case True
    have "sublist msg (causal_loop ?full msg src)"
      using here causal_loop_prefix prefix_imp_sublist sublist_trans by blast
    with True show ?thesis by simp
  next
    case False
    with "2.prems"(2) have "s \<in> set (source_chain src)" by simp
    with "2.IH" here show ?thesis by simp
  qed
qed

text \<open>C29: The rendered causal chain is the error's own text followed, in order, by exactly
  those causes whose text is non-empty and not already contained in the message just before
  them.\<close>

theorem format_causal_chain_closed_form:
  "format_causal_chain e =
     err_display e @ concat (map (\<lambda>m. '': caused by: '' @ m)
       (new_segments (err_display e) (map err_text (source_chain (err_cause e)))))"
  by (simp add: format_causal_chain_def causal_loop_segments)

text \<open>C28: No cause is lost: the text of every error on the causal chain occurs in the rendered
  chain, also when it was suppressed as already embedded in its predecessor.\<close>

theorem format_causal_chain_complete:
  assumes "s \<in> set (source_chain (err_cause e))"
  shows "sublist (err_text s) (format_causal_chain e)"
  using assms by (auto simp: format_causal_chain_def intro: causal_loop_complete)

definition sample_io_error :: std_error where
  "sample_io_error = StdError ''missing creds.json'' None None"

definition sample_builder_error :: bq_error where
  "sample_builder_error =
     ClientBuilder (StdError ''no credentials: auth'' (Some (StdError ''auth'' (Some sample_io_error) None)) None)"

theorem format_causal_chain_complete_witness:
  "sample_io_error \<in> set (source_chain (err_cause sample_builder_error))
   \<and> sublist (err_text sample_io_error) (format_causal_chain sample_builder_error)
   \<and> format_causal_chain sample_builder_error =
       ''BigQuery client builder error: no credentials: auth: caused by: missing creds.json''"
proof -
  have h: "sample_io_error \<in> set (source_chain (err_cause sample_builder_error))"
    by (simp add: sample_builder_error_def err_cause_def sample_io_error_def)
  moreover have "format_causal_chain sample_builder_error =
       ''BigQuery client builder error: no credentials: auth: caused by: missing creds.json''"
    by (simp add: sample_builder_error_def sample_io_error_def format_causal_chain_def
        err_display_def err_cause_def)
  ultimately show ?thesis using format_causal_chain_complete [OF h] by blast
qed

section \<open>Job failures\<close>

lemma format_extra_errors_eq:
  "format_extra_errors p xs =
     concat (map (\<lambda>x. ''; '' @ format_job_error x False) (filter (\<lambda>x. \<not> is_same_job_error p x) xs))"
  by (induction p xs rule: format_extra_errors.induct) auto

lemma is_same_job_error_refl [simp]: "is_same_job_error a a"
  by (simp add: is_same_job_error_def)

lemma is_same_job_error_sym: "is_same_job_error a b \<longleftrightarrow> is_same_job_error b a"
  by (auto simp: is_same_job_error_def)

lemma is_same_job_error_trans:
  "is_same_job_error a b \<Longrightarrow> is_same_job_error b c \<Longrightarrow> is_same_job_error a c"
  by (simp add: is_same_job_error_def)

text \<open>A failed job is displayed as its header, its primary error and then, in order and each
  exactly once, those further errors that differ from the primary one in reason, location or
  message.\<close>

lemma fmt_job_failed_closed_form:
  "err_display (JobFailed e) =
     job_failed_header e @ format_job_error (jf_error e) True
     @ concat (map (\<lambda>x. ''; '' @ format_job_error x False)
         (filter (\<lambda>x. \<not> is_same_job_error (jf_error e) x) (jf_errors e)))"
  by (simp add: err_display_def fmt_job_failed_def format_extra_errors_eq)

lemma job_error_from_fields:
  "je_reason (job_error_from p) \<noteq> Some []"
  "je_location (job_error_from p) \<noteq> Some []"
  "je_debug_info (job_error_from p) \<noteq> Some []"
  "je_message (job_error_from p) = ep_message p"
  by (auto simp: job_error_from_def then_some_def)

end
