(* ===== verification/Arrow.thy ===== *)
theory Arrow
  imports Bq_Error
begin

text \<open>
  Arrow data as the code handles it: schemas, record batches and the arrays it builds itself.
  The IPC reader of polars-arrow is an argument of the model (\<open>ipc\<close>): it parses schema bytes into
  stream metadata and iterates over the states it decodes from a payload.
\<close>

type_synonym bytes = "8 word list"

datatype time_unit = Second | Millisecond | Microsecond | Nanosecond

datatype data_type =
    Utf8Type | Int64Type | Int32Type | BooleanType
  | TimestampType time_unit "string option"
  | StructType "field list"
  | OtherType string
and field = Field (f_name: string) (f_dtype: data_type) (f_nullable: bool)

type_synonym arrow_schema = "field list"

datatype column =
    Utf8Array "string option list"
  | Int64Array "i64 option list"
  | BooleanArray "bool option list"
  | TimestampArray "i64 option list" time_unit "string option"
  | OtherArray string nat

text \<open>The number of rows is a \<open>usize\<close>.\<close>

record record_batch =
  rb_len :: u64
  rb_schema :: arrow_schema
  rb_arrays :: "column list"

record stream_metadata =
  md_schema :: arrow_schema
  md_ipc :: bytes

datatype stream_state = Some_batch record_batch | Waiting

record ipc =
  ipc_read_metadata :: "bytes \<Rightarrow> (std_error, stream_metadata) res"
  ipc_stream :: "bytes \<Rightarrow> stream_metadata \<Rightarrow> (std_error, stream_state) res list"

fun column_len :: "column \<Rightarrow> nat" where
  "column_len (Utf8Array xs) = length xs"
| "column_len (Int64Array xs) = length xs"
| "column_len (BooleanArray xs) = length xs"
| "column_len (TimestampArray xs u z) = length xs"
| "column_len (OtherArray k n) = n"

fun column_dtype :: "column \<Rightarrow> data_type" where
  "column_dtype (Utf8Array xs) = Utf8Type"
| "column_dtype (Int64Array xs) = Int64Type"
| "column_dtype (BooleanArray xs) = BooleanType"
| "column_dtype (TimestampArray xs u z) = TimestampType u z"
| "column_dtype (OtherArray k n) = OtherType k"

text \<open>Columns that fit a schema: one for each field, of its type and of the given length.\<close>

definition fits :: "nat \<Rightarrow> arrow_schema \<Rightarrow> column list \<Rightarrow> bool" where
  "fits n schema cols \<longleftrightarrow> list_all2 (\<lambda>f c. column_dtype c = f_dtype f \<and> column_len c = n) schema cols"

end
