(* ===== verification/Decode.thy ===== *)
theory Decode
  imports Arrow "HOL-Library.Multiset"
begin

text \<open>
  Decoding of record batches (\<open>crates/arrow-bigquery/src/decode.rs\<close>): validation and decoding of
  one payload, the decode job with its cancellation points, and the two decode queues. The
  ordered queue is a step relation over its two locked sections and the tasks it spawns; the
  work-stealing queue is one task per job. The locales state what a queue promises its client,
  and both queues are interpretations.
\<close>

section \<open>One payload\<close>

definition parse_arrow_schema :: "ipc \<Rightarrow> bytes \<Rightarrow> (bq_error, stream_metadata) res" where
  "parse_arrow_schema ipc schema_bytes = rmap_err Arrow (ipc_read_metadata ipc schema_bytes)"

definition row_count_mismatch :: "i64 \<Rightarrow> i64 \<Rightarrow> bq_error" where
  "row_count_mismatch expected actual =
     Protocol (''Row count mismatch: gRPC protobuf reported '' @ show_int (sint expected)
       @ '' rows, but Arrow IPC decoded '' @ show_int (sint actual) @ '' rows'')"

definition validate_non_empty_arrow_bytes :: "bytes option \<Rightarrow> i64 \<Rightarrow> (bq_error, bytes option) res" where
  "validate_non_empty_arrow_bytes serialized expected_row_count =
     (case opt_filter (\<lambda>b. b \<noteq> []) serialized of
        Some bs \<Rightarrow> Inr (Some bs)
      | None \<Rightarrow> if expected_row_count = 0 then Inr None
                else Inl (row_count_mismatch expected_row_count 0))"

fun decode_loop ::
  "i64 \<Rightarrow> record_batch list \<Rightarrow> (std_error, stream_state) res list
     \<Rightarrow> (bq_error, i64 \<times> record_batch list) res" where
  "decode_loop actual_rows batches [] = Inr (actual_rows, batches)"
| "decode_loop actual_rows batches (Inr (Some_batch batch) # rest) =
     (case checked_add_i64 actual_rows (rb_len batch) of
        None \<Rightarrow> Inl (Protocol ''Decoded batch row count overflow'')
      | Some n \<Rightarrow> decode_loop n (batches @ [batch]) rest)"
| "decode_loop actual_rows batches (Inr Waiting # rest) = Inr (actual_rows, batches)"
| "decode_loop actual_rows batches (Inl e # rest) = Inl (Arrow e)"

definition decode_arrow_record_batches ::
  "ipc \<Rightarrow> bytes \<Rightarrow> i64 \<Rightarrow> stream_metadata \<Rightarrow> (bq_error, record_batch list) res" where
  "decode_arrow_record_batches ipc serialized expected_row_count metadata =
     rbind (decode_loop 0 [] (ipc_stream ipc serialized metadata)) (\<lambda>(actual_rows, batches).
       if actual_rows \<noteq> expected_row_count
       then Inl (row_count_mismatch expected_row_count actual_rows)
       else Inr batches)"

section \<open>A decode job\<close>

record decode_job =
  dj_bytes :: bytes
  dj_expected_row_count :: i64
  dj_metadata :: stream_metadata

text \<open>
  What a job observes of its surroundings while it runs: the cancel flag when it starts and
  after decoding, and for its \<open>i\<close>-th batch after the first whether the flag is set or the
  channel closed, and whether the blocking send fails. Its effects are the messages it sends
  and the cancellation of its siblings.
\<close>

record run_env =
  re_cancel_queued :: bool
  re_cancel_decoded :: bool
  re_stop :: "nat \<Rightarrow> bool"
  re_send_fails :: "nat \<Rightarrow> bool"

datatype job_effect = SendBatch record_batch | SendErr bq_error | CancelSiblings

fun send_rest :: "run_env \<Rightarrow> nat \<Rightarrow> record_batch list \<Rightarrow> job_effect list" where
  "send_rest env i [] = []"
| "send_rest env i (batch # rest) =
     (if re_stop env i then []
      else if re_send_fails env i then []
      else SendBatch batch # send_rest env (Suc i) rest)"

definition decode_job_run :: "ipc \<Rightarrow> run_env \<Rightarrow> decode_job \<Rightarrow> job_effect list" where
  "decode_job_run ipc env job =
     (if re_cancel_queued env then []
      else let result = decode_arrow_record_batches ipc (dj_bytes job)
                          (dj_expected_row_count job) (dj_metadata job)
           in if re_cancel_decoded env then []
              else case result of
                     Inr batches \<Rightarrow>
                       (case batches of
                          [] \<Rightarrow> []
                        | first # rest \<Rightarrow> SendBatch first # send_rest env 0 rest)
                   | Inl err \<Rightarrow> [CancelSiblings, SendErr err])"

section \<open>The ordered queue\<close>

record 'job ordered_queue =
  oq_queue :: "'job list"
  oq_running :: bool

definition oq_new :: "'job ordered_queue" where
  "oq_new = \<lparr>oq_queue = [], oq_running = False\<rparr>"

text \<open>The locked section of \<open>push\<close>: the new state and whether to spawn a drain task.\<close>

definition oq_push :: "'job \<Rightarrow> 'job ordered_queue \<Rightarrow> 'job ordered_queue \<times> bool" where
  "oq_push job st =
     (let st' = st\<lparr>oq_queue := oq_queue st @ [job]\<rparr>
      in if \<not> oq_running st' then (st'\<lparr>oq_running := True\<rparr>, True) else (st', False))"

text \<open>The locked section of one round of \<open>drain\<close>: a job to run, or None to return.\<close>

definition oq_pop :: "'job ordered_queue \<Rightarrow> 'job ordered_queue \<times> 'job option" where
  "oq_pop st =
     (case oq_queue st of
        job # rest \<Rightarrow> (st\<lparr>oq_queue := rest\<rparr>, Some job)
      | [] \<Rightarrow> (st\<lparr>oq_running := False\<rparr>, None))"

text \<open>
  The queue with the drain tasks it spawned: each is at the head of its loop (None) or runs a
  job. \<open>qs_pushed\<close> and \<open>qs_finished\<close> record the history.
\<close>

record 'job queue_system =
  qs_state :: "'job ordered_queue"
  qs_workers :: "'job option list"
  qs_pushed :: "'job list"
  qs_finished :: "'job list"

definition qs_init :: "'job queue_system" where
  "qs_init = \<lparr>qs_state = oq_new, qs_workers = [], qs_pushed = [], qs_finished = []\<rparr>"

definition qs_push :: "'job \<Rightarrow> 'job queue_system \<Rightarrow> 'job queue_system" where
  "qs_push job s =
     (case oq_push job (qs_state s) of (st, spawn) \<Rightarrow>
        s\<lparr>qs_state := st, qs_workers := qs_workers s @ (if spawn then [None] else []),
          qs_pushed := qs_pushed s @ [job]\<rparr>)"

text \<open>One action of the drain task \<open>w\<close>: take the next job, return, or finish the job it runs.\<close>

definition qs_work :: "nat \<Rightarrow> 'job queue_system \<Rightarrow> 'job queue_system" where
  "qs_work w s =
     (if length (qs_workers s) \<le> w then s
      else case qs_workers s ! w of
             Some job \<Rightarrow> s\<lparr>qs_workers := (qs_workers s)[w := None],
                            qs_finished := qs_finished s @ [job]\<rparr>
           | None \<Rightarrow>
               (case oq_pop (qs_state s) of
                  (st, Some job) \<Rightarrow> s\<lparr>qs_state := st, qs_workers := (qs_workers s)[w := Some job]\<rparr>
                | (st, None) \<Rightarrow> s\<lparr>qs_state := st,
                    qs_workers := take w (qs_workers s) @ drop (Suc w) (qs_workers s)\<rparr>))"

inductive queue_reach :: "'job queue_system \<Rightarrow> bool" where
  start: "queue_reach qs_init"
| push: "queue_reach s \<Longrightarrow> queue_reach (qs_push job s)"
| work: "queue_reach s \<Longrightarrow> w < length (qs_workers s) \<Longrightarrow> queue_reach (qs_work w s)"

section \<open>The work-stealing queue\<close>

record 'job pool_system =
  ps_tasks :: "'job list"
  ps_pushed :: "'job list"
  ps_finished :: "'job list"

definition ps_init :: "'job pool_system" where
  "ps_init = \<lparr>ps_tasks = [], ps_pushed = [], ps_finished = []\<rparr>"

definition ps_push :: "'job \<Rightarrow> 'job pool_system \<Rightarrow> 'job pool_system" where
  "ps_push job s = s\<lparr>ps_tasks := ps_tasks s @ [job], ps_pushed := ps_pushed s @ [job]\<rparr>"

text \<open>Any spawned task may be the next to finish.\<close>

definition ps_finish :: "nat \<Rightarrow> 'job pool_system \<Rightarrow> 'job pool_system" where
  "ps_finish k s =
     s\<lparr>ps_tasks := take k (ps_tasks s) @ drop (Suc k) (ps_tasks s),
       ps_finished := ps_finished s @ [ps_tasks s ! k]\<rparr>"

inductive pool_reach :: "'job pool_system \<Rightarrow> bool" where
  start: "pool_reach ps_init"
| push: "pool_reach s \<Longrightarrow> pool_reach (ps_push job s)"
| finish: "pool_reach s \<Longrightarrow> k < length (ps_tasks s) \<Longrightarrow> pool_reach (ps_finish k s)"

section \<open>The queue of a read\<close>

datatype 'job decode_queue = WorkStealing "'job pool_system" | Ordered "'job queue_system"

definition decode_queue_new :: "bool \<Rightarrow> 'job decode_queue" where
  "decode_queue_new maintain_order =
     (if maintain_order then Ordered qs_init else WorkStealing ps_init)"

definition decode_queue_push :: "'job \<Rightarrow> 'job decode_queue \<Rightarrow> 'job decode_queue" where
  "decode_queue_push job q =
     (case q of WorkStealing s \<Rightarrow> WorkStealing (ps_push job s) | Ordered s \<Rightarrow> Ordered (qs_push job s))"

section \<open>What decoding returns\<close>

text \<open>The batches before the reader waits or ends; None when it fails first.\<close>

fun batches_of :: "(std_error, stream_state) res list \<Rightarrow> record_batch list option" where
  "batches_of [] = Some []"
| "batches_of (Inr (Some_batch b) # rest) = map_option ((#) b) (batches_of rest)"
| "batches_of (Inr Waiting # rest) = Some []"
| "batches_of (Inl e # rest) = None"

definition rows_in :: "record_batch list \<Rightarrow> int" where
  "rows_in bs = (\<Sum>b \<leftarrow> bs. sint (rb_len b))"

lemma rows_in_simps [simp]:
  "rows_in [] = 0"
  "rows_in (b # bs) = sint (rb_len b) + rows_in bs"
  "rows_in (bs @ cs) = rows_in bs + rows_in cs"
  by (simp_all add: rows_in_def)

lemma rows_in_nonneg: "\<forall>b \<in> set bs. 0 \<le> sint (rb_len b) \<Longrightarrow> 0 \<le> rows_in bs"
  by (induction bs) auto

lemma decode_loop_Inr:
  "decode_loop n acc st = Inr (m, bs) \<Longrightarrow>
     \<exists>new. batches_of st = Some new \<and> bs = acc @ new \<and> sint m = sint n + rows_in new"
proof (induction n acc st rule: decode_loop.induct)
  case (2 n acc b rest)
  then obtain k where k: "checked_add_i64 n (rb_len b) = Some k"
    and "decode_loop k (acc @ [b]) rest = Inr (m, bs)"
    by (auto split: option.splits)
  with "2.IH" [OF k] checked_add_i64_Some [OF k] show ?case by auto
qed auto

lemma decode_loop_complete:
  "batches_of st = Some new \<Longrightarrow> \<forall>b \<in> set new. 0 \<le> sint (rb_len b) \<Longrightarrow>
   0 \<le> sint n \<Longrightarrow> sint n + rows_in new < 2 ^ 63 \<Longrightarrow>
     \<exists>m. decode_loop n acc st = Inr (m, acc @ new) \<and> sint m = sint n + rows_in new"
proof (induction n acc st arbitrary: new rule: decode_loop.induct)
  case (2 n acc b rest)
  then obtain new' where new: "new = b # new'" "batches_of rest = Some new'" by auto
  with 2 have "0 \<le> rows_in new'" by (intro rows_in_nonneg) auto
  with 2 new have "checked_add_i64 n (rb_len b) \<noteq> None"
    by (auto simp: checked_add_i64_None_iff)
  then obtain k where k: "checked_add_i64 n (rb_len b) = Some k" by auto
  with "2.IH" [OF k new(2)] new 2 checked_add_i64_Some [OF k] show ?case by auto
qed auto

text \<open>C22: Decoding succeeds only with exactly the batches the reader yields before it waits or
  ends, and only if their row counts add up, as integers, to the count the server announced.\<close>

theorem decode_row_count_agrees:
  assumes "decode_arrow_record_batches ipc bs expected md = Inr batches"
  shows "batches_of (ipc_stream ipc bs md) = Some batches \<and> rows_in batches = sint expected"
  using assms decode_loop_Inr [of 0 "[]" "ipc_stream ipc bs md"]
  by (auto simp: decode_arrow_record_batches_def rbind_Inr_iff split: if_splits)

text \<open>A payload whose batches have non-negative lengths adding up to the announced count is
  always decoded: the overflow check never rejects it.\<close>

lemma decode_complete:
  assumes batches: "batches_of (ipc_stream ipc bs md) = Some batches"
    and nonneg: "\<forall>b \<in> set batches. 0 \<le> sint (rb_len b)"
    and total: "rows_in batches = sint expected"
  shows "decode_arrow_record_batches ipc bs expected md = Inr batches"
proof -
  obtain m where "decode_loop 0 [] (ipc_stream ipc bs md) = Inr (m, batches)" "sint m = rows_in batches"
    using decode_loop_complete [OF batches nonneg, of 0 "[]"] total sint_i64_range(2) [of expected] by auto
  with total show ?thesis
    by (auto simp: decode_arrow_record_batches_def dest: signed_word_eqI)
qed

text \<open>A reader of toy payloads: each byte is the length of one batch, 255 is a corrupt byte.\<close>

definition toy_batch :: "nat \<Rightarrow> record_batch" where
  "toy_batch n = \<lparr>rb_len = of_nat n, rb_schema = [], rb_arrays = []\<rparr>"

definition toy_ipc :: ipc where
  "toy_ipc =
     \<lparr>ipc_read_metadata = (\<lambda>bs. if bs = [] then Inl (StdError ''eof'' None None)
        else Inr \<lparr>md_schema = [Field ''col1'' Int64Type False], md_ipc = bs\<rparr>),
      ipc_stream = (\<lambda>bs md. map (\<lambda>b. if b = 255 then Inl (StdError ''corrupt'' None None)
        else Inr (Some_batch (toy_batch (unat b)))) bs)\<rparr>"

definition toy_metadata :: stream_metadata where
  "toy_metadata = \<lparr>md_schema = [Field ''col1'' Int64Type False], md_ipc = [1]\<rparr>"

lemma toy_decode: "decode_arrow_record_batches toy_ipc [2, 3] 5 toy_metadata = Inr [toy_batch 2, toy_batch 3]"
  by (simp add: decode_arrow_record_batches_def toy_ipc_def toy_batch_def checked_add_i64_def)

theorem decode_row_count_agrees_witness:
  "decode_arrow_record_batches toy_ipc [2, 3] 5 toy_metadata = Inr [toy_batch 2, toy_batch 3]
   \<and> rows_in [toy_batch 2, toy_batch 3] = 5"
  using toy_decode decode_row_count_agrees [OF toy_decode] by simp

theorem decode_complete_witness:
  "decode_arrow_record_batches toy_ipc [2, 3] 5 toy_metadata = Inr [toy_batch 2, toy_batch 3]"
  by (rule decode_complete) (simp_all add: toy_ipc_def toy_batch_def)

section \<open>What a job sends\<close>

definition sent_batches :: "job_effect list \<Rightarrow> record_batch list" where
  "sent_batches es = concat (map (\<lambda>e. case e of SendBatch b \<Rightarrow> [b] | _ \<Rightarrow> []) es)"

definition is_send_err :: "job_effect \<Rightarrow> bool" where
  "is_send_err e \<longleftrightarrow> (\<exists>err. e = SendErr err)"

lemma send_rest_prefix: "\<exists>n. send_rest env i bs = map SendBatch (take n bs)"
proof (induction env i bs rule: send_rest.induct)
  case (2 env i b bs)
  show ?case
  proof (cases "re_stop env i \<or> re_send_fails env i")
    case True
    then show ?thesis by (intro exI [of _ 0]) auto
  next
    case False
    with 2 obtain n where "send_rest env (Suc i) bs = map SendBatch (take n bs)" by auto
    with False show ?thesis by (intro exI [of _ "Suc n"]) simp
  qed
qed simp

lemma send_rest_all:
  "\<forall>i. \<not> re_stop env i \<and> \<not> re_send_fails env i \<Longrightarrow> send_rest env i bs = map SendBatch bs"
  by (induction env i bs rule: send_rest.induct) auto

text \<open>Whatever a job observes, it sends either a prefix of the batches of its own payload,
  in order and nothing else, or, when the payload does not decode, exactly the cancellation of
  its siblings followed by the error; undisturbed it sends all of them.\<close>

lemma decode_job_effects:
  "case decode_arrow_record_batches ipc (dj_bytes job) (dj_expected_row_count job) (dj_metadata job) of
     Inr batches \<Rightarrow>
       (\<exists>n. decode_job_run ipc env job = map SendBatch (take n batches))
       \<and> (\<not> re_cancel_queued env \<and> \<not> re_cancel_decoded env
            \<and> (\<forall>i. \<not> re_stop env i \<and> \<not> re_send_fails env i)
          \<longrightarrow> decode_job_run ipc env job = map SendBatch batches)
   | Inl err \<Rightarrow>
       decode_job_run ipc env job =
         (if re_cancel_queued env \<or> re_cancel_decoded env then [] else [CancelSiblings, SendErr err])"
proof (cases "decode_arrow_record_batches ipc (dj_bytes job) (dj_expected_row_count job) (dj_metadata job)")
  case (Inl err)
  then show ?thesis by (simp add: decode_job_run_def)
next
  case (Inr batches)
  show ?thesis
  proof (cases "re_cancel_queued env \<or> re_cancel_decoded env \<or> batches = []")
    case True
    with Inr show ?thesis by (auto simp: decode_job_run_def intro: exI [of _ 0])
  next
    case False
    then obtain b bs where bs: "batches = b # bs" by (cases batches) auto
    obtain n where "send_rest env 0 bs = map SendBatch (take n bs)"
      using send_rest_prefix by blast
    with False Inr bs have "decode_job_run ipc env job = map SendBatch (take (Suc n) batches)"
      by (simp add: decode_job_run_def)
    then have "\<exists>n. decode_job_run ipc env job = map SendBatch (take n batches)" ..
    moreover have "\<forall>i. \<not> re_stop env i \<and> \<not> re_send_fails env i \<Longrightarrow>
        decode_job_run ipc env job = map SendBatch batches"
      using False Inr bs by (simp add: decode_job_run_def send_rest_all)
    ultimately show ?thesis using Inr by simp
  qed
qed

definition calm :: run_env where
  "calm = \<lparr>re_cancel_queued = False, re_cancel_decoded = False,
           re_stop = (\<lambda>i. False), re_send_fails = (\<lambda>i. False)\<rparr>"

definition toy_job :: decode_job where
  "toy_job = \<lparr>dj_bytes = [2, 3], dj_expected_row_count = 5, dj_metadata = toy_metadata\<rparr>"

lemma decode_job_effects_at_work:
  "decode_job_run toy_ipc calm toy_job = [SendBatch (toy_batch 2), SendBatch (toy_batch 3)]"
  using decode_job_effects [where ipc = toy_ipc and job = toy_job and env = calm] toy_decode
  by (simp add: toy_job_def calm_def)

section \<open>The contracts of an executor\<close>

text \<open>
  A queue promises its client that no job is run twice or invented; the ordered queue promises
  moreover that jobs finish in the order in which they were pushed.
\<close>

locale executor =
  fixes reachable :: "'s \<Rightarrow> bool"
    and pushed :: "'s \<Rightarrow> 'job list"
    and finished :: "'s \<Rightarrow> 'job list"
  assumes finished_subset: "reachable s \<Longrightarrow> mset (finished s) \<subseteq># mset (pushed s)"
begin

lemma outputs_subset:
  assumes "reachable s"
  shows "mset (concat (map out (finished s))) \<subseteq># mset (concat (map out (pushed s)))"
proof -
  obtain m where "mset (pushed s) = mset (finished s) + m"
    using finished_subset [OF assms] by (metis mset_subset_eq_exists_conv)
  then have "(\<Sum>j\<in>#mset (pushed s). mset (out j))
      = (\<Sum>j\<in>#mset (finished s). mset (out j)) + (\<Sum>j\<in>#m. mset (out j))"
    by simp
  moreover have "mset (concat (map out xs)) = (\<Sum>j\<in>#mset xs. mset (out j))" for xs :: "'job list"
    by (induction xs) simp_all
  ultimately show ?thesis by simp
qed

lemma outputs_complete:
  assumes "reachable s" "length (finished s) = length (pushed s)"
  shows "mset (concat (map out (finished s))) = mset (concat (map out (pushed s)))"
proof -
  have "mset (finished s) = mset (pushed s)"
    using finished_subset [OF assms(1)] assms(2)
    by (metis size_mset subset_mset.le_imp_less_or_eq mset_subset_size less_irrefl)
  moreover have "mset (concat (map out xs)) = (\<Sum>j\<in>#mset xs. mset (out j))" for xs :: "'job list"
    by (induction xs) simp_all
  ultimately show ?thesis by simp
qed

end

locale fifo_executor =
  fixes reachable :: "'s \<Rightarrow> bool"
    and pushed :: "'s \<Rightarrow> 'job list"
    and finished :: "'s \<Rightarrow> 'job list"
  assumes fifo: "reachable s \<Longrightarrow> prefix (finished s) (pushed s)"
begin

lemma outputs_in_order:
  "reachable s \<Longrightarrow> prefix (concat (map out (finished s))) (concat (map out (pushed s)))"
  by (auto simp: prefix_def dest!: fifo)

end

sublocale fifo_executor \<subseteq> executor reachable pushed finished
proof
  fix s
  assume "reachable s"
  then show "mset (finished s) \<subseteq># mset (pushed s)"
    by (auto simp: prefix_def dest!: fifo)
qed

section \<open>The queues keep their contracts\<close>

text \<open>The jobs that some task has taken and not finished.\<close>

definition active :: "'job option list \<Rightarrow> 'job list" where
  "active ws = List.map_filter id ws"

lemma active_simps [simp]:
  "active [] = []"
  "active (None # ws) = active ws"
  "active (Some j # ws) = j # active ws"
  by (simp_all add: active_def)

text \<open>
  There is exactly one drain task while \<open>running\<close> is set and none otherwise; the queue is empty
  when it is not set; and the pushed jobs are the finished ones, the active one and the queued
  ones, in this order.
\<close>

definition queue_inv :: "'job queue_system \<Rightarrow> bool" where
  "queue_inv s \<longleftrightarrow>
     (if oq_running (qs_state s) then length (qs_workers s) = 1
      else qs_workers s = [] \<and> oq_queue (qs_state s) = [])
     \<and> qs_pushed s = qs_finished s @ active (qs_workers s) @ oq_queue (qs_state s)"

lemma queue_inv_init: "queue_inv qs_init"
  by (simp add: queue_inv_def qs_init_def oq_new_def)

lemma queue_inv_push: "queue_inv s \<Longrightarrow> queue_inv (qs_push job s)"
  by (auto simp: queue_inv_def qs_push_def oq_push_def Let_def split: if_splits)

lemma queue_inv_work: "queue_inv s \<Longrightarrow> queue_inv (qs_work w s)"
proof (cases "qs_workers s")
  case (Cons a ws)
  assume inv: "queue_inv s"
  then have "qs_workers s = [a]" and "oq_running (qs_state s)"
    using Cons by (auto simp: queue_inv_def split: if_splits)
  with inv show ?thesis
    by (cases w; cases a; cases "oq_queue (qs_state s)")
      (auto simp: queue_inv_def qs_work_def oq_pop_def)
qed (simp add: qs_work_def)

lemma queue_reach_inv: "queue_reach s \<Longrightarrow> queue_inv s"
  by (induction rule: queue_reach.induct) (auto intro: queue_inv_init queue_inv_push queue_inv_work)

interpretation oq: fifo_executor queue_reach qs_pushed qs_finished
  by unfold_locales (auto simp: queue_inv_def dest!: queue_reach_inv)

lemma pool_reach_mset: "pool_reach s \<Longrightarrow> mset (ps_pushed s) = mset (ps_finished s) + mset (ps_tasks s)"
proof (induction rule: pool_reach.induct)
  case (finish s k)
  have "mset (ps_tasks s) = mset (take k (ps_tasks s)) + {#ps_tasks s ! k#} + mset (drop (Suc k) (ps_tasks s))"
    using id_take_nth_drop [OF finish.hyps(2)] by (metis add.assoc mset.simps(1,2) mset_append add_mset_add_single add.commute)
  with finish show ?case by (simp add: ps_finish_def)
qed (simp_all add: ps_init_def ps_push_def)

interpretation ws: executor pool_reach ps_pushed ps_finished
  by unfold_locales (simp add: pool_reach_mset)

text \<open>C21: At any time the ordered queue has at most one drain task, the jobs it has finished are
  a prefix of the jobs pushed, and a job waits in the queue only while that task exists.\<close>

theorem ordered_queue_fifo:
  assumes "queue_reach s"
  shows "length (qs_workers s) \<le> 1 \<and> prefix (qs_finished s) (qs_pushed s)
    \<and> (oq_queue (qs_state s) \<noteq> [] \<longrightarrow> length (qs_workers s) = 1)"
  using queue_reach_inv [OF assms] oq.fifo [OF assms]
  by (auto simp: queue_inv_def split: if_splits)



lemma qs_work_pushed [simp]: "qs_pushed (qs_work w s) = qs_pushed s"
  by (auto simp: qs_work_def split: option.splits prod.splits)



definition busy_queue :: "nat queue_system" where
  "busy_queue = qs_push 8 (qs_work 0 (qs_push 7 qs_init))"

lemma busy_queue_reach: "queue_reach busy_queue"
  unfolding busy_queue_def
  by (intro queue_reach.intros) (simp add: qs_push_def qs_init_def oq_push_def oq_new_def)

theorem ordered_queue_fifo_witness:
  "queue_reach busy_queue \<and> qs_workers busy_queue = [Some 7] \<and> length (qs_workers busy_queue) \<le> 1"
  using ordered_queue_fifo [OF busy_queue_reach] busy_queue_reach
  by (simp add: busy_queue_def qs_push_def qs_init_def oq_push_def oq_new_def qs_work_def oq_pop_def)


end
