(* ===== verification/Float64.thy ===== *)
theory Float64
  imports Prelude
begin

text \<open>
  The part of IEEE 754 double arithmetic that the size estimate uses: conversion from an
  unsigned integer, multiplication, division and comparison of non-negative finite values. A
  value is the fraction (numerator, denominator) of naturals that it is exactly; \<open>f64_round\<close>
  rounds a fraction to 53 significant bits, to nearest with ties to even. The operands of the
  estimate lie between \<open>2 ^ -64\<close> and \<open>2 ^ 128\<close>, far inside the exponent range, so neither
  overflow nor subnormal numbers arise. Doubles that the code only passes on are their bits.
\<close>

type_synonym f64 = "nat \<times> nat"
type_synonym f64_bits = "64 word"

text \<open>Scaling by powers of two until the quotient has 53 bits; the exponent is returned too.\<close>

function scale_up :: "nat \<Rightarrow> nat \<Rightarrow> nat \<Rightarrow> nat \<times> nat" where
  "scale_up n d e = (if 0 < n \<and> n < 2 ^ 52 * d then scale_up (2 * n) d (Suc e) else (n, e))"
  by pat_completeness auto
termination
  by (relation "measure (\<lambda>(n, d, e). 2 ^ 52 * d - n)") auto

function scale_down :: "nat \<Rightarrow> nat \<Rightarrow> nat \<Rightarrow> nat \<times> nat" where
  "scale_down n d e = (if 0 < d \<and> 2 ^ 53 * d \<le> n then scale_down n (2 * d) (Suc e) else (d, e))"
  by pat_completeness auto
termination
  by (relation "measure (\<lambda>(n, d, e). Suc n - 2 ^ 53 * d)") auto

declare scale_up.simps [simp del] scale_down.simps [simp del]

definition nearest_even :: "nat \<Rightarrow> nat \<Rightarrow> nat" where
  "nearest_even n d =
     (let q = n div d; r = n mod d
      in if d < 2 * r \<or> (2 * r = d \<and> odd q) then Suc q else q)"

definition f64_round :: "f64 \<Rightarrow> f64" where
  "f64_round x =
     (case x of (n, d) \<Rightarrow>
       if n = 0 then (0, 1)
       else case scale_up n d 0 of (n', up) \<Rightarrow>
            case scale_down n' d 0 of (d', down) \<Rightarrow>
              (nearest_even n' d' * 2 ^ down, 2 ^ up))"

definition f64_of_nat :: "nat \<Rightarrow> f64" where
  "f64_of_nat n = f64_round (n, 1)"

definition f64_mul :: "f64 \<Rightarrow> f64 \<Rightarrow> f64" where
  "f64_mul x y = f64_round (fst x * fst y, snd x * snd y)"

definition f64_div :: "f64 \<Rightarrow> f64 \<Rightarrow> f64" where
  "f64_div x y = f64_round (fst x * snd y, snd x * fst y)"

definition f64_ge :: "f64 \<Rightarrow> f64 \<Rightarrow> bool" where
  "f64_ge x y \<longleftrightarrow> fst y * snd x \<le> fst x * snd y"

section \<open>Rounding\<close>

lemma scale_up_spec:
  "0 < n \<Longrightarrow> scale_up n d e = (n', e') \<Longrightarrow>
     e \<le> e' \<and> n' = n * 2 ^ (e' - e) \<and> 2 ^ 52 * d \<le> n' \<and> (e < e' \<longrightarrow> n' < 2 ^ 53 * d)"
proof (induction n d e arbitrary: n' e' rule: scale_up.induct)
  case (1 n d e)
  show ?case
  proof (cases "n < 2 ^ 52 * d")
    case False
    with "1.prems" show ?thesis by (simp add: scale_up.simps [of n d e])
  next
    case True
    with "1.prems" have eq: "scale_up (2 * n) d (Suc e) = (n', e')"
      by (simp add: scale_up.simps [of n d e])
    have "0 < n \<and> n < 2 ^ 52 * d" "0 < 2 * n" using True "1.prems"(1) by simp_all
    note IH = "1.IH" [OF this eq]
    have p2: "(2 :: nat) ^ (e' - e) = 2 * 2 ^ (e' - Suc e)"
      using IH by (metis Suc_diff_le diff_Suc_Suc power_Suc)
    with IH have "n' = n * 2 ^ (e' - e)" by (simp only: mult.assoc mult.left_commute)
    moreover have "e \<le> e'" "e' \<noteq> Suc e \<longrightarrow> Suc e < e'" using IH by auto
    moreover have "n' < 2 ^ 53 * d" if "e' = Suc e" using IH True that by simp
    ultimately show ?thesis using IH by blast
  qed
qed

lemma scale_down_spec:
  "0 < d \<Longrightarrow> scale_down n d e = (d', e') \<Longrightarrow>
     e \<le> e' \<and> d' = d * 2 ^ (e' - e) \<and> n < 2 ^ 53 * d' \<and> (e < e' \<longrightarrow> 2 ^ 52 * d' \<le> n)"
proof (induction n d e arbitrary: d' e' rule: scale_down.induct)
  case (1 n d e)
  show ?case
  proof (cases "2 ^ 53 * d \<le> n")
    case False
    with "1.prems" show ?thesis by (simp add: scale_down.simps [of n d e])
  next
    case True
    with "1.prems" have eq: "scale_down n (2 * d) (Suc e) = (d', e')"
      by (simp add: scale_down.simps [of n d e])
    have "0 < d \<and> 2 ^ 53 * d \<le> n" "0 < 2 * d" using True "1.prems"(1) by simp_all
    note IH = "1.IH" [OF this eq]
    have p2: "(2 :: nat) ^ (e' - e) = 2 * 2 ^ (e' - Suc e)"
      using IH by (metis Suc_diff_le diff_Suc_Suc power_Suc)
    with IH have "d' = d * 2 ^ (e' - e)" by (simp only: mult.assoc mult.left_commute)
    moreover have "e \<le> e'" "e' \<noteq> Suc e \<longrightarrow> Suc e < e'" using IH by auto
    moreover have "2 ^ 52 * d' \<le> n" if "e' = Suc e" using IH True that by simp
    ultimately show ?thesis using IH by blast
  qed
qed

lemma nearest_even_ge_div: "n div d \<le> nearest_even n d"
  by (simp add: nearest_even_def Let_def)

lemma nearest_even_exact: "0 < d \<Longrightarrow> nearest_even (q * d) d = q"
  by (simp add: nearest_even_def)

text \<open>Rounding never carries a value below a bound of at most 52 bits that it had reached.\<close>

lemma f64_round_ge:
  assumes "0 < d" "t < 2 ^ 52" "t * d \<le> n"
  shows "f64_ge (f64_round (n, d)) (t, 1)"
proof (cases "n = 0")
  case True
  with assms show ?thesis by (simp add: f64_round_def f64_ge_def)
next
  case False
  obtain n' up where up: "scale_up n d 0 = (n', up)" by (cases "scale_up n d 0")
  obtain d' down where down: "scale_down n' d 0 = (d', down)" by (cases "scale_down n' d 0")
  from scale_up_spec [OF _ up] False
  have u: "n' = n * 2 ^ up" "0 < up \<longrightarrow> n' < 2 ^ 53 * d" "2 ^ 52 * d \<le> n'" by auto
  from scale_down_spec [OF assms(1) down]
  have v: "d' = d * 2 ^ down" "0 < down \<longrightarrow> 2 ^ 52 * d' \<le> n'" by auto
  have d': "0 < d'" using v assms(1) by simp
  have "t * 2 ^ up \<le> nearest_even n' d' * 2 ^ down"
  proof (cases "down = 0")
    case True
    then have "t * 2 ^ up * d' \<le> n'"
      using assms(3) by (simp add: u v mult.commute mult.left_commute)
    then have "t * 2 ^ up \<le> n' div d'"
      using d' by (simp add: less_eq_div_iff_mult_less_eq)
    with nearest_even_ge_div [of n' d'] True show ?thesis by simp
  next
    case False
    then have "2 ^ 52 * d' \<le> n'" using v by simp
    then have q: "2 ^ 52 \<le> nearest_even n' d'"
      using d' nearest_even_ge_div [of n' d'] less_eq_div_iff_mult_less_eq [of d' "2 ^ 52" n']
      by linarith
    have "2 ^ 53 * d \<le> n'"
    proof (rule ccontr)
      assume "\<not> 2 ^ 53 * d \<le> n'"
      then have "scale_down n' d 0 = (d, 0)" by (simp add: scale_down.simps [of n' d 0])
      with down False show False by simp
    qed
    with u(2) have "up = 0" by auto
    moreover have "t * 1 \<le> nearest_even n' d' * 2 ^ down"
      using q assms(2) by (intro mult_le_mono) simp_all
    ultimately show ?thesis by simp
  qed
  then show ?thesis
    using False up down by (simp add: f64_round_def f64_ge_def)
qed

text \<open>Naturals of at most 52 bits are represented exactly.\<close>

lemma f64_of_nat_exact:
  assumes "n < 2 ^ 53"
  shows "\<exists>k. f64_of_nat n = (n * 2 ^ k, 2 ^ k)"
proof (cases "n = 0")
  case True
  then show ?thesis by (intro exI [of _ 0]) (simp add: f64_of_nat_def f64_round_def)
next
  case False
  obtain n' up where up: "scale_up n 1 0 = (n', up)" by (cases "scale_up n 1 0")
  from scale_up_spec [OF _ up] False
  have u: "n' = n * 2 ^ up" "0 < up \<longrightarrow> n' < 2 ^ 53" by auto
  then have "n' < 2 ^ 53" using assms by (cases "up = 0") auto
  then have "scale_down n' 1 0 = (1, 0)" by (simp add: scale_down.simps [of n' "Suc 0" 0])
  with False up u have "f64_of_nat n = (n * 2 ^ up, 2 ^ up)"
    using nearest_even_exact [of 1 n'] by (simp add: f64_of_nat_def f64_round_def)
  then show ?thesis ..
qed

text \<open>
  A fraction that is a natural below \<open>2 ^ 53\<close> is exact, so a quotient of such a product by an exact
  divisor is not rounded below a 52-bit bound that the exact quotient reaches.
\<close>

lemma f64_round_exact:
  assumes "n < 2 ^ 53" "0 < d"
  shows "\<exists>k. f64_round (n * d, d) = (n * 2 ^ k, 2 ^ k)"
proof (cases "n = 0")
  case True
  then show ?thesis by (intro exI [of _ 0]) (simp add: f64_round_def)
next
  case False
  obtain n' up where up: "scale_up (n * d) d 0 = (n', up)" by (cases "scale_up (n * d) d 0")
  from scale_up_spec [OF _ up] False assms(2)
  have u: "n' = n * d * 2 ^ up" "0 < up \<longrightarrow> n' < 2 ^ 53 * d" by auto
  have lt: "n' < 2 ^ 53 * d"
    using u assms by (cases "up = 0") auto
  then have "scale_down n' d 0 = (d, 0)" by (simp add: scale_down.simps [of n' d 0])
  moreover have "nearest_even n' d = n * 2 ^ up"
    using nearest_even_exact [OF assms(2), of "n * 2 ^ up"] by (simp add: u(1) ac_simps)
  ultimately have "f64_round (n * d, d) = (n * 2 ^ up, 2 ^ up)"
    using False up assms(2) by (simp add: f64_round_def)
  then show ?thesis ..
qed

lemma f64_product_exact:
  assumes "a < 2 ^ 53" "b < 2 ^ 53" "a * b < 2 ^ 53"
  shows "\<exists>k. f64_mul (f64_of_nat a) (f64_of_nat b) = (a * b * 2 ^ k, 2 ^ k)"
proof -
  obtain i j where "f64_of_nat a = (a * 2 ^ i, 2 ^ i)" "f64_of_nat b = (b * 2 ^ j, 2 ^ j)"
    using f64_of_nat_exact assms(1,2) by metis
  then have "f64_mul (f64_of_nat a) (f64_of_nat b) = f64_round (a * b * 2 ^ (i + j), 2 ^ (i + j))"
    by (simp add: f64_mul_def power_add ac_simps)
  with f64_round_exact [OF assms(3), of "2 ^ (i + j)"] show ?thesis by simp
qed

lemma f64_quotient_ge:
  assumes "a < 2 ^ 53" "b < 2 ^ 53" "c < 2 ^ 53" "a * b < 2 ^ 53" "0 < c" "t < 2 ^ 52" "t * c \<le> a * b"
  shows "f64_ge (f64_div (f64_mul (f64_of_nat a) (f64_of_nat b)) (f64_of_nat c)) (t, 1)"
proof -
  obtain m k where m: "f64_mul (f64_of_nat a) (f64_of_nat b) = (a * b * 2 ^ m, 2 ^ m)"
    and c: "f64_of_nat c = (c * 2 ^ k, 2 ^ k)"
    using f64_product_exact f64_of_nat_exact assms(1-4) by metis
  have "t * (2 ^ m * (c * 2 ^ k)) \<le> a * b * 2 ^ m * 2 ^ k"
    using mult_le_mono1 [OF assms(7), of "2 ^ m * 2 ^ k"] by (simp add: ac_simps)
  with f64_round_ge [of "2 ^ m * (c * 2 ^ k)" t "a * b * 2 ^ m * 2 ^ k"] assms(5,6)
  show ?thesis by (simp add: f64_div_def m c)
qed

lemma f64_quotient_exact:
  assumes "a < 2 ^ 53" "b < 2 ^ 53" "c < 2 ^ 53" "a * b < 2 ^ 53" "0 < c" "a * b = t * c"
  shows "\<exists>k. f64_div (f64_mul (f64_of_nat a) (f64_of_nat b)) (f64_of_nat c) = (t * 2 ^ k, 2 ^ k)"
proof -
  obtain m k where m: "f64_mul (f64_of_nat a) (f64_of_nat b) = (a * b * 2 ^ m, 2 ^ m)"
    and c: "f64_of_nat c = (c * 2 ^ k, 2 ^ k)"
    using f64_product_exact f64_of_nat_exact assms(1-4) by metis
  have "t \<le> t * c" using assms(5) by simp
  then have "t < 2 ^ 53" using assms(4,6) by linarith
  moreover have "f64_div (a * b * 2 ^ m, 2 ^ m) (c * 2 ^ k, 2 ^ k) =
      f64_round (t * (2 ^ m * (c * 2 ^ k)), 2 ^ m * (c * 2 ^ k))"
    by (simp add: f64_div_def assms(6) ac_simps)
  ultimately show ?thesis
    using f64_round_exact [of t "2 ^ m * (c * 2 ^ k)"] assms(5) by (simp add: m c)
qed

text \<open>
  Nor is a quotient of exact operands rounded up to a bound that it does not reach: the distance of
  \<open>a / c\<close> from a natural above it is at least \<open>1 / c\<close>, more than half a unit in the last place when
  \<open>a\<close> has at most 53 bits.
\<close>

lemma nearest_even_lt:
  assumes "0 < d" "n < q * d" "d < 2 * (q * d - n)"
  shows "nearest_even n d < q"
proof (cases "Suc (n div d) < q")
  case True
  then show ?thesis by (simp add: nearest_even_def Let_def)
next
  case False
  have "n div d < q" using assms(1,2) by (simp add: div_less_iff_less_mult)
  with False have q: "q = Suc (n div d)" by simp
  have "n = n div d * d + n mod d" by simp
  then have "q * d - n = d - n mod d" using q by (metis add_diff_cancel_left diff_diff_left mult_Suc add.commute)
  with assms have "2 * (n mod d) < d" by linarith
  with q show ?thesis by (simp add: nearest_even_def Let_def)
qed

lemma f64_round_lt:
  assumes "0 < p" "0 < c" "a < 2 ^ 53" "a < t * c"
  shows "\<not> f64_ge (f64_round (a * p, c * p)) (t, 1)"
proof (cases "a = 0")
  case True
  with assms show ?thesis by (cases t) (simp_all add: f64_round_def f64_ge_def)
next
  case False
  obtain n' up where up: "scale_up (a * p) (c * p) 0 = (n', up)" by (cases "scale_up (a * p) (c * p) 0")
  from scale_up_spec [OF _ up] False assms(1)
  have u: "n' = a * p * 2 ^ up" "0 < up \<longrightarrow> n' < 2 ^ 53 * (c * p)" "2 ^ 52 * (c * p) \<le> n'" by auto
  have "a < 2 ^ 53 * c" using assms(2,3) by (metis less_le_trans mult_le_mono2 mult.right_neutral Suc_leI One_nat_def)
  then have "a * p < 2 ^ 53 * (c * p)" using assms(1) by (simp add: mult.assoc [symmetric])
  then have "n' < 2 ^ 53 * (c * p)" using u(1,2) by (cases "up = 0") simp_all
  then have down: "scale_down n' (c * p) 0 = (c * p, 0)" by (simp add: scale_down.simps [of n' "c * p" 0])
  have "2 ^ 52 * c * p \<le> a * 2 ^ up * p" using u(1,3) by (simp add: ac_simps)
  then have "2 ^ 52 * c \<le> a * 2 ^ up" using assms(1) by simp
  also have "\<dots> < 2 ^ 53 * 2 ^ up" using assms(3) by simp
  finally have c: "c < 2 * 2 ^ up" by simp
  have "2 ^ up * p * Suc a \<le> 2 ^ up * p * (t * c)" using assms(4) by (intro mult_le_mono2) simp
  then have gap: "2 ^ up * p \<le> t * 2 ^ up * (c * p) - n'" "n' < t * 2 ^ up * (c * p)"
    using assms(1,4) unfolding u(1) by (simp_all add: algebra_simps)
  have "nearest_even n' (c * p) < t * 2 ^ up"
  proof (rule nearest_even_lt)
    have "c * p < 2 * (2 ^ up * p)" using c assms(1) by simp
    with gap(1) show "c * p < 2 * (t * 2 ^ up * (c * p) - n')" by linarith
  qed (use assms(1,2) gap(2) in simp_all)
  with False assms(1) up down show ?thesis by (simp add: f64_round_def f64_ge_def)
qed

lemma f64_quotient_lt:
  assumes "a < 2 ^ 53" "b < 2 ^ 53" "c < 2 ^ 53" "a * b < 2 ^ 53" "0 < c" "a * b < t * c"
  shows "\<not> f64_ge (f64_div (f64_mul (f64_of_nat a) (f64_of_nat b)) (f64_of_nat c)) (t, 1)"
proof -
  obtain m k where m: "f64_mul (f64_of_nat a) (f64_of_nat b) = (a * b * 2 ^ m, 2 ^ m)"
    and c: "f64_of_nat c = (c * 2 ^ k, 2 ^ k)"
    using f64_product_exact f64_of_nat_exact assms(1-4) by metis
  have "f64_div (a * b * 2 ^ m, 2 ^ m) (c * 2 ^ k, 2 ^ k) = f64_round (a * b * (2 ^ m * 2 ^ k), c * (2 ^ m * 2 ^ k))"
    by (simp add: f64_div_def ac_simps)
  with f64_round_lt [OF _ assms(5,4,6), of "2 ^ m * 2 ^ k"] show ?thesis by (simp add: m c)
qed

end
