(* ===== verification/Retry.thy ===== *)
theory Retry
  imports Bq_Error Float64
begin

text \<open>
  The retry configuration of the Storage Read API
  (\<open>crates/arrow-bigquery/src/bigquery_read_retry.rs\<close>): which errors are retried, and the
  policy objects of the gax crate that the code composes. Those objects are trait objects in the
  code and records of functions here; the combinators of gax that build them are an argument.
  Durations and instants are nanoseconds.
\<close>

section \<open>Policy objects\<close>

record retry_state =
  rs_idempotent :: bool
  rs_attempt_count :: u32
  rs_start :: nat

definition new_retry_state :: "nat \<Rightarrow> bool \<Rightarrow> retry_state" where
  "new_retry_state now idempotent =
     \<lparr>rs_idempotent = idempotent, rs_attempt_count = 0, rs_start = now\<rparr>"

datatype retry_result = Permanent gax_error | Exhausted gax_error | Continue gax_error
datatype throttle_result = ThrottleExhausted gax_error | ThrottleContinue gax_error

text \<open>A policy may read the clock, so each method also takes the present instant.\<close>

record retry_policy =
  rp_on_error :: "nat \<Rightarrow> retry_state \<Rightarrow> gax_error \<Rightarrow> retry_result"
  rp_on_throttle :: "nat \<Rightarrow> retry_state \<Rightarrow> gax_error \<Rightarrow> throttle_result"
  rp_remaining_time :: "nat \<Rightarrow> retry_state \<Rightarrow> nat option"

type_synonym backoff_policy = "retry_state \<Rightarrow> nat"

text \<open>What the code takes from gax: the default trait methods, the decorators, the backoff
  builder and the constructor of exhausted errors.\<close>

record gax =
  gx_default_on_throttle :: "nat \<Rightarrow> retry_state \<Rightarrow> gax_error \<Rightarrow> throttle_result"
  gx_default_remaining_time :: "nat \<Rightarrow> retry_state \<Rightarrow> nat option"
  gx_with_time_limit :: "retry_policy \<Rightarrow> nat \<Rightarrow> retry_policy"
  gx_with_attempt_limit :: "retry_policy \<Rightarrow> u32 \<Rightarrow> retry_policy"
  gx_exponential_backoff :: "nat \<Rightarrow> nat \<Rightarrow> f64_bits \<Rightarrow> (std_error, backoff_policy) res"
  gx_exhausted :: "gax_error \<Rightarrow> gax_error"

section \<open>Constants\<close>

definition INITIAL_DELAY :: nat where "INITIAL_DELAY = 100 * 10 ^ 6"
definition MAXIMUM_DELAY :: nat where "MAXIMUM_DELAY = 60 * 10 ^ 9"
definition SCALING_FACTOR :: f64_bits where "SCALING_FACTOR = 0x3FF4CCCCCCCCCCCD"
definition CREATE_READ_SESSION_TIMEOUT :: nat where "CREATE_READ_SESSION_TIMEOUT = 600 * 10 ^ 9"
definition STREAM_RECONNECT_MAX_ATTEMPTS :: u32 where "STREAM_RECONNECT_MAX_ATTEMPTS = 10"

section \<open>Which errors are retried\<close>

definition is_retryable_error :: "gax_error \<Rightarrow> bool \<Rightarrow> bool" where
  "is_retryable_error error idempotent =
     (if ge_transient_before_rpc error then True
      else if \<not> idempotent then False
      else if ge_io error \<or> ge_timeout error \<or> ge_connect error then True
      else if ge_transport error \<and> ge_http_status error = None then True
      else if (case ge_http_status error of
                 Some c \<Rightarrow> c = 429 \<or> c = 500 \<or> c = 502 \<or> c = 503 \<or> c = 504
               | None \<Rightarrow> False) then True
      else (case ge_status error of
              Some status \<Rightarrow>
                (case st_code status of
                   DeadlineExceeded \<Rightarrow> True
                 | Aborted \<Rightarrow> True
                 | ResourceExhausted \<Rightarrow> True
                 | Unavailable \<Rightarrow> True
                 | Internal \<Rightarrow> True
                 | _ \<Rightarrow> False)
            | None \<Rightarrow> False))"

definition retryable_errors_on_error :: "retry_state \<Rightarrow> gax_error \<Rightarrow> retry_result" where
  "retryable_errors_on_error st error =
     (if is_retryable_error error (rs_idempotent st) then Continue error else Permanent error)"

definition retryable_errors :: "gax \<Rightarrow> retry_policy" where
  "retryable_errors gx =
     \<lparr>rp_on_error = (\<lambda>now. retryable_errors_on_error),
      rp_on_throttle = gx_default_on_throttle gx,
      rp_remaining_time = gx_default_remaining_time gx\<rparr>"

section \<open>The configured policies\<close>

text \<open>\<open>expect\<close> panics when the builder refuses its arguments: None.\<close>

definition default_backoff_policy :: "gax \<Rightarrow> backoff_policy option" where
  "default_backoff_policy gx =
     (case gx_exponential_backoff gx INITIAL_DELAY MAXIMUM_DELAY SCALING_FACTOR of
        Inl _ \<Rightarrow> None | Inr b \<Rightarrow> Some b)"

definition create_read_session_retry_policy :: "gax \<Rightarrow> retry_policy" where
  "create_read_session_retry_policy gx =
     gx_with_time_limit gx (retryable_errors gx) CREATE_READ_SESSION_TIMEOUT"

definition stream_reconnect_retry_policy :: "gax \<Rightarrow> retry_policy" where
  "stream_reconnect_retry_policy gx =
     gx_with_attempt_limit gx (retryable_errors gx) STREAM_RECONNECT_MAX_ATTEMPTS"

text \<open>The throttler is a shared object with interior state; only its identity is stored.\<close>

record stream_retry_config =
  src_retry_policy :: retry_policy
  src_backoff_policy :: backoff_policy
  src_retry_throttler :: nat

definition stream_retry_config_new ::
  "gax \<Rightarrow> retry_policy option \<Rightarrow> backoff_policy option \<Rightarrow> nat \<Rightarrow> stream_retry_config option" where
  "stream_retry_config_new gx rp bp throttler =
     (case (case bp of Some b \<Rightarrow> Some b | None \<Rightarrow> default_backoff_policy gx) of
        None \<Rightarrow> None
      | Some b \<Rightarrow>
          Some \<lparr>src_retry_policy = (case rp of Some p \<Rightarrow> p | None \<Rightarrow> stream_reconnect_retry_policy gx),
                src_backoff_policy = b,
                src_retry_throttler = throttler\<rparr>)"

section \<open>What is retried\<close>

definition retryable_code :: "grpc_code \<Rightarrow> bool" where
  "retryable_code c \<longleftrightarrow> c \<in> {DeadlineExceeded, Aborted, ResourceExhausted, Unavailable, Internal}"

lemma is_retryable_error_iff:
  "is_retryable_error e idem \<longleftrightarrow>
     ge_transient_before_rpc e
     \<or> idem \<and> (ge_io e \<or> ge_timeout e \<or> ge_connect e
         \<or> ge_transport e \<and> ge_http_status e = None
         \<or> (\<exists>c \<in> {429, 500, 502, 503, 504}. ge_http_status e = Some c)
         \<or> (\<exists>s. ge_status e = Some s \<and> retryable_code (st_code s)))"
  by (auto simp: is_retryable_error_def retryable_code_def split: option.splits grpc_code.splits)

lemma retryable_errors_on_error_cases:
  "retryable_errors_on_error st e = Continue e \<and> is_retryable_error e (rs_idempotent st)
   \<or> retryable_errors_on_error st e = Permanent e \<and> \<not> is_retryable_error e (rs_idempotent st)"
  by (simp add: retryable_errors_on_error_def)

text \<open>Without idempotence only an error that occurred before the request was sent is
  retried; with it, exactly transport-level failures, the five HTTP codes and the five gRPC
  codes are retried as well, and every other error is permanent.\<close>

lemma retry_decision:
  "rp_on_error (retryable_errors gx) now st e =
     (if ge_transient_before_rpc e
         \<or> rs_idempotent st \<and> (ge_io e \<or> ge_timeout e \<or> ge_connect e
             \<or> ge_transport e \<and> ge_http_status e = None
             \<or> (\<exists>c \<in> {429, 500, 502, 503, 504}. ge_http_status e = Some c)
             \<or> (\<exists>s. ge_status e = Some s
                   \<and> st_code s \<in> {DeadlineExceeded, Aborted, ResourceExhausted, Unavailable, Internal}))
      then Continue e else Permanent e)"
  by (simp add: retryable_errors_def retryable_errors_on_error_def is_retryable_error_iff
      retryable_code_def)

text \<open>
  The attempt limit as gax documents it: once the count has reached the limit, the decorated
  policy does not continue.
\<close>

definition attempt_limited :: "retry_policy \<Rightarrow> nat \<Rightarrow> bool" where
  "attempt_limited p n \<longleftrightarrow>
     (\<forall>now st e e'. n \<le> unat (rs_attempt_count st) \<longrightarrow> rp_on_error p now st e \<noteq> Continue e')"

text \<open>A decorator with that behaviour, to evaluate the model with.\<close>

definition limit_attempts :: "retry_policy \<Rightarrow> u32 \<Rightarrow> retry_policy" where
  "limit_attempts p n = p\<lparr>rp_on_error := (\<lambda>now st e.
     case rp_on_error p now st e of
       Continue e' \<Rightarrow> if unat n \<le> unat (rs_attempt_count st) then Exhausted e' else Continue e'
     | r \<Rightarrow> r)\<rparr>"

lemma limit_attempts_limited: "attempt_limited (limit_attempts p n) (unat n)"
  by (auto simp: attempt_limited_def limit_attempts_def split: retry_result.splits if_splits)

definition gax_ref :: gax where
  "gax_ref =
     \<lparr>gx_default_on_throttle = (\<lambda>now st e. ThrottleContinue e),
      gx_default_remaining_time = (\<lambda>now st. None),
      gx_with_time_limit = (\<lambda>p limit. p\<lparr>rp_remaining_time :=
        (\<lambda>now st. Some (rs_start st + limit - now))\<rparr>),
      gx_with_attempt_limit = limit_attempts,
      gx_exponential_backoff = (\<lambda>initial maximum scaling.
        Inr (\<lambda>st. min maximum (initial * 2 ^ unat (rs_attempt_count st)))),
      gx_exhausted = (\<lambda>e. e)\<rparr>"

end
