(* ===== verification/Read_Stream.thy ===== *)
theory Read_Stream
  imports Decode Retry
begin

text \<open>
  One reader of a Storage Read API stream
  (\<open>crates/arrow-bigquery/src/bigquery_read_stream.rs\<close>): the reconnecting state machine, one
  total function per state of \<open>ReadStream::step\<close>, with the messages it sends and the jobs it
  queues as a list of effects. The invariants about whole runs are in \<open>Read_Stream_Proofs\<close>.
\<close>

section \<open>Requests and responses\<close>

datatype compression_codec =
    CompressionUnspecified | Lz4Frame | Zstd
  | UnknownCodecValue i32 | UnknownCodecName string

record read_rows_request =
  rr_read_stream :: string
  rr_offset :: i64
  rr_buffer_compression :: "compression_codec option"
  rr_quota_project :: "string option"
  rr_user_agent :: "string option"

datatype rows_payload = ArrowRecordBatch bytes | OtherRows
datatype schema_payload = ArrowSchema bytes | OtherSchema

record response =
  rsp_schema :: "schema_payload option"
  rsp_rows :: "rows_payload option"
  rsp_row_count :: i64
  rsp_total_estimated_row_count :: "i64 option"

text \<open>What an open response stream still yields, in order; after the last item it ends.\<close>

type_synonym item = "(gax_error, response) res"

datatype termination_reason = Finished | SwitchToReadSession

record first_page_check =
  fp_threshold_bytes :: f64
  fp_fallback_total_rows :: "u64 option"

definition estimate_remaining_bytes :: "bytes \<Rightarrow> u64 \<Rightarrow> u64 option \<Rightarrow> f64" where
  "estimate_remaining_bytes first_page_bytes page_row_count total_rows =
     (case total_rows of
        None \<Rightarrow> (0, 1)
      | Some total_rows \<Rightarrow>
          if page_row_count = 0 \<or> total_rows \<le> page_row_count then (0, 1)
          else let remaining_rows = f64_of_nat (unat (total_rows - page_row_count))
               in f64_div (f64_mul (f64_of_nat (length first_page_bytes)) remaining_rows)
                          (f64_of_nat (unat page_row_count)))"

definition extract_response_arrow_bytes :: "response \<Rightarrow> (bq_error, (bytes \<times> i64) option) res" where
  "extract_response_arrow_bytes response =
     (let row_count = rsp_row_count response
      in case rsp_rows response of
           Some OtherRows \<Rightarrow> Inl (Protocol ''Unexpectedly got some format other than arrow bytes'')
         | Some (ArrowRecordBatch value) \<Rightarrow>
             rbind (validate_non_empty_arrow_bytes (Some value) row_count)
               (\<lambda>b. Inr (map_option (\<lambda>bs. (bs, row_count)) b))
         | None \<Rightarrow>
             rbind (validate_non_empty_arrow_bytes None row_count)
               (\<lambda>b. Inr (map_option (\<lambda>bs. (bs, row_count)) b)))"

text \<open>One response to its first batch and the rows of it, as the tests of the module read one.\<close>

definition read_rows_response_to_record_batch ::
  "ipc \<Rightarrow> response \<Rightarrow> bytes \<Rightarrow> (bq_error, (record_batch \<times> i64) option) res" where
  "read_rows_response_to_record_batch ipc response schema =
     rbind (extract_response_arrow_bytes response) (\<lambda>payload.
     (case payload of
        None \<Rightarrow> Inr None
      | Some (serialized_record_batch, row_count) \<Rightarrow>
          rbind (parse_arrow_schema ipc schema) (\<lambda>metadata.
          rbind (decode_arrow_record_batches ipc serialized_record_batch row_count metadata) (\<lambda>batches.
            (case batches of
               [] \<Rightarrow> Inr None
             | batch # _ \<Rightarrow> Inr (Some (batch, rb_len batch)))))))"

section \<open>The reader\<close>

datatype read_state =
    Connecting i64 retry_state
  | Backoff i64 retry_state nat
  | Reading i64 "retry_state option" "item list"
  | Terminated termination_reason

text \<open>
  \<open>rd_schema_tx\<close> says whether the one-shot schema sender is still held. Channel, cancel flag and
  decode queue are shared objects: what the reader does to them is an effect.
\<close>

record reader =
  rd_read_rows :: read_rows_request
  rd_metadata :: "stream_metadata option"
  rd_schema_tx :: bool
  rd_first_page_check :: "first_page_check option"
  rd_state :: read_state

record reader_cfg =
  rc_ipc :: ipc
  rc_gax :: gax
  rc_retry :: stream_retry_config

datatype effect =
    Connect read_rows_request
  | ThrottlerSuccess
  | ThrottlerFailure retry_result
  | ThrottlerAsk bool
  | CancelAll
  | SendSchema "(bq_error, arrow_schema option) res"
  | SendError bq_error
  | PushJob decode_job

text \<open>
  What the surroundings answer during one step: the cancel flag when the step begins, whether
  cancellation wins the select, the server's answer to a request, the outcome of reserving a
  slot in the batch channel, the throttler's answer, and the clock.
\<close>

datatype reserve_outcome = ReserveCancelled | Reserved | ReserveClosed

record step_in =
  in_cancelled :: bool
  in_select_cancelled :: bool
  in_send :: "read_rows_request \<Rightarrow> (gax_error, item list) res"
  in_reserve :: reserve_outcome
  in_throttled :: bool
  in_now :: nat

definition new_reader ::
  "read_rows_request \<Rightarrow> i64 \<Rightarrow> stream_metadata option \<Rightarrow> bool \<Rightarrow> first_page_check option \<Rightarrow> nat \<Rightarrow> reader" where
  "new_reader read_rows current_offset metadata schema_tx check now =
     \<lparr>rd_read_rows = read_rows, rd_metadata = metadata, rd_schema_tx = schema_tx,
      rd_first_page_check = check,
      rd_state = Connecting current_offset (new_retry_state now True)\<rparr>"

definition send_fatal_error :: "bq_error \<Rightarrow> reader \<Rightarrow> reader \<times> effect list" where
  "send_fatal_error err r =
     (r\<lparr>rd_schema_tx := False\<rparr>,
      [CancelAll, if rd_schema_tx r then SendSchema (Inl err) else SendError err])"

text \<open>Several places send a fatal error and terminate.\<close>

definition fail_with :: "bq_error \<Rightarrow> reader \<Rightarrow> reader \<times> effect list" where
  "fail_with err r =
     (case send_fatal_error err r of (r', es) \<Rightarrow> (r'\<lparr>rd_state := Terminated Finished\<rparr>, es))"

definition handle_error ::
  "reader_cfg \<Rightarrow> step_in \<Rightarrow> i64 \<Rightarrow> retry_state \<Rightarrow> gax_error \<Rightarrow> reader \<Rightarrow> reader \<times> effect list" where
  "handle_error cfg i offset rs err r =
     (let policy = src_retry_policy (rc_retry cfg);
          rs = rs\<lparr>rs_attempt_count := rs_attempt_count rs + 1\<rparr>;
          flow = rp_on_error policy (in_now i) rs err;
          es = [ThrottlerFailure flow]
      in case flow of
           Permanent e \<Rightarrow> (case fail_with (Grpc e) r of (r', fs) \<Rightarrow> (r', es @ fs))
         | Exhausted e \<Rightarrow> (case fail_with (Grpc e) r of (r', fs) \<Rightarrow> (r', es @ fs))
         | Continue e \<Rightarrow>
             (let es = es @ [ThrottlerAsk (in_throttled i)];
                  rs = (if in_throttled i then rs\<lparr>rs_attempt_count := rs_attempt_count rs + 1\<rparr> else rs);
                  throttle = (if in_throttled i then rp_on_throttle policy (in_now i) rs e
                              else ThrottleContinue e)
              in case throttle of
                   ThrottleExhausted e' \<Rightarrow> (case fail_with (Grpc e') r of (r', fs) \<Rightarrow> (r', es @ fs))
                 | ThrottleContinue prev_err \<Rightarrow>
                     (let delay = src_backoff_policy (rc_retry cfg) rs
                      in if (case rp_remaining_time policy (in_now i) rs of
                               Some remaining \<Rightarrow> remaining \<le> delay | None \<Rightarrow> False)
                         then (case fail_with (Grpc (gx_exhausted (rc_gax cfg) prev_err)) r of
                                 (r', fs) \<Rightarrow> (r', es @ fs))
                         else (r\<lparr>rd_state := Backoff offset rs (in_now i + delay)\<rparr>, es))))"

section \<open>One step\<close>

definition step_connecting ::
  "reader_cfg \<Rightarrow> step_in \<Rightarrow> i64 \<Rightarrow> retry_state \<Rightarrow> reader \<Rightarrow> reader \<times> effect list" where
  "step_connecting cfg i offset rs r =
     (if in_select_cancelled i then (r\<lparr>rd_state := Terminated Finished\<rparr>, [])
      else let req = (rd_read_rows r)\<lparr>rr_offset := offset\<rparr>
           in case in_send i req of
                Inr stream \<Rightarrow> (r\<lparr>rd_state := Reading offset (Some rs) stream\<rparr>, [Connect req])
              | Inl err \<Rightarrow>
                  (case handle_error cfg i offset rs err r of (r', es) \<Rightarrow> (r', Connect req # es)))"

definition step_backoff ::
  "step_in \<Rightarrow> i64 \<Rightarrow> retry_state \<Rightarrow> reader \<Rightarrow> reader \<times> effect list" where
  "step_backoff i offset rs r =
     (if in_select_cancelled i then (r\<lparr>rd_state := Terminated Finished\<rparr>, [])
      else (r\<lparr>rd_state := Connecting offset rs\<rparr>, []))"

text \<open>The metadata for a response: known, extracted now, not there yet, or an error.\<close>

datatype metadata_outcome =
    MetaKnown stream_metadata
  | MetaExtracted stream_metadata
  | MetaHeartbeat
  | MetaError bq_error

definition response_metadata :: "ipc \<Rightarrow> stream_metadata option \<Rightarrow> response \<Rightarrow> metadata_outcome" where
  "response_metadata ipc metadata value =
     (case metadata of
        Some m \<Rightarrow> MetaKnown m
      | None \<Rightarrow>
          (case rsp_schema value of
             Some (ArrowSchema serialized_schema) \<Rightarrow>
               (case parse_arrow_schema ipc serialized_schema of
                  Inr parsed \<Rightarrow> MetaExtracted parsed
                | Inl err \<Rightarrow> MetaError err)
           | None \<Rightarrow>
               if rsp_rows value = None \<and> rsp_row_count value = 0 then MetaHeartbeat
               else MetaError (Protocol ''Unexpectedly got schema type other than arrow'')
           | Some OtherSchema \<Rightarrow>
               MetaError (Protocol ''Unexpectedly got schema type other than arrow'')))"

text \<open>The size check on the first page with rows: an error, a switch to a read session, or
  neither. The caller has already taken the check out of the reader.\<close>

datatype page_verdict = PageError bq_error | PageSwitch | PageKeep

definition check_first_page ::
  "first_page_check option \<Rightarrow> bytes \<Rightarrow> i64 \<Rightarrow> i64 option \<Rightarrow> page_verdict" where
  "check_first_page check serialized row_count total_estimated_row_count =
     (case check of
        None \<Rightarrow> PageKeep
      | Some c \<Rightarrow>
          (case u64_try_from row_count of
             None \<Rightarrow> PageError (Protocol (''Negative row_count in ReadRowsResponse: ''
                       @ show_int (sint row_count)))
           | Some page_row_count \<Rightarrow>
               (let rows = opt_or
                      (opt_filter (\<lambda>n. 0 < n) (Option.bind total_estimated_row_count u64_try_from))
                      (opt_filter (\<lambda>n. 0 < n) (fp_fallback_total_rows c))
                in if f64_ge (estimate_remaining_bytes serialized page_row_count rows)
                             (fp_threshold_bytes c)
                   then PageSwitch else PageKeep)))"

text \<open>A response whose metadata is known; \<open>stream\<close> is what follows it.\<close>

definition read_page ::
  "reader_cfg \<Rightarrow> step_in \<Rightarrow> i64 \<Rightarrow> retry_state option \<Rightarrow> item list \<Rightarrow> response \<Rightarrow> stream_metadata \<Rightarrow> reader
     \<Rightarrow> reader \<times> effect list" where
  "read_page cfg i offset rs stream value metadata r =
     (case extract_response_arrow_bytes value of
        Inl err \<Rightarrow> fail_with err r
      | Inr None \<Rightarrow> (r\<lparr>rd_state := Reading offset None stream\<rparr>, [ThrottlerSuccess])
      | Inr (Some (serialized, row_count)) \<Rightarrow>
          (let verdict = check_first_page (rd_first_page_check r) serialized row_count
                           (rsp_total_estimated_row_count value);
               r = r\<lparr>rd_first_page_check := None\<rparr>
           in case verdict of
                PageError err \<Rightarrow> fail_with err r
              | PageSwitch \<Rightarrow> (r\<lparr>rd_state := Terminated SwitchToReadSession\<rparr>, [])
              | PageKeep \<Rightarrow>
                  (case checked_add_i64 offset row_count of
                     None \<Rightarrow> fail_with (Protocol (''stream offset overflow: current_offset=''
                       @ show_int (sint offset) @ '', row_count='' @ show_int (sint row_count))) r
                   | Some next_offset \<Rightarrow>
                       (case in_reserve i of
                          Reserved \<Rightarrow>
                            (r\<lparr>rd_state := Reading next_offset None stream\<rparr>,
                             [ThrottlerSuccess,
                              PushJob \<lparr>dj_bytes = serialized, dj_expected_row_count = row_count,
                                       dj_metadata = metadata\<rparr>])
                        | _ \<Rightarrow> (r\<lparr>rd_state := Terminated Finished\<rparr>, [ThrottlerSuccess])))))"

definition read_response ::
  "reader_cfg \<Rightarrow> step_in \<Rightarrow> i64 \<Rightarrow> retry_state option \<Rightarrow> item list \<Rightarrow> response \<Rightarrow> reader
     \<Rightarrow> reader \<times> effect list" where
  "read_response cfg i offset rs stream value r =
     (case response_metadata (rc_ipc cfg) (rd_metadata r) value of
        MetaHeartbeat \<Rightarrow> (r\<lparr>rd_state := Reading offset None stream\<rparr>, [ThrottlerSuccess])
      | MetaError err \<Rightarrow> fail_with err r
      | MetaKnown m \<Rightarrow> read_page cfg i offset rs stream value m r
      | MetaExtracted m \<Rightarrow>
          (case read_page cfg i offset rs stream value m
                  (r\<lparr>rd_schema_tx := False, rd_metadata := Some m\<rparr>) of
             (r', es) \<Rightarrow>
               (r', (if rd_schema_tx r then [SendSchema (Inr (Some (md_schema m)))] else []) @ es)))"

definition step_reading ::
  "reader_cfg \<Rightarrow> step_in \<Rightarrow> i64 \<Rightarrow> retry_state option \<Rightarrow> item list \<Rightarrow> reader \<Rightarrow> reader \<times> effect list" where
  "step_reading cfg i offset rs stream r =
     (if in_select_cancelled i then (r\<lparr>rd_state := Terminated Finished\<rparr>, [])
      else case stream of
             Inr value # rest \<Rightarrow> read_response cfg i offset rs rest value r
           | Inl err # rest \<Rightarrow>
               handle_error cfg i offset (unwrap_or (new_retry_state (in_now i) True) rs) err r
           | [] \<Rightarrow>
               (r\<lparr>rd_schema_tx := False, rd_state := Terminated Finished\<rparr>,
                ThrottlerSuccess # (if rd_schema_tx r then [SendSchema (Inr None)] else [])))"

definition step :: "reader_cfg \<Rightarrow> step_in \<Rightarrow> reader \<Rightarrow> reader \<times> effect list" where
  "step cfg i r =
     (case rd_state r of
        Terminated _ \<Rightarrow> (r, [])
      | Connecting offset rs \<Rightarrow>
          if in_cancelled i then (r\<lparr>rd_state := Terminated Finished\<rparr>, [])
          else step_connecting cfg i offset rs r
      | Backoff offset rs deadline \<Rightarrow>
          if in_cancelled i then (r\<lparr>rd_state := Terminated Finished\<rparr>, [])
          else step_backoff i offset rs r
      | Reading offset rs stream \<Rightarrow>
          if in_cancelled i then (r\<lparr>rd_state := Terminated Finished\<rparr>, [])
          else step_reading cfg i offset rs stream r)"

section \<open>A run\<close>

text \<open>\<open>run\<close> steps until the state is terminated; None means that the inputs ran out first.\<close>

fun run :: "reader_cfg \<Rightarrow> step_in list \<Rightarrow> reader \<Rightarrow> reader \<times> effect list \<times> termination_reason option" where
  "run cfg [] r =
     (r, [], case rd_state r of Terminated reason \<Rightarrow> Some reason | _ \<Rightarrow> None)"
| "run cfg (i # is) r =
     (case rd_state r of
        Terminated reason \<Rightarrow> (r, [], Some reason)
      | _ \<Rightarrow> (case step cfg i r of (r', es) \<Rightarrow>
               (case run cfg is r' of (r'', es', res) \<Rightarrow> (r'', es @ es', res))))"

text \<open>The same run as a fold over inputs that collects the effects.\<close>

definition rd_step :: "reader_cfg \<Rightarrow> step_in \<Rightarrow> reader \<times> effect list \<Rightarrow> reader \<times> effect list" where
  "rd_step cfg i s = (case step cfg i (fst s) of (r', es) \<Rightarrow> (r', snd s @ es))"

section \<open>Reading a stream and the rest of a query\<close>

record read_stream_options =
  ro_read_rows :: read_rows_request
  ro_current_offset :: i64
  ro_metadata :: "stream_metadata option"
  ro_schema_tx :: bool
  ro_first_page_check :: "first_page_check option"
  ro_retry_config :: stream_retry_config
  ro_maintain_order :: bool

definition reader_of :: "read_stream_options \<Rightarrow> nat \<Rightarrow> reader" where
  "reader_of options now =
     new_reader (ro_read_rows options) (ro_current_offset options) (ro_metadata options)
       (ro_schema_tx options) (ro_first_page_check options) now"

definition read_stream ::
  "ipc \<Rightarrow> gax \<Rightarrow> step_in list \<Rightarrow> nat \<Rightarrow> read_stream_options \<Rightarrow> effect list \<times> termination_reason option" where
  "read_stream ipc gx is now options =
     (case run \<lparr>rc_ipc = ipc, rc_gax = gx, rc_retry = ro_retry_config options\<rparr> is
             (reader_of options now) of
        (r, es, reason) \<Rightarrow> (es, reason))"

record read_query_stream_options =
  qo_first_page_bytes :: bytes
  qo_page_row_count :: i64
  qo_read_rows :: "read_rows_request option"
  qo_metadata :: stream_metadata
  qo_retry_config :: stream_retry_config
  qo_maintain_order :: bool

text \<open>\<open>reserve\<close> is the outcome of reserving a slot for the first page. True means it returned.\<close>

definition read_query_stream ::
  "ipc \<Rightarrow> gax \<Rightarrow> reserve_outcome \<Rightarrow> step_in list \<Rightarrow> nat \<Rightarrow> read_query_stream_options
     \<Rightarrow> effect list \<times> bool" where
  "read_query_stream ipc gx reserve is now options =
     (case reserve of
        Reserved \<Rightarrow>
          (let first = PushJob \<lparr>dj_bytes = qo_first_page_bytes options,
                                dj_expected_row_count = qo_page_row_count options,
                                dj_metadata = qo_metadata options\<rparr>
           in case qo_read_rows options of
                None \<Rightarrow> ([first], True)
              | Some read_rows \<Rightarrow>
                  (case read_stream ipc gx is now
                          \<lparr>ro_read_rows = read_rows, ro_current_offset = qo_page_row_count options,
                           ro_metadata = Some (qo_metadata options), ro_schema_tx = False,
                           ro_first_page_check = None, ro_retry_config = qo_retry_config options,
                           ro_maintain_order = qo_maintain_order options\<rparr> of
                     (es, reason) \<Rightarrow> (first # es, reason \<noteq> None)))
      | _ \<Rightarrow> ([], True))"

end
