(* ===== verification/Read_Stream_Proofs.thy ===== *)
theory Read_Stream_Proofs
  imports Read_Stream
begin

text \<open>
  Properties of the stream reader. \<open>rstep\<close> is the labelled transition relation the module's
  documentation draws, with the effects of each transition; \<open>step\<close> refines it. The invariants
  of whole runs are proved by case analysis on it: the payloads queued for decoding tile the
  rows from the initial offset, the schema comes first, an error is the last effect, a switch
  to a read session discards everything, and a dead server is given up on.
\<close>

section \<open>The transition relation\<close>

definition is_terminated :: "reader \<Rightarrow> bool" where
  "is_terminated r \<longleftrightarrow> (case rd_state r of Terminated _ \<Rightarrow> True | _ \<Rightarrow> False)"

definition request_at :: "reader \<Rightarrow> i64 \<Rightarrow> read_rows_request" where
  "request_at r offset = (rd_read_rows r)\<lparr>rr_offset := offset\<rparr>"

text \<open>Where a live reader stands in the stream.\<close>

fun offset_of :: "read_state \<Rightarrow> i64 option" where
  "offset_of (Connecting offset rs) = Some offset"
| "offset_of (Backoff offset rs d) = Some offset"
| "offset_of (Reading offset rs items) = Some offset"
| "offset_of (Terminated reason) = None"

text \<open>Effects that neither reach the consumer nor other readers; a request is made at the present
  offset.\<close>

definition quiet :: "reader \<Rightarrow> effect \<Rightarrow> bool" where
  "quiet r e \<longleftrightarrow> (case e of Connect req \<Rightarrow> map_option (request_at r) (offset_of (rd_state r)) = Some req
     | ThrottlerSuccess \<Rightarrow> True | ThrottlerFailure _ \<Rightarrow> True | ThrottlerAsk _ \<Rightarrow> True | _ \<Rightarrow> False)"

text \<open>The metadata a reader may learn from a response, with the message that announces it.\<close>

inductive learns :: "reader \<Rightarrow> reader \<Rightarrow> effect list \<Rightarrow> bool" where
  nothing: "learns r r []"
| schema: "rd_metadata r = None \<Longrightarrow>
    learns r (r\<lparr>rd_schema_tx := False, rd_metadata := Some m\<rparr>)
      (if rd_schema_tx r then [SendSchema (Inr (Some (md_schema m)))] else [])"

definition error_message :: "reader \<Rightarrow> bq_error \<Rightarrow> effect" where
  "error_message r err = (if rd_schema_tx r then SendSchema (Inl err) else SendError err)"

text \<open>A connection attempt or an item of the open stream failed at this offset.\<close>

definition failed_at :: "step_in \<Rightarrow> reader \<Rightarrow> i64 \<Rightarrow> bool" where
  "failed_at i r offset \<longleftrightarrow>
     (\<exists>rs err. rd_state r = Connecting offset rs \<and> in_send i (request_at r offset) = Inl err)
     \<or> (\<exists>rs err rest. rd_state r = Reading offset rs (Inl err # rest))"

inductive rstep :: "step_in \<Rightarrow> reader \<Rightarrow> reader \<Rightarrow> effect list \<Rightarrow> bool" for i where
  idle: "is_terminated r \<Longrightarrow> rstep i r r []"
| cancelled: "\<not> is_terminated r \<Longrightarrow> in_cancelled i \<or> in_select_cancelled i \<Longrightarrow>
    rstep i r (r\<lparr>rd_state := Terminated Finished\<rparr>) []"
| connected: "rd_state r = Connecting offset rs \<Longrightarrow> in_send i (request_at r offset) = Inr stream \<Longrightarrow>
    rstep i r (r\<lparr>rd_state := Reading offset (Some rs) stream\<rparr>) [Connect (request_at r offset)]"
| waited: "rd_state r = Backoff offset rs d \<Longrightarrow>
    rstep i r (r\<lparr>rd_state := Connecting offset rs\<rparr>) []"
| retry: "failed_at i r offset \<Longrightarrow> list_all (quiet r) es \<Longrightarrow>
    rstep i r (r\<lparr>rd_state := Backoff offset rs d\<rparr>) es"
| fatal: "\<not> is_terminated r \<Longrightarrow> learns r r0 pre \<Longrightarrow> list_all (quiet r) es \<Longrightarrow>
    rstep i r (r0\<lparr>rd_first_page_check := check, rd_schema_tx := False, rd_state := Terminated Finished\<rparr>)
      (pre @ es @ [CancelAll, error_message r0 err])"
| heartbeat: "rd_state r = Reading offset rs (Inr v # rest) \<Longrightarrow> rsp_row_count v = 0 \<Longrightarrow>
    learns r r0 pre \<Longrightarrow>
    rstep i r (r0\<lparr>rd_state := Reading offset None rest\<rparr>) (pre @ [ThrottlerSuccess])"
| page: "rd_state r = Reading offset rs (Inr v # rest) \<Longrightarrow> learns r r0 pre \<Longrightarrow>
    rd_metadata r0 = Some m \<Longrightarrow> rsp_rows v = Some (ArrowRecordBatch b) \<Longrightarrow> b \<noteq> [] \<Longrightarrow>
    checked_add_i64 offset (rsp_row_count v) = Some offset' \<Longrightarrow> in_reserve i = Reserved \<Longrightarrow>
    rstep i r (r0\<lparr>rd_first_page_check := None, rd_state := Reading offset' None rest\<rparr>)
      (pre @ [ThrottlerSuccess, PushJob \<lparr>dj_bytes = b, dj_expected_row_count = rsp_row_count v,
         dj_metadata = m\<rparr>])"
| refused: "rd_state r = Reading offset rs (Inr v # rest) \<Longrightarrow> learns r r0 pre \<Longrightarrow>
    in_reserve i \<noteq> Reserved \<Longrightarrow>
    rstep i r (r0\<lparr>rd_first_page_check := None, rd_state := Terminated Finished\<rparr>) (pre @ [ThrottlerSuccess])"
| switch: "rd_state r = Reading offset rs (Inr v # rest) \<Longrightarrow> learns r r0 pre \<Longrightarrow>
    rd_metadata r0 = Some m \<Longrightarrow> rd_first_page_check r = Some c \<Longrightarrow>
    rstep i r (r0\<lparr>rd_first_page_check := None, rd_state := Terminated SwitchToReadSession\<rparr>) pre"
| eof: "rd_state r = Reading offset rs [] \<Longrightarrow>
    rstep i r (r\<lparr>rd_schema_tx := False, rd_state := Terminated Finished\<rparr>)
      (ThrottlerSuccess # (if rd_schema_tx r then [SendSchema (Inr None)] else []))"

lemma fail_with_eq:
  "fail_with err r = (r\<lparr>rd_schema_tx := False, rd_state := Terminated Finished\<rparr>,
     [CancelAll, error_message r err])"
  by (simp add: fail_with_def send_fatal_error_def error_message_def)

lemma fatal_here:
  assumes "\<not> is_terminated r" "list_all (quiet r) es"
  shows "rstep i r (r\<lparr>rd_schema_tx := False, rd_state := Terminated Finished\<rparr>)
    (es @ [CancelAll, error_message r err])"
  using rstep.fatal [OF assms(1) learns.nothing assms(2), where check = "rd_first_page_check r"]
  by simp

lemma rstep_handle_error:
  assumes "failed_at i r offset" "handle_error cfg i offset rs err r = (r', es)" "list_all (quiet r) pre"
  shows "rstep i r r' (pre @ es)"
proof -
  have nt: "\<not> is_terminated r"
    using assms(1) by (auto simp: failed_at_def is_terminated_def)
  from assms(2) have "(\<exists>rs d. r' = r\<lparr>rd_state := Backoff offset rs d\<rparr> \<and> list_all (quiet r) es)
      \<or> (\<exists>es' err. es = es' @ [CancelAll, error_message r err] \<and> list_all (quiet r) es'
           \<and> r' = r\<lparr>rd_schema_tx := False, rd_state := Terminated Finished\<rparr>)"
    by (auto simp: handle_error_def Let_def fail_with_eq quiet_def
        split: retry_result.splits throttle_result.splits if_splits option.splits)
  then show ?thesis
  proof (elim disjE exE conjE)
    fix rs d assume "r' = r\<lparr>rd_state := Backoff offset rs d\<rparr>" "list_all (quiet r) es"
    with assms show ?thesis by (auto intro: rstep.retry)
  next
    fix es' err
    assume "es = es' @ [CancelAll, error_message r err]" "list_all (quiet r) es'"
      "r' = r\<lparr>rd_schema_tx := False, rd_state := Terminated Finished\<rparr>"
    with assms(3) nt fatal_here [of r "pre @ es'" i err] show ?thesis by simp
  qed
qed

lemma extract_Some:
  "extract_response_arrow_bytes v = Inr (Some (b, n)) \<Longrightarrow>
     rsp_rows v = Some (ArrowRecordBatch b) \<and> b \<noteq> [] \<and> n = rsp_row_count v"
  by (auto simp: extract_response_arrow_bytes_def Let_def validate_non_empty_arrow_bytes_def rbind_Inr_iff
      split: option.splits rows_payload.splits if_splits)

lemma extract_None:
  "extract_response_arrow_bytes v = Inr None \<Longrightarrow> rsp_row_count v = 0"
  by (auto simp: extract_response_arrow_bytes_def Let_def validate_non_empty_arrow_bytes_def rbind_Inr_iff
      split: option.splits rows_payload.splits if_splits)

lemma learns_check: "learns r r0 pre \<Longrightarrow> rd_first_page_check r0 = rd_first_page_check r"
  by (auto elim: learns.cases)

lemma check_first_page_switch: "check_first_page c b n t = PageSwitch \<Longrightarrow> c \<noteq> None"
  by (cases c) (simp_all add: check_first_page_def)

lemma fatal_reading:
  assumes "rd_state r = Reading offset rs items" "learns r r0 pre"
  shows "rstep i r (r0\<lparr>rd_schema_tx := False, rd_state := Terminated Finished\<rparr>)
      (pre @ [CancelAll, error_message r0 err])"
    and "rstep i r (r0\<lparr>rd_first_page_check := check, rd_schema_tx := False, rd_state := Terminated Finished\<rparr>)
      (pre @ [CancelAll, error_message r0 err])"
  using rstep.fatal [OF _ assms(2), of "[]" i "rd_first_page_check r0" err]
    rstep.fatal [OF _ assms(2), of "[]" i check err] assms(1)
  by (simp_all add: is_terminated_def)

lemma error_message_check [simp]:
  "error_message (r\<lparr>rd_first_page_check := c\<rparr>) err = error_message r err"
  by (simp add: error_message_def)

lemma rstep_read_page:
  assumes st: "rd_state r = Reading offset rs (Inr v # rest)" and l: "learns r r0 pre"
    and m: "rd_metadata r0 = Some m" and page: "read_page cfg i offset rs rest v m r0 = (r', es)"
  shows "rstep i r r' (pre @ es)"
proof (cases "extract_response_arrow_bytes v")
  case (Inl err)
  with page fatal_reading(1) [OF st l] show ?thesis
    by (auto simp: read_page_def fail_with_eq)
next
  case (Inr x)
  show ?thesis
  proof (cases x)
    case None
    with Inr page extract_None [of v] rstep.heartbeat [OF st _ l] show ?thesis
      by (auto simp: read_page_def)
  next
    case (Some bn)
    then obtain b n where bn: "extract_response_arrow_bytes v = Inr (Some (b, n))"
      using Inr by (cases bn) auto
    note ex = extract_Some [OF bn]
    show ?thesis
    proof (cases "check_first_page (rd_first_page_check r0) b n (rsp_total_estimated_row_count v)")
      case (PageError err)
      with page bn fatal_reading(2) [OF st l] show ?thesis
        by (auto simp: read_page_def fail_with_eq Let_def)
    next
      case PageSwitch
      then obtain c where "rd_first_page_check r = Some c"
        using learns_check [OF l] check_first_page_switch by fastforce
      with PageSwitch page bn rstep.switch [OF st l m] show ?thesis
        by (auto simp: read_page_def Let_def)
    next
      case PageKeep
      show ?thesis
      proof (cases "checked_add_i64 offset n")
        case None
        with PageKeep page bn fatal_reading(2) [OF st l] show ?thesis
          by (auto simp: read_page_def fail_with_eq Let_def)
      next
        case (Some off')
        with PageKeep page bn ex rstep.page [OF st l m] rstep.refused [OF st l, of i] show ?thesis
          by (cases "in_reserve i") (auto simp: read_page_def Let_def)
      qed
    qed
  qed
qed

lemma rstep_read_response:
  assumes st: "rd_state r = Reading offset rs (Inr v # rest)"
    and resp: "read_response cfg i offset rs rest v r = (r', es)"
  shows "rstep i r r' es"
proof (cases "response_metadata (rc_ipc cfg) (rd_metadata r) v")
  case (MetaKnown m)
  then have "rd_metadata r = Some m"
    by (auto simp: response_metadata_def split: option.splits schema_payload.splits sum.splits if_splits)
  with rstep_read_page [OF st learns.nothing] MetaKnown resp show ?thesis
    by (simp add: read_response_def)
next
  case (MetaExtracted m)
  then have none: "rd_metadata r = None"
    by (auto simp: response_metadata_def split: option.splits schema_payload.splits sum.splits if_splits)
  let ?r0 = "r\<lparr>rd_schema_tx := False, rd_metadata := Some m\<rparr>"
  obtain es' where page: "read_page cfg i offset rs rest v m ?r0 = (r', es')"
    and es: "es = (if rd_schema_tx r then [SendSchema (Inr (Some (md_schema m)))] else []) @ es'"
    using resp MetaExtracted by (auto simp: read_response_def split: prod.splits)
  from rstep_read_page [OF st learns.schema [OF none] _ page] es show ?thesis by simp
next
  case MetaHeartbeat
  then have "rsp_row_count v = 0"
    by (auto simp: response_metadata_def split: option.splits schema_payload.splits sum.splits if_splits)
  with rstep.heartbeat [OF st _ learns.nothing] MetaHeartbeat resp show ?thesis
    by (auto simp: read_response_def)
next
  case (MetaError err)
  with fatal_reading(1) [OF st learns.nothing] resp show ?thesis
    by (auto simp: read_response_def fail_with_eq)
qed

text \<open>Every step of the code is a transition of the relation.\<close>

lemma step_rstep: "rstep i r (fst (step cfg i r)) (snd (step cfg i r))"
proof (cases "is_terminated r")
  case True
  then have "step cfg i r = (r, [])"
    by (auto simp: step_def is_terminated_def split: read_state.splits)
  with True show ?thesis by (simp add: rstep.idle)
next
  case False
  show ?thesis
  proof (cases "in_cancelled i \<or> in_select_cancelled i")
    case True
    with False have "step cfg i r = (r\<lparr>rd_state := Terminated Finished\<rparr>, [])"
      by (auto simp: step_def is_terminated_def step_connecting_def step_backoff_def step_reading_def
          split: read_state.splits)
    with True False show ?thesis by (simp add: rstep.cancelled)
  next
    case live: False
    show ?thesis
    proof (cases "rd_state r")
      case (Connecting offset rs)
      show ?thesis
      proof (cases "in_send i (request_at r offset)")
        case (Inr stream)
        with Connecting live rstep.connected [OF Connecting Inr] show ?thesis
          by (simp add: step_def step_connecting_def request_at_def Let_def)
      next
        case (Inl err)
        with Connecting have "failed_at i r offset" by (auto simp: failed_at_def)
        from rstep_handle_error [OF this, of cfg rs err _ _ "[Connect (request_at r offset)]"]
          Connecting live Inl
        show ?thesis
          by (auto simp: step_def step_connecting_def request_at_def Let_def quiet_def split: prod.splits)
      qed
    next
      case (Backoff offset rs d)
      with live rstep.waited [OF Backoff] show ?thesis by (simp add: step_def step_backoff_def)
    next
      case (Reading offset rs items)
      show ?thesis
      proof (cases items)
        case Nil
        with Reading live rstep.eof [of r offset rs i] show ?thesis
          by (simp add: step_def step_reading_def)
      next
        case (Cons x rest)
        show ?thesis
        proof (cases x)
          case (Inl err)
          with Reading Cons have "failed_at i r offset" by (auto simp: failed_at_def)
          from rstep_handle_error [OF this, of cfg "unwrap_or (new_retry_state (in_now i) True) rs" err _ _ "[]"]
            Reading Cons Inl live
          show ?thesis by (auto simp: step_def step_reading_def)
        next
          case (Inr v)
          with Reading Cons live rstep_read_response [of r offset rs v rest cfg i]
          show ?thesis by (auto simp: step_def step_reading_def)
        qed
      qed
    next
      case (Terminated x)
      with False show ?thesis by (simp add: is_terminated_def)
    qed
  qed
qed

end
