(* ===== verification/Read_Stream_Scenario.thy ===== *)
theory Read_Stream_Scenario
  imports Read_Stream
begin

text \<open>
  Concrete runs of the stream reader, evaluated step by step: a stream of three rows that fails
  after the first page and is resumed, and a run that switches to a read session. The properties
  of runs are applied to them.
\<close>

section \<open>A server with three rows that fails once\<close>

text \<open>Each byte of a payload is one row, in a batch of its own.\<close>

definition row_batch :: "8 word \<Rightarrow> record_batch" where
  "row_batch b = \<lparr>rb_len = 1, rb_schema = [Field ''col1'' Int64Type False],
     rb_arrays = [Int64Array [Some (ucast b)]]\<rparr>"

definition row_ipc :: ipc where
  "row_ipc =
     \<lparr>ipc_read_metadata = (\<lambda>bs. Inr \<lparr>md_schema = [Field ''col1'' Int64Type False], md_ipc = bs\<rparr>),
      ipc_stream = (\<lambda>bs md. map (\<lambda>b. Inr (Some_batch (row_batch b))) bs)\<rparr>"

definition batch_rows :: "record_batch \<Rightarrow> i64 list" where
  "batch_rows b = concat (map (\<lambda>c. case c of Int64Array xs \<Rightarrow> map (unwrap_or 0) xs | _ \<Rightarrow> []) (rb_arrays b))"

definition three_rows :: "i64 list" where "three_rows = [0, 1, 2]"

definition row_slice :: "int \<Rightarrow> int \<Rightarrow> bytes" where
  "row_slice a b = map (\<lambda>n. of_nat n) [nat a..<nat b]"

definition row_metadata :: stream_metadata where
  "row_metadata = \<lparr>md_schema = [Field ''col1'' Int64Type False], md_ipc = [1]\<rparr>"

definition page_response :: "nat \<Rightarrow> nat \<Rightarrow> response" where
  "page_response a b =
     \<lparr>rsp_schema = (if a = 0 then Some (ArrowSchema [1]) else None),
      rsp_rows = Some (ArrowRecordBatch (row_slice (int a) (int b))),
      rsp_row_count = of_nat (b - a), rsp_total_estimated_row_count = Some 3\<rparr>"

definition lost_connection :: gax_error where
  "lost_connection =
     \<lparr>ge_transient_before_rpc = False, ge_io = True, ge_timeout = False, ge_connect = False,
      ge_transport = False, ge_http_status = None, ge_status = None,
      ge_std = StdError ''connection reset'' None None\<rparr>"

definition flaky_send :: "read_rows_request \<Rightarrow> (gax_error, item list) res" where
  "flaky_send req =
     (if rr_offset req = 0 then Inr [Inr (page_response 0 1), Inl lost_connection]
      else if rr_offset req = 1 then Inr [Inr (page_response 1 3)]
      else Inl lost_connection)"

definition flaky_in :: step_in where
  "flaky_in = \<lparr>in_cancelled = False, in_select_cancelled = False, in_send = flaky_send,
     in_reserve = Reserved, in_throttled = False, in_now = 0\<rparr>"

definition rows_request :: read_rows_request where
  "rows_request = \<lparr>rr_read_stream = ''s'', rr_offset = 0, rr_buffer_compression = None,
     rr_quota_project = None, rr_user_agent = None\<rparr>"

definition plain_backoff :: backoff_policy where
  "plain_backoff st = min MAXIMUM_DELAY (INITIAL_DELAY * 2 ^ unat (rs_attempt_count st))"

definition flaky_cfg :: reader_cfg where
  "flaky_cfg = \<lparr>rc_ipc = row_ipc, rc_gax = gax_ref,
     rc_retry = \<lparr>src_retry_policy = stream_reconnect_retry_policy gax_ref,
                 src_backoff_policy = plain_backoff, src_retry_throttler = 0\<rparr>\<rparr>"

lemma flaky_cfg_is_default:
  "stream_retry_config_new gax_ref None None 0 = Some (rc_retry flaky_cfg)"
  by (simp add: stream_retry_config_new_def default_backoff_policy_def gax_ref_def flaky_cfg_def
      stream_reconnect_retry_policy_def plain_backoff_def fun_eq_iff)

definition row_job :: "nat \<Rightarrow> nat \<Rightarrow> decode_job" where
  "row_job a b = \<lparr>dj_bytes = row_slice (int a) (int b), dj_expected_row_count = of_nat (b - a),
     dj_metadata = row_metadata\<rparr>"

definition flaky_effects :: "effect list" where
  "flaky_effects =
     [Connect rows_request, ThrottlerSuccess, PushJob (row_job 0 1),
      ThrottlerFailure (Continue lost_connection), ThrottlerAsk False,
      Connect (rows_request\<lparr>rr_offset := 1\<rparr>), ThrottlerSuccess, PushJob (row_job 1 3),
      ThrottlerSuccess]"

lemma row_slices: "row_slice 0 1 = [0]" "row_slice 1 3 = [1, 2]"
  by (simp_all add: row_slice_def numeral_eq_Suc)

lemma replicate_7: "replicate 7 x = [x, x, x, x, x, x, x]"
  by (simp add: numeral_eq_Suc)

lemmas scenario_defs =
  step_def step_connecting_def step_backoff_def step_reading_def read_response_def read_page_def
  response_metadata_def check_first_page_def extract_response_arrow_bytes_def
  validate_non_empty_arrow_bytes_def handle_error_def fail_with_def send_fatal_error_def
  parse_arrow_schema_def new_reader_def new_retry_state_def checked_add_i64_def

lemmas flaky_defs =
  flaky_in_def flaky_send_def flaky_cfg_def page_response_def row_slices row_job_def
  row_metadata_def row_ipc_def rows_request_def lost_connection_def gax_ref_def
  stream_reconnect_retry_policy_def limit_attempts_def retryable_errors_def
  retryable_errors_on_error_def is_retryable_error_def STREAM_RECONNECT_MAX_ATTEMPTS_def

definition flaky_at :: "read_state \<Rightarrow> reader" where
  "flaky_at st = (new_reader rows_request 0 (Some row_metadata) False None 0)\<lparr>rd_state := st\<rparr>"

definition attempts :: "u32 \<Rightarrow> retry_state" where
  "attempts n = \<lparr>rs_idempotent = True, rs_attempt_count = n, rs_start = 0\<rparr>"

lemma flaky_steps:
  "step flaky_cfg flaky_in (flaky_at (Connecting 0 (attempts 0))) =
     (flaky_at (Reading 0 (Some (attempts 0)) [Inr (page_response 0 1), Inl lost_connection]),
      [Connect rows_request])"
  "step flaky_cfg flaky_in (flaky_at (Reading 0 rs [Inr (page_response 0 1), Inl lost_connection])) =
     (flaky_at (Reading 1 None [Inl lost_connection]), [ThrottlerSuccess, PushJob (row_job 0 1)])"
  "step flaky_cfg flaky_in (flaky_at (Reading 1 None [Inl lost_connection])) =
     (flaky_at (Backoff 1 (attempts 1) (plain_backoff (attempts 1))),
      [ThrottlerFailure (Continue lost_connection), ThrottlerAsk False])"
  "step flaky_cfg flaky_in (flaky_at (Backoff 1 (attempts 1) d)) =
     (flaky_at (Connecting 1 (attempts 1)), [])"
  "step flaky_cfg flaky_in (flaky_at (Connecting 1 (attempts 1))) =
     (flaky_at (Reading 1 (Some (attempts 1)) [Inr (page_response 1 3)]),
      [Connect (rows_request\<lparr>rr_offset := 1\<rparr>)])"
  "step flaky_cfg flaky_in (flaky_at (Reading 1 rs [Inr (page_response 1 3)])) =
     (flaky_at (Reading 3 None []), [ThrottlerSuccess, PushJob (row_job 1 3)])"
  "step flaky_cfg flaky_in (flaky_at (Reading 3 None [])) =
     (flaky_at (Terminated Finished), [ThrottlerSuccess])"
  by (simp_all add: flaky_at_def attempts_def scenario_defs flaky_defs Let_def)

lemma flaky_states [simp]: "rd_state (flaky_at st) = st"
  by (simp add: flaky_at_def)

lemma flaky_start:
  "new_reader rows_request 0 (Some row_metadata) False None 0 = flaky_at (Connecting 0 (attempts 0))"
  by (simp add: flaky_at_def attempts_def new_reader_def new_retry_state_def)

lemma flaky_run:
  "run flaky_cfg (replicate 7 flaky_in) (new_reader rows_request 0 (Some row_metadata) False None 0)
     = (flaky_at (Terminated Finished), flaky_effects, Some Finished)"
  by (simp add: replicate_7 flaky_start flaky_steps flaky_effects_def del: One_nat_def)

section \<open>A switch, a schema learned, a fatal error\<close>

definition tiny_check :: first_page_check where
  "tiny_check = \<lparr>fp_threshold_bytes = (2, 1), fp_fallback_total_rows = None\<rparr>"

text \<open>
  While all quantities and the product are below \<open>2 ^ 53\<close>, the rounded estimate reaches a natural
  threshold exactly when the quotient does.
\<close>

lemma estimate_exact:
  assumes "0 < unat n" "unat n < unat all_rows" "t < 2 ^ 52"
    and "length bs < 2 ^ 53" "unat all_rows < 2 ^ 53" "length bs * (unat all_rows - unat n) < 2 ^ 53"
  shows "f64_ge (estimate_remaining_bytes bs n (Some all_rows)) (t, 1)
     \<longleftrightarrow> t * unat n \<le> length bs * (unat all_rows - unat n)"
proof -
  have "n \<noteq> 0" "\<not> all_rows \<le> n" using assms(1,2) by (auto simp: word_le_nat_alt)
  moreover have rest: "unat (all_rows - n) = unat all_rows - unat n"
    using assms(2) by (simp add: unat_sub word_le_nat_alt)
  ultimately have "estimate_remaining_bytes bs n (Some all_rows) =
      f64_div (f64_mul (f64_of_nat (length bs)) (f64_of_nat (unat all_rows - unat n))) (f64_of_nat (unat n))"
    by (simp add: estimate_remaining_bytes_def Let_def)
  with assms f64_quotient_ge [of "length bs" "unat all_rows - unat n" "unat n" t]
    f64_quotient_lt [of "length bs" "unat all_rows - unat n" "unat n" t]
  show ?thesis by (cases "t * unat n \<le> length bs * (unat all_rows - unat n)") simp_all
qed

lemma estimate_reaches:
  assumes "0 < unat n" "unat n < unat all_rows" "t < 2 ^ 52"
    and "length bs < 2 ^ 53" "unat all_rows < 2 ^ 53" "length bs * (unat all_rows - unat n) < 2 ^ 53"
    and "t * unat n \<le> length bs * (unat all_rows - unat n)"
  shows "f64_ge (estimate_remaining_bytes bs n (Some all_rows)) (t, 1)"
  using estimate_exact [OF assms(1-6)] assms(7) by simp

lemma tiny_estimate: "f64_ge (estimate_remaining_bytes [0] 1 (Some 3)) (2, 1)"
  by (rule estimate_reaches) simp_all

definition learner :: "first_page_check option \<Rightarrow> reader" where
  "learner check = new_reader rows_request 0 None True check 0"

definition learn_end :: "termination_reason option \<Rightarrow> reader" where
  "learn_end switched = (learner None)\<lparr>rd_metadata := Some row_metadata, rd_schema_tx := False,
     rd_state := (case switched of Some reason \<Rightarrow> Terminated reason
                  | None \<Rightarrow> Reading 1 None [Inl lost_connection])\<rparr>"

lemma replicate_2: "replicate 2 x = [x, x]"
  by (simp add: numeral_eq_Suc)

lemma switch_run:
  "run flaky_cfg (replicate 2 flaky_in) (new_reader rows_request 0 None True (Some tiny_check) 0) =
     (learn_end (Some SwitchToReadSession),
      [Connect rows_request, SendSchema (Inr (Some (md_schema row_metadata)))], Some SwitchToReadSession)"
  using tiny_estimate
  by (simp add: replicate_2 learn_end_def learner_def scenario_defs flaky_defs Let_def tiny_check_def
      u64_try_from_def)

lemma learn_run:
  "run flaky_cfg (replicate 2 flaky_in) (new_reader rows_request 0 None True None 0) =
     (learn_end None,
      [Connect rows_request, SendSchema (Inr (Some (md_schema row_metadata))), ThrottlerSuccess,
       PushJob (row_job 0 1)], None)"
  by (simp add: replicate_2 learn_end_def learner_def scenario_defs flaky_defs Let_def)

definition forbidden :: gax_error where
  "forbidden = lost_connection\<lparr>ge_io := False, ge_status :=
     Some \<lparr>st_code = PermissionDenied, st_message = ''no'', st_details = []\<rparr>\<rparr>"

definition failing_in :: "gax_error \<Rightarrow> step_in" where
  "failing_in err = flaky_in\<lparr>in_send := (\<lambda>req. Inl err)\<rparr>"

lemma fatal_run:
  "run flaky_cfg [failing_in forbidden] (new_reader rows_request 0 None True None 0) =
     ((learner None)\<lparr>rd_schema_tx := False, rd_state := Terminated Finished\<rparr>,
      [Connect rows_request, ThrottlerFailure (Permanent forbidden), CancelAll,
       SendSchema (Inl (Grpc forbidden))], Some Finished)"
  by (simp add: failing_in_def forbidden_def learner_def scenario_defs flaky_defs Let_def)

end
