(* ===== verification/Read_Stream_Runs.thy ===== *)
theory Read_Stream_Runs
  imports Read_Stream_Proofs Read_Stream_Scenario
begin

text \<open>
  Whole runs of the stream reader: invariants of the effects it accumulates, each an
  interpretation of the locale of invariants on the reader's own step, and the properties of
  \<open>run\<close> that follow.
\<close>

section \<open>Runs as folds\<close>

lemma step_terminated: "is_terminated r \<Longrightarrow> step cfg i r = (r, [])"
  by (auto simp: step_def is_terminated_def split: read_state.splits)

interpretation ended: absorbing "rd_step cfg" "\<lambda>s. is_terminated (fst s)" for cfg
  by unfold_locales (simp add: rd_step_def step_terminated)

lemma run_fold:
  "run cfg is r = (r', es, reason) \<Longrightarrow>
     fold (rd_step cfg) is (r, pre) = (r', pre @ es)
     \<and> reason = (case rd_state r' of Terminated x \<Rightarrow> Some x | _ \<Rightarrow> None)"
proof (induction "is" arbitrary: r pre es)
  case (Cons i "is")
  show ?case
  proof (cases "rd_state r")
    case (Terminated x)
    then have "is_terminated r" by (simp add: is_terminated_def)
    with Terminated Cons.prems ended.final_run [of "(r, pre)" cfg "i # is"] show ?thesis by auto
  next
    case Connecting
    with Cons.prems Cons.IH [of "fst (step cfg i r)" _ "pre @ snd (step cfg i r)"] show ?thesis
      by (auto simp: rd_step_def split: prod.splits)
  next
    case Backoff
    with Cons.prems Cons.IH [of "fst (step cfg i r)" _ "pre @ snd (step cfg i r)"] show ?thesis
      by (auto simp: rd_step_def split: prod.splits)
  next
    case Reading
    with Cons.prems Cons.IH [of "fst (step cfg i r)" _ "pre @ snd (step cfg i r)"] show ?thesis
      by (auto simp: rd_step_def split: prod.splits)
  qed
qed simp

lemma run_final:
  assumes "run cfg is r = (r', es, reason)"
  shows "fold (rd_step cfg) is (r, []) = (r', es)"
    and "reason = (case rd_state r' of Terminated x \<Rightarrow> Some x | _ \<Rightarrow> None)"
  using run_fold [OF assms, of "[]"] by simp_all

text \<open>An invariant of state and effects is kept when every transition keeps it.\<close>

lemma invariant_by_transitions:
  assumes "\<And>r' es. rstep i (fst s) r' es \<Longrightarrow> Q (r', snd s @ es)"
  shows "Q (rd_step cfg i s)"
  using assms [OF step_rstep [of i "fst s" cfg]] by (simp add: rd_step_def case_prod_beta)

section \<open>Resuming\<close>

text \<open>
  Every request repeats the reader's own request with the offset of the first row not yet
  queued: \<open>resumes rr k es\<close> with \<open>k\<close> the offset before \<open>es\<close>.
\<close>

definition queued_rows :: "effect list \<Rightarrow> int" where
  "queued_rows es = (\<Sum>e \<leftarrow> es. case e of PushJob j \<Rightarrow> sint (dj_expected_row_count j) | _ \<Rightarrow> 0)"

fun resumes :: "read_rows_request \<Rightarrow> int \<Rightarrow> effect list \<Rightarrow> bool" where
  "resumes rr k [] = True"
| "resumes rr k (Connect req # es) =
     ((\<exists>off. req = rr\<lparr>rr_offset := off\<rparr> \<and> sint off = k) \<and> resumes rr k es)"
| "resumes rr k (PushJob j # es) = resumes rr (k + sint (dj_expected_row_count j)) es"
| "resumes rr k (e # es) = resumes rr k es"

lemma queued_rows_simps [simp]:
  "queued_rows [] = 0"
  "queued_rows (e # es) = (case e of PushJob j \<Rightarrow> sint (dj_expected_row_count j) | _ \<Rightarrow> 0) + queued_rows es"
  "queued_rows (es @ fs) = queued_rows es + queued_rows fs"
  by (simp_all add: queued_rows_def)

lemma resumes_append:
  "resumes rr k (es @ fs) \<longleftrightarrow> resumes rr k es \<and> resumes rr (k + queued_rows es) fs"
  by (induction rr k es rule: resumes.induct) (auto simp: add.assoc)

definition resume_inv :: "read_rows_request \<Rightarrow> int \<Rightarrow> reader \<times> effect list \<Rightarrow> bool" where
  "resume_inv rr k s \<longleftrightarrow> rd_read_rows (fst s) = rr \<and> resumes rr k (snd s)
     \<and> (case offset_of (rd_state (fst s)) of
          Some off \<Rightarrow> sint off = k + queued_rows (snd s) | None \<Rightarrow> True)"

lemma learns_simps:
  assumes "learns r r0 pre"
  shows "rd_read_rows r0 = rd_read_rows r" "rd_state r0 = rd_state r"
    "rd_first_page_check r0 = rd_first_page_check r" "queued_rows pre = 0" "resumes rr k pre"
  using assms by (auto elim!: learns.cases)

lemma quiet_simps:
  assumes "list_all (quiet r) es"
  shows "queued_rows es = 0"
    "offset_of (rd_state r) = Some off \<Longrightarrow> sint off = k \<Longrightarrow> rd_read_rows r = rr \<Longrightarrow> resumes rr k es"
  using assms by (induction es) (auto simp: quiet_def request_at_def split: effect.splits)

lemma live_offset: "\<not> is_terminated r \<Longrightarrow> \<exists>off. offset_of (rd_state r) = Some off"
  by (cases "rd_state r") (auto simp: is_terminated_def)

lemma failed_at_offset: "failed_at i r off \<Longrightarrow> offset_of (rd_state r) = Some off"
  by (auto simp: failed_at_def)

lemma resume_step:
  assumes "rstep i r r' es" "resume_inv rr k (r, es0)"
  shows "resume_inv rr k (r', es0 @ es)"
  using assms
proof (cases rule: rstep.cases)
  case (fatal r0 pre es check err)
  then obtain off where "offset_of (rd_state r) = Some off" using live_offset by blast
  with fatal assms(2) show ?thesis
    by (auto simp: resume_inv_def resumes_append learns_simps quiet_simps error_message_def)
next
  case (page offset rs v rest r0 pre m b offset')
  with assms(2) show ?thesis
    by (auto simp: resume_inv_def resumes_append learns_simps checked_add_i64_Some)
next
  case (retry offset es d)
  with assms(2) failed_at_offset [of i r offset] show ?thesis
    by (auto simp: resume_inv_def resumes_append quiet_simps)
qed (auto simp: resume_inv_def resumes_append request_at_def learns_simps is_terminated_def)

interpretation resume: step_invariant "rd_step cfg" "\<lambda>_. True" "resume_inv rr k" for cfg rr k
  by unfold_locales (rule invariant_by_transitions, auto intro: resume_step)

text \<open>C4: Reconnection neither loses nor repeats rows: every request a reader ever sends is its
  original request with the offset set to the initial offset plus the row counts of exactly the
  payloads queued for decoding before that request, as integers, without wrap-around.\<close>

theorem resume_exactly:
  assumes run: "run cfg is (new_reader rr offset md tx check now) = (r, es, reason)"
    and split: "es = before @ Connect req # after"
  shows "req = rr\<lparr>rr_offset := rr_offset req\<rparr>
    \<and> sint (rr_offset req) = sint offset + queued_rows before"
proof -
  have "resume_inv rr (sint offset) (new_reader rr offset md tx check now, [])"
    by (simp add: resume_inv_def new_reader_def)
  from resume.inv_run [OF _ this, of "is" cfg] run_final(1) [OF run]
  have "resumes rr (sint offset) es" by (simp add: resume_inv_def)
  with split show ?thesis by (auto simp: resumes_append)
qed

section \<open>Errors come last\<close>

definition is_failure :: "effect \<Rightarrow> bool" where
  "is_failure e \<longleftrightarrow> (case e of CancelAll \<Rightarrow> True | SendError _ \<Rightarrow> True
     | SendSchema m \<Rightarrow> (case m of Inl _ \<Rightarrow> True | Inr _ \<Rightarrow> False) | _ \<Rightarrow> False)"

definition clean :: "effect list \<Rightarrow> bool" where
  "clean es \<longleftrightarrow> \<not> list_ex is_failure es"

lemma clean_simps [simp]:
  "clean []"
  "clean (e # es) \<longleftrightarrow> \<not> is_failure e \<and> clean es"
  "clean (es @ fs) \<longleftrightarrow> clean es \<and> clean fs"
  by (simp_all add: clean_def)

lemma is_failure_simps [simp]:
  "is_failure CancelAll" "is_failure (SendError err)" "is_failure (SendSchema (Inl err))"
  "\<not> is_failure (SendSchema (Inr s))" "\<not> is_failure (Connect req)" "\<not> is_failure ThrottlerSuccess"
  "\<not> is_failure (ThrottlerFailure f)" "\<not> is_failure (ThrottlerAsk a)" "\<not> is_failure (PushJob j)"
  by (simp_all add: is_failure_def)

lemma is_failure_message [simp]: "is_failure (error_message r err)"
  by (simp add: error_message_def)

lemma quiet_clean: "list_all (quiet r) es \<Longrightarrow> clean es"
  by (induction es) (auto simp: quiet_def split: effect.splits)

lemma learns_clean: "learns r r0 pre \<Longrightarrow> clean pre"
  by (auto elim!: learns.cases)

text \<open>Either no failure at all, or the cancellation of the siblings and one error at the end.\<close>

definition failure_last :: "effect list \<Rightarrow> bool" where
  "failure_last es \<longleftrightarrow>
     (\<exists>before m. es = before @ [CancelAll, m] \<and> clean before \<and> is_failure m \<and> m \<noteq> CancelAll)"

definition failure_inv :: "reader \<times> effect list \<Rightarrow> bool" where
  "failure_inv s \<longleftrightarrow> clean (snd s)
     \<or> rd_state (fst s) = Terminated Finished \<and> failure_last (snd s)"

lemma failure_step:
  assumes "rstep i r r' es" "failure_inv (r, es0)"
  shows "failure_inv (r', es0 @ es)"
proof (cases "is_terminated r")
  case True
  from assms(1) have "r' = r \<and> es = []"
    using True by (cases rule: rstep.cases) (auto simp: is_terminated_def failed_at_def)
  with assms(2) show ?thesis by simp
next
  case False
  with assms(2) have clean: "clean es0" by (auto simp: failure_inv_def is_terminated_def)
  from assms(1) show ?thesis
  proof (cases rule: rstep.cases)
    case (fatal r0 pre es check err)
    have "failure_last (es0 @ pre @ es @ [CancelAll, error_message r0 err])"
      unfolding failure_last_def
      using clean quiet_clean [OF fatal(5)] learns_clean [OF fatal(4)]
      by (intro exI [of _ "es0 @ pre @ es"] exI [of _ "error_message r0 err"])
        (auto simp: error_message_def)
    with fatal show ?thesis by (simp add: failure_inv_def)
  qed (use clean in \<open>auto simp: failure_inv_def quiet_clean learns_clean\<close>)
qed

interpretation failure: step_invariant "rd_step cfg" "\<lambda>_. True" failure_inv for cfg
  by unfold_locales (rule invariant_by_transitions, auto intro: failure_step)

text \<open>C6: A reader reports at most one error, and then it has cancelled its siblings immediately
  before, the error is the very last thing it does, and it has terminated as finished.\<close>

theorem errors_come_last:
  assumes run: "run cfg is (new_reader rr offset md tx check now) = (r, es, reason)"
  shows "clean es \<or> reason = Some Finished \<and> failure_last es"
proof -
  have "failure_inv (new_reader rr offset md tx check now, [])"
    by (simp add: failure_inv_def)
  from failure.inv_run [OF _ this, of "is" cfg] run_final [OF run]
  show ?thesis by (auto simp: failure_inv_def)
qed

section \<open>The schema protocol\<close>

definition is_schema_message :: "effect \<Rightarrow> bool" where
  "is_schema_message e \<longleftrightarrow> (case e of SendSchema _ \<Rightarrow> True | _ \<Rightarrow> False)"

definition schema_messages :: "effect list \<Rightarrow> effect list" where
  "schema_messages es = filter is_schema_message es"

text \<open>Every payload is queued with metadata whose schema was announced before.\<close>

fun announced :: "arrow_schema set \<Rightarrow> effect list \<Rightarrow> bool" where
  "announced seen [] = True"
| "announced seen (SendSchema (Inr (Some schema)) # es) = announced (insert schema seen) es"
| "announced seen (PushJob j # es) = (md_schema (dj_metadata j) \<in> seen \<and> announced seen es)"
| "announced seen (e # es) = announced seen es"

definition announcements :: "effect list \<Rightarrow> arrow_schema set" where
  "announcements es = {schema. SendSchema (Inr (Some schema)) \<in> set es}"

lemma announced_append:
  "announced seen (es @ fs) \<longleftrightarrow> announced seen es \<and> announced (seen \<union> announcements es) fs"
proof (induction seen es rule: announced.induct)
  case (2 seen schema es)
  have "announcements (SendSchema (Inr (Some schema)) # es) = insert schema (announcements es)"
    by (auto simp: announcements_def)
  with 2 show ?case by simp
qed (simp_all add: announcements_def)

lemma schema_messages_simps [simp]:
  "schema_messages [] = []"
  "schema_messages (e # es) = (if is_schema_message e then [e] else []) @ schema_messages es"
  "schema_messages (es @ fs) = schema_messages es @ schema_messages fs"
  "is_schema_message (SendSchema m)"
  "\<not> is_schema_message (SendError err)" "\<not> is_schema_message CancelAll"
  "\<not> is_schema_message (Connect req)" "\<not> is_schema_message ThrottlerSuccess"
  "\<not> is_schema_message (PushJob j)"
  by (simp_all add: schema_messages_def is_schema_message_def)

lemma quiet_no_schema:
  assumes "list_all (quiet r) es"
  shows "schema_messages es = []" "announced seen es" "announcements es = {}"
  using assms
  by (induction es arbitrary: seen)
    (auto simp: quiet_def is_schema_message_def announcements_def split: effect.splits)

text \<open>
  Once the metadata is known its schema has been announced; the one-shot sender is used at most
  once; and all payloads carry the metadata the reader knows.
\<close>

definition schema_inv :: "stream_metadata option \<Rightarrow> bool \<Rightarrow> reader \<times> effect list \<Rightarrow> bool" where
  "schema_inv md tx s \<longleftrightarrow> (case s of (r, es) \<Rightarrow>
     length (schema_messages es) + of_bool (rd_schema_tx r) = of_bool tx
     \<and> (\<forall>j. PushJob j \<in> set es \<longrightarrow> rd_metadata r = Some (dj_metadata j))
     \<and> (\<forall>m. md = Some m \<longrightarrow> rd_metadata r = md)
     \<and> (md = None \<longrightarrow> tx \<longrightarrow>
          announced {} es
          \<and> (\<forall>m. rd_metadata r = Some m \<longrightarrow> SendSchema (Inr (Some (md_schema m))) \<in> set es)
          \<and> (\<not> is_terminated r \<longrightarrow> rd_metadata r = None \<longrightarrow> rd_schema_tx r)))"

lemma schema_learns:
  assumes "learns r r0 pre" "\<not> is_terminated r" "schema_inv md tx (r, es0)"
  shows "schema_inv md tx (r0, es0 @ pre)"
  using assms
  by (cases rule: learns.cases; cases tx)
    (auto simp: schema_inv_def announced_append is_terminated_def split: if_splits)

lemma schema_quiet:
  assumes "schema_inv md tx (r, es0)" "list_all (quiet r1) es"
  shows "schema_inv md tx (r, es0 @ es)"
proof -
  have "PushJob j \<notin> set es" for j
    using assms(2) by (auto simp: quiet_def list_all_iff)
  with assms show ?thesis
    by (auto simp: schema_inv_def announced_append quiet_no_schema)
qed

lemma schema_state:
  "schema_inv md tx (r, es) \<Longrightarrow> \<not> is_terminated r \<or> is_terminated r' \<Longrightarrow>
   rd_metadata r' = rd_metadata r \<Longrightarrow> rd_schema_tx r' = rd_schema_tx r \<Longrightarrow> schema_inv md tx (r', es)"
  by (auto simp: schema_inv_def)

lemma schema_fail:
  "schema_inv md tx (r, es) \<Longrightarrow>
     schema_inv md tx (r\<lparr>rd_schema_tx := False, rd_state := Terminated Finished\<rparr>,
       es @ [CancelAll, error_message r err])"
  by (auto simp: schema_inv_def error_message_def announced_append is_terminated_def)

lemma schema_success:
  "schema_inv md tx (r, es) \<Longrightarrow> schema_inv md tx (r, es @ [ThrottlerSuccess])"
  by (rule schema_quiet [of _ _ _ _ undefined]) (simp_all add: quiet_def)

lemma schema_push:
  "schema_inv md tx (r, es) \<Longrightarrow> rd_metadata r = Some (dj_metadata j) \<Longrightarrow>
     schema_inv md tx (r, es @ [ThrottlerSuccess, PushJob j])"
  by (auto simp: schema_inv_def announced_append announcements_def)

lemma terminated_simps [simp]:
  "is_terminated (r\<lparr>rd_state := Terminated x\<rparr>)"
  "\<not> is_terminated (r\<lparr>rd_state := Connecting off rs\<rparr>)"
  "\<not> is_terminated (r\<lparr>rd_state := Backoff off rs d\<rparr>)"
  "\<not> is_terminated (r\<lparr>rd_state := Reading off st items\<rparr>)"
  by (simp_all add: is_terminated_def)

lemma reading_live: "rd_state r = Reading off st items \<Longrightarrow> \<not> is_terminated r"
  by (simp add: is_terminated_def)

lemma failed_live: "failed_at i r off \<Longrightarrow> \<not> is_terminated r"
  by (auto simp: failed_at_def is_terminated_def)

lemma learns_live: "learns r r0 pre \<Longrightarrow> is_terminated r0 = is_terminated r"
  by (simp add: is_terminated_def learns_simps)

lemma schema_step:
  assumes "rstep i r r' es" "schema_inv md tx (r, es0)"
  shows "schema_inv md tx (r', es0 @ es)"
  using assms(1)
proof (cases rule: rstep.cases)
  case (cancelled)
  with schema_state [OF assms(2), of r'] show ?thesis by simp
next
  case (connected offset rs stream)
  with assms(2) have "schema_inv md tx (r, es0 @ es)"
    by (intro schema_quiet [of _ _ _ _ r]) (auto simp: quiet_def)
  from schema_state [OF this, of r'] connected show ?thesis by (simp add: is_terminated_def)
next
  case (waited offset rs d)
  with schema_state [OF assms(2), of r'] show ?thesis by (simp add: is_terminated_def)
next
  case (retry offset d)
  from schema_state [OF schema_quiet [OF assms(2) retry(3)], of r'] retry show ?thesis
    by (simp add: failed_live)
next
  case (fatal r0 pre es' check err)
  have "schema_inv md tx (r0\<lparr>rd_schema_tx := False, rd_state := Terminated Finished\<rparr>,
      ((es0 @ pre) @ es') @ [CancelAll, error_message r0 err])"
    using schema_learns [OF fatal(4) fatal(3) assms(2)] fatal(5)
    by (intro schema_fail) (rule schema_quiet)
  from schema_state [OF this, of r'] fatal(1,2) show ?thesis by simp
next
  case (heartbeat offset rs v rest r0 pre)
  have "schema_inv md tx (r0, (es0 @ pre) @ [ThrottlerSuccess])"
    using schema_learns [OF heartbeat(5) reading_live [OF heartbeat(3)] assms(2)] by (rule schema_success)
  from schema_state [OF this, of r'] heartbeat learns_live [OF heartbeat(5)]
    reading_live [OF heartbeat(3)] show ?thesis by simp
next
  case (page offset rs v rest r0 pre m b offset')
  have "schema_inv md tx (r0, (es0 @ pre) @ [ThrottlerSuccess, PushJob \<lparr>dj_bytes = b,
      dj_expected_row_count = rsp_row_count v, dj_metadata = m\<rparr>])"
    using schema_learns [OF page(4) reading_live [OF page(3)] assms(2)] page by (intro schema_push) auto
  from schema_state [OF this, of r'] page learns_live [OF page(4)]
    reading_live [OF page(3)] show ?thesis by simp
next
  case (refused offset rs v rest r0 pre)
  have "schema_inv md tx (r0, (es0 @ pre) @ [ThrottlerSuccess])"
    using schema_learns [OF refused(4) reading_live [OF refused(3)] assms(2)] by (rule schema_success)
  from schema_state [OF this, of r'] refused show ?thesis by simp
next
  case (switch offset rs v rest r0 m c)
  from schema_state [OF schema_learns [OF switch(3) reading_live [OF switch(2)] assms(2)], of r'] switch
  show ?thesis by simp
next
  case (eof offset rs)
  with assms(2) show ?thesis
    by (auto simp: schema_inv_def announced_append announcements_def is_terminated_def)
qed (use assms(2) in simp)

interpretation schema: step_invariant "rd_step cfg" "\<lambda>_. True" "schema_inv md tx" for cfg md tx
  by unfold_locales (rule invariant_by_transitions, auto intro: schema_step)

text \<open>C18: The consumer learns the schema at most once and before any data: a reader that holds
  the schema sender sends at most one message on it, every payload it queues comes after the
  announcement of the schema of that payload's metadata, and all payloads carry the same
  metadata.\<close>

theorem schema_before_data:
  assumes run: "run cfg is (new_reader rr offset None True check now) = (r, es, reason)"
  shows "length (schema_messages es) \<le> 1 \<and> announced {} es
    \<and> (\<forall>j j'. PushJob j \<in> set es \<and> PushJob j' \<in> set es \<longrightarrow> dj_metadata j = dj_metadata j')"
proof -
  have "schema_inv None True (new_reader rr offset None True check now, [])"
    by (simp add: schema_inv_def new_reader_def)
  from schema.inv_run [OF _ this, of "is" cfg] run_final [OF run]
  have inv: "schema_inv None True (r, es)" by simp
  then have "length (schema_messages es) \<le> 1"
    by (cases "rd_schema_tx r") (simp_all add: schema_inv_def)
  moreover have meta: "rd_metadata r = Some (dj_metadata j)" if "PushJob j \<in> set es" for j
    using inv that by (simp add: schema_inv_def)
  have "dj_metadata j = dj_metadata j'" if "PushJob j \<in> set es" "PushJob j' \<in> set es" for j j'
    using meta [OF that(1)] meta [OF that(2)] by simp
  moreover have "announced {} es" using inv by (simp add: schema_inv_def)
  ultimately show ?thesis by blast
qed

section \<open>Switching to a read session\<close>

text \<open>
  The check is only ever dropped; while it is held nothing has been queued; and a switch
  happens while it is held, with the metadata known.
\<close>

definition check_inv :: "first_page_check option \<Rightarrow> reader \<times> effect list \<Rightarrow> bool" where
  "check_inv check s \<longleftrightarrow> (case s of (r, es) \<Rightarrow>
     (\<not> is_terminated r \<longrightarrow> rd_first_page_check r \<noteq> None \<longrightarrow>
        rd_first_page_check r = check \<and> (\<forall>j. PushJob j \<notin> set es) \<and> clean es)
     \<and> (rd_state r = Terminated SwitchToReadSession \<longrightarrow>
          check \<noteq> None \<and> (\<forall>j. PushJob j \<notin> set es) \<and> clean es \<and> rd_metadata r \<noteq> None))"

lemma learns_no_push: "learns r r0 pre \<Longrightarrow> PushJob j \<notin> set pre"
  by (auto elim!: learns.cases)

lemma quiet_no_push: "list_all (quiet r) es \<Longrightarrow> PushJob j \<notin> set es"
  by (auto simp: list_all_iff quiet_def)

lemma check_step:
  assumes "rstep i r r' es" "check_inv chk (r, es0)"
  shows "check_inv chk (r', es0 @ es)"
  using assms(1)
proof (cases rule: rstep.cases)
  case (retry offset d)
  with assms(2) failed_live [OF retry(2)] show ?thesis
    by (auto simp: check_inv_def quiet_no_push quiet_clean)
next
  case (heartbeat offset rs v rest r0 pre)
  with assms(2) reading_live [OF heartbeat(3)] show ?thesis
    by (auto simp: check_inv_def learns_simps learns_no_push learns_clean)
next
  case (switch offset rs v rest r0 m c)
  have "rd_first_page_check r = chk \<and> (\<forall>j. PushJob j \<notin> set es0) \<and> clean es0"
    using assms(2) reading_live [OF switch(2)] switch(5) by (simp add: check_inv_def)
  with switch show ?thesis
    by (simp add: check_inv_def learns_no_push learns_clean)
qed (use assms(2) in \<open>auto simp: check_inv_def is_terminated_def\<close>)

interpretation check: step_invariant "rd_step cfg" "\<lambda>_. True" "check_inv chk" for cfg chk
  by unfold_locales (rule invariant_by_transitions, auto intro: check_step)

lemma switch_clean:
  assumes run: "run cfg is (new_reader rr offset md tx check now) = (r, es, Some SwitchToReadSession)"
  shows "check \<noteq> None" "PushJob j \<notin> set es" "clean es" "rd_metadata r \<noteq> None"
proof -
  have st: "rd_state r = Terminated SwitchToReadSession"
    using run_final(2) [OF run] by (cases "rd_state r") auto
  have "check_inv check (new_reader rr offset md tx check now, [])"
    by (simp add: check_inv_def new_reader_def)
  from check.inv_run [OF _ this, of "is" cfg] run_final(1) [OF run] st
  show "check \<noteq> None" "PushJob j \<notin> set es" "clean es" "rd_metadata r \<noteq> None"
    by (auto simp: check_inv_def)
qed

lemma schema_run:
  assumes run: "run cfg is (new_reader rr offset md tx check now) = (r, es, reason)"
  shows "schema_inv md tx (r, es)"
proof -
  have "schema_inv md tx (new_reader rr offset md tx check now, [])"
    by (simp add: schema_inv_def new_reader_def)
  from schema.inv_run [OF _ this, of "is" cfg] run_final(1) [OF run] show ?thesis by simp
qed

text \<open>A reader that ends with a switch to a read session had been given a first-page check
  and has queued nothing and reported no error, so reading the table from its first row again
  duplicates nothing; and if it had to find out the schema it has announced exactly that one
  schema.\<close>

lemma switch_discards_everything:
  assumes run: "run cfg is (new_reader rr offset md tx check now) = (r, es, Some SwitchToReadSession)"
  shows "check \<noteq> None \<and> queued_rows es = 0 \<and> (\<forall>j. PushJob j \<notin> set es) \<and> clean es
    \<and> (md = None \<and> tx \<longrightarrow> (\<exists>schema. schema_messages es = [SendSchema (Inr (Some schema))]))"
proof -
  note chk = switch_clean [OF run]
  have rows: "queued_rows es = 0"
    using chk(2) by (induction es) (auto split: effect.splits)
  have "\<exists>schema. schema_messages es = [SendSchema (Inr (Some schema))]" if "md = None" tx
  proof -
    have inv: "schema_inv None True (r, es)" using schema_run [OF run] that by simp
    from chk(4) obtain m where m: "rd_metadata r = Some m" by auto
    with inv have mem: "SendSchema (Inr (Some (md_schema m))) \<in> set (schema_messages es)"
      by (simp add: schema_inv_def schema_messages_def)
    have "length (schema_messages es) \<le> 1"
      using inv by (cases "rd_schema_tx r") (simp_all add: schema_inv_def)
    with mem have "schema_messages es = [SendSchema (Inr (Some (md_schema m)))]"
      by (cases "schema_messages es") auto
    then show ?thesis by blast
  qed
  with chk rows show ?thesis by blast
qed

section \<open>Concrete runs\<close>

theorem resume_exactly_witness:
  "sint (rr_offset (rows_request\<lparr>rr_offset := 1\<rparr>)) = 0 + queued_rows (take 5 flaky_effects)
   \<and> queued_rows (take 5 flaky_effects) = 1"
proof -
  have "flaky_effects = take 5 flaky_effects @ Connect (rows_request\<lparr>rr_offset := 1\<rparr>) # drop 6 flaky_effects"
    by (simp add: flaky_effects_def)
  from resume_exactly [OF flaky_run this]
  show ?thesis by (simp add: flaky_effects_def row_job_def)
qed

theorem errors_come_last_witness:
  "failure_last [Connect rows_request, ThrottlerFailure (Permanent forbidden), CancelAll,
     SendSchema (Inl (Grpc forbidden))]"
  using errors_come_last [OF fatal_run] by simp

theorem schema_before_data_witness:
  "announced {} [Connect rows_request, SendSchema (Inr (Some (md_schema row_metadata))),
     ThrottlerSuccess, PushJob (row_job 0 1)]"
  using schema_before_data [OF learn_run] by simp

theorem switch_discards_everything_witness:
  "queued_rows [Connect rows_request, SendSchema (Inr (Some (md_schema row_metadata)))] = 0
   \<and> (\<exists>schema. schema_messages [Connect rows_request,
        SendSchema (Inr (Some (md_schema row_metadata)))] = [SendSchema (Inr (Some schema))])"
  using switch_discards_everything [OF switch_run] by simp

end
