(* ===== verification/Read_Stream_Delivery.thy ===== *)
theory Read_Stream_Delivery
  imports Read_Stream_Runs
begin

text \<open>
  What a reader delivers when the server is honest (it serves consecutive slices of one stream
  of rows from the offset it was asked for, with failures and heartbeats anywhere) and that a
  reader gives up on a server that only fails.
\<close>

section \<open>An honest server\<close>

text \<open>
  \<open>sl a b\<close> is the payload for the rows from \<open>a\<close> to \<open>b\<close> of a stream with \<open>N\<close> rows. After a
  failure the rest of the stream does not matter; without one the stream ends after row \<open>N\<close>.
\<close>

fun honest_items :: "(int \<Rightarrow> int \<Rightarrow> bytes) \<Rightarrow> int \<Rightarrow> int \<Rightarrow> item list \<Rightarrow> bool" where
  "honest_items sl N k [] \<longleftrightarrow> k = N"
| "honest_items sl N k (Inl e # rest) \<longleftrightarrow> True"
| "honest_items sl N k (Inr v # rest) \<longleftrightarrow>
     (case rsp_rows v of
        Some (ArrowRecordBatch b) \<Rightarrow>
          (let k' = k + sint (rsp_row_count v)
           in k < k' \<and> k' \<le> N \<and> b = sl k k' \<and> honest_items sl N k' rest)
      | Some OtherRows \<Rightarrow> False
      | None \<Rightarrow> rsp_row_count v = 0 \<and> honest_items sl N k rest)"

definition honest_server :: "(int \<Rightarrow> int \<Rightarrow> bytes) \<Rightarrow> int \<Rightarrow> step_in \<Rightarrow> bool" where
  "honest_server sl N i \<longleftrightarrow>
     (\<forall>req stream. in_send i req = Inr stream \<longrightarrow> honest_items sl N (sint (rr_offset req)) stream)"

definition undisturbed :: "step_in \<Rightarrow> bool" where
  "undisturbed i \<longleftrightarrow> \<not> in_cancelled i \<and> \<not> in_select_cancelled i \<and> in_reserve i = Reserved"

definition jobs :: "effect list \<Rightarrow> decode_job list" where
  "jobs es = concat (map (\<lambda>e. case e of PushJob j \<Rightarrow> [j] | _ \<Rightarrow> []) es)"

text \<open>The payloads cover the rows from \<open>k\<close> to \<open>n\<close>, each row once, in order.\<close>

fun tiles :: "(int \<Rightarrow> int \<Rightarrow> bytes) \<Rightarrow> int \<Rightarrow> decode_job list \<Rightarrow> int \<Rightarrow> bool" where
  "tiles sl k [] n \<longleftrightarrow> k = n"
| "tiles sl k (j # js) n \<longleftrightarrow>
     (let k' = k + sint (dj_expected_row_count j)
      in k < k' \<and> dj_bytes j = sl k k' \<and> tiles sl k' js n)"

lemma jobs_simps [simp]:
  "jobs [] = []"
  "jobs (e # es) = (case e of PushJob j \<Rightarrow> [j] | _ \<Rightarrow> []) @ jobs es"
  "jobs (es @ fs) = jobs es @ jobs fs"
  by (simp_all add: jobs_def)

lemma set_jobs: "set (jobs es) = {j. PushJob j \<in> set es}"
  by (induction es) (auto split: effect.splits)

lemma no_jobs:
  "learns r r0 pre \<Longrightarrow> jobs pre = []"
  "list_all (quiet r) es \<Longrightarrow> jobs es = []"
  "jobs [CancelAll, error_message r err] = []"
  by (auto simp: set_jobs learns_no_push quiet_no_push error_message_def simp flip: set_empty)

lemma tiles_append: "tiles sl k (js @ js') n \<longleftrightarrow> (\<exists>m. tiles sl k js m \<and> tiles sl m js' n)"
  by (induction js arbitrary: k) (auto simp: Let_def)

lemma tiles_bounds: "tiles sl k js n \<Longrightarrow> k \<le> n"
  by (induction js arbitrary: k) (fastforce simp: Let_def)+

text \<open>The flag asks for completeness, which needs undisturbed inputs.\<close>

definition delivery_inv ::
  "bool \<Rightarrow> (int \<Rightarrow> int \<Rightarrow> bytes) \<Rightarrow> int \<Rightarrow> int \<Rightarrow> reader \<times> effect list \<Rightarrow> bool" where
  "delivery_inv cpl sl N k s \<longleftrightarrow> (case s of (r, es) \<Rightarrow>
     (case offset_of (rd_state r) of
        Some off \<Rightarrow> tiles sl k (jobs es) (sint off) \<and> sint off \<le> N
      | None \<Rightarrow> (\<exists>n. tiles sl k (jobs es) n \<and> n \<le> N))
     \<and> (\<forall>off st items. rd_state r = Reading off st items \<longrightarrow> honest_items sl N (sint off) items)
     \<and> (cpl \<longrightarrow> rd_state r = Terminated Finished \<longrightarrow> clean es \<longrightarrow> tiles sl k (jobs es) N))"

lemma delivery_live:
  assumes "delivery_inv cpl sl N k (r, es)" "offset_of (rd_state r) = Some off"
  shows "tiles sl k (jobs es) (sint off)" "sint off \<le> N"
  using assms by (simp_all add: delivery_inv_def)

lemma delivery_step:
  assumes "rstep i r r' es" "delivery_inv cpl sl N k (r, es0)"
    and "honest_server sl N i" "cpl \<longrightarrow> undisturbed i"
  shows "delivery_inv cpl sl N k (r', es0 @ es)"
  using assms(1)
proof (cases rule: rstep.cases)
  case cancelled
  then obtain off where "offset_of (rd_state r) = Some off" using live_offset by blast
  with cancelled assms show ?thesis by (auto simp: delivery_inv_def undisturbed_def)
next
  case (connected offset rs stream)
  then have "honest_items sl N (sint (rr_offset (request_at r offset))) stream"
    using assms(3) unfolding honest_server_def by blast
  with connected delivery_live [OF assms(2)] show ?thesis
    by (simp add: delivery_inv_def request_at_def)
next
  case (retry offset d)
  with delivery_live [OF assms(2) failed_at_offset [OF retry(2)]] show ?thesis
    by (simp add: delivery_inv_def no_jobs)
next
  case (fatal r0 pre es' check err)
  then obtain off where "offset_of (rd_state r) = Some off" using live_offset by blast
  with fatal assms(2) show ?thesis
    by (auto simp: delivery_inv_def no_jobs error_message_def)
next
  case (heartbeat offset rs v rest r0 pre)
  have "honest_items sl N (sint offset) (Inr v # rest)"
    using assms(2) heartbeat by (simp add: delivery_inv_def)
  then have "honest_items sl N (sint offset) rest"
    using heartbeat(4) by (auto split: option.splits rows_payload.splits)
  with heartbeat delivery_live [OF assms(2)] show ?thesis
    by (simp add: delivery_inv_def no_jobs)
next
  case (page offset rs v rest r0 pre m b offset')
  have "honest_items sl N (sint offset) (Inr v # rest)"
    using assms(2) page by (simp add: delivery_inv_def)
  with page checked_add_i64_Some [OF page(8)] delivery_live [OF assms(2)] show ?thesis
    by (auto simp: delivery_inv_def no_jobs tiles_append Let_def)
next
  case (refused offset rs v rest r0 pre)
  with delivery_live [OF assms(2)] assms(4) show ?thesis
    by (auto simp: delivery_inv_def no_jobs undisturbed_def)
next
  case (switch offset rs v rest r0 m c)
  with delivery_live [OF assms(2)] show ?thesis
    by (auto simp: delivery_inv_def no_jobs)
next
  case (eof offset rs)
  with delivery_live [OF assms(2)] assms(2) show ?thesis
    by (auto simp: delivery_inv_def)
qed (use assms(2) in \<open>auto simp: delivery_inv_def\<close>)

interpretation delivery: step_invariant "rd_step cfg"
  "\<lambda>i. honest_server sl N i \<and> (cpl \<longrightarrow> undisturbed i)" "delivery_inv cpl sl N k" for cfg cpl sl N k
  by unfold_locales (rule invariant_by_transitions, auto intro: delivery_step)

lemma delivery_run:
  assumes run: "run cfg is (new_reader rr offset md tx check now) = (r, es, reason)"
    and honest: "\<forall>i \<in> set is. honest_server sl N i" and "sint offset \<le> N"
  shows "\<exists>n \<le> N. tiles sl (sint offset) (jobs es) n"
    and "\<forall>i \<in> set is. undisturbed i \<Longrightarrow> reason = Some Finished \<Longrightarrow> clean es \<Longrightarrow>
      tiles sl (sint offset) (jobs es) N"
proof -
  have init: "delivery_inv cpl sl N (sint offset) (new_reader rr offset md tx check now, [])" for cpl
    using assms(3) by (simp add: delivery_inv_def new_reader_def)
  have *: "delivery_inv cpl sl N (sint offset) (r, es)"
    if "cpl \<longrightarrow> (\<forall>i \<in> set is. undisturbed i)" for cpl
    using delivery.inv_run [OF _ init, of "is" cpl cfg] run_final(1) [OF run] honest that by auto
  from * [of False] show "\<exists>n \<le> N. tiles sl (sint offset) (jobs es) n"
    by (auto simp: delivery_inv_def split: option.splits)
  assume "\<forall>i \<in> set is. undisturbed i" "reason = Some Finished" "clean es"
  moreover from this have "rd_state r = Terminated Finished"
    using run_final(2) [OF run] by (cases "rd_state r") auto
  ultimately show "tiles sl (sint offset) (jobs es) N"
    using * [of True] by (simp add: delivery_inv_def)
qed

text \<open>C2: Against an honest server, whatever fails and however often the reader reconnects, the
  payloads it queues are consecutive slices of the stream starting at the initial offset, no
  row twice and none skipped; and if nobody cancels or closes the channel and no error is
  reported, a reader that finishes has queued every row up to the end of the stream.\<close>

theorem every_row_queued_once:
  assumes run: "run cfg is (new_reader rr offset md tx check now) = (r, es, reason)"
    and honest: "\<forall>i \<in> set is. honest_server sl N i" and start: "sint offset \<le> N"
  shows "(\<exists>n \<le> N. tiles sl (sint offset) (jobs es) n)
    \<and> ((\<forall>i \<in> set is. undisturbed i) \<and> reason = Some Finished \<and> clean es
         \<longrightarrow> tiles sl (sint offset) (jobs es) N)"
  using delivery_run [OF assms] by blast

section \<open>From the server's table to the consumer\<close>

text \<open>
  A payload decodes to the rows it was cut from: \<open>tbl\<close> is the table and \<open>rows\<close> reads the rows of
  a record batch.
\<close>

definition serves_table ::
  "ipc \<Rightarrow> stream_metadata \<Rightarrow> (int \<Rightarrow> int \<Rightarrow> bytes) \<Rightarrow> (record_batch \<Rightarrow> 'row list) \<Rightarrow> 'row list \<Rightarrow> bool" where
  "serves_table ipc md sl rows tbl \<longleftrightarrow>
     (\<forall>a n. 0 \<le> a \<and> a \<le> int (length tbl) \<and> a < a + sint n \<and> a + sint n \<le> int (length tbl) \<longrightarrow>
        (\<exists>bs. decode_arrow_record_batches ipc (sl a (a + sint n)) n md = Inr bs
          \<and> concat (map rows bs) = take (nat (sint n)) (drop (nat a) tbl)))"

definition job_rows :: "ipc \<Rightarrow> (record_batch \<Rightarrow> 'row list) \<Rightarrow> decode_job \<Rightarrow> 'row list" where
  "job_rows ipc rows j = concat (map rows (sent_batches (decode_job_run ipc Decode.calm j)))"

definition delivered :: "ipc \<Rightarrow> (record_batch \<Rightarrow> 'row list) \<Rightarrow> decode_job list \<Rightarrow> 'row list" where
  "delivered ipc rows js = concat (map (job_rows ipc rows) js)"

lemma sent_batches_map: "sent_batches (map SendBatch bs) = bs"
  by (induction bs) (simp_all add: sent_batches_def)

lemma calm_job:
  assumes "decode_arrow_record_batches ipc (dj_bytes j) (dj_expected_row_count j) (dj_metadata j) = Inr bs"
  shows "sent_batches (decode_job_run ipc Decode.calm j) = bs"
  using assms
  by (cases bs) (simp_all add: decode_job_run_def Decode.calm_def send_rest_all sent_batches_map
      sent_batches_def [of "[]"] flip: list.map(2))

lemma tiles_delivered:
  assumes "serves_table ipc md sl rows tbl" "tiles sl k js n" "0 \<le> k" "n \<le> int (length tbl)"
    and "\<forall>j \<in> set js. dj_metadata j = md"
  shows "delivered ipc rows js = take (nat (n - k)) (drop (nat k) tbl)"
  using assms(2-5)
proof (induction js arbitrary: k)
  case Nil
  then show ?case by (simp add: delivered_def)
next
  case (Cons j js)
  define c where "c = sint (dj_expected_row_count j)"
  have c: "0 < c" "dj_bytes j = sl k (k + c)" "tiles sl (k + c) js n"
    using Cons.prems by (simp_all add: c_def Let_def)
  have le: "k + c \<le> n" using tiles_bounds [OF c(3)] .
  have IH: "delivered ipc rows js = take (nat (n - (k + c))) (drop (nat (k + c)) tbl)"
    using Cons c by auto
  have "\<exists>bs. decode_arrow_record_batches ipc (sl k (k + c)) (dj_expected_row_count j) md = Inr bs
      \<and> concat (map rows bs) = take (nat c) (drop (nat k) tbl)"
    unfolding c_def by (rule assms(1) [unfolded serves_table_def, rule_format])
      (use c le Cons.prems in \<open>simp_all add: c_def\<close>)
  then obtain bs where
    "decode_arrow_record_batches ipc (dj_bytes j) (dj_expected_row_count j) md = Inr bs"
    "concat (map rows bs) = take (nat c) (drop (nat k) tbl)"
    using c(2) by auto
  then have "job_rows ipc rows j = take (nat c) (drop (nat k) tbl)"
    using Cons.prems(4) by (simp add: job_rows_def calm_job)
  moreover have "nat (n - k) = nat c + nat (n - (k + c))" "nat (k + c) = nat k + nat c"
    using c le Cons.prems by auto
  ultimately show ?case
    using IH by (simp add: delivered_def take_add add.commute)
qed

lemma queued_metadata:
  assumes "run cfg is (new_reader rr offset (Some md) tx check now) = (r, es, reason)"
  shows "\<forall>j \<in> set (jobs es). dj_metadata j = md"
  using schema_run [OF assms] by (auto simp: schema_inv_def set_jobs)

lemma jobs_delivered:
  assumes "run cfg is (new_reader rr offset (Some md) tx check now) = (r, es, reason)"
    and "\<forall>i \<in> set is. honest_server sl (int (length tbl)) i"
    and "serves_table (rc_ipc cfg) md sl rows tbl"
    and "0 \<le> sint offset" "sint offset \<le> int (length tbl)"
  shows "prefix (delivered (rc_ipc cfg) rows (jobs es)) (drop (nat (sint offset)) tbl)"
    and "\<forall>i \<in> set is. undisturbed i \<Longrightarrow> reason = Some Finished \<Longrightarrow> clean es \<Longrightarrow>
      delivered (rc_ipc cfg) rows (jobs es) = drop (nat (sint offset)) tbl"
proof -
  note tiled = delivery_run [OF assms(1,2,5)]
  note decoded = tiles_delivered [OF assms(3) _ assms(4) _ queued_metadata [OF assms(1)]]
  from tiled(1) decoded show "prefix (delivered (rc_ipc cfg) rows (jobs es)) (drop (nat (sint offset)) tbl)"
    by (auto simp: take_is_prefix)
  assume "\<forall>i \<in> set is. undisturbed i" "reason = Some Finished" "clean es"
  from decoded [OF tiled(2) [OF this]]
  show "delivered (rc_ipc cfg) rows (jobs es) = drop (nat (sint offset)) tbl"
    by (simp add: nat_diff_distrib' assms(4))
qed

text \<open>An ordered read delivers the table: with a server that serves slices of a table from the
  requested offset and payloads that decode to those slices, the rows sent to the consumer by
  the jobs the ordered queue has finished are at every moment a prefix of the table's rows from
  the initial offset on; and when an undisturbed reader has finished without an error and the
  queue has run every job, they are all of these rows, in order.\<close>

lemma ordered_read_delivers_table:
  assumes run: "run cfg is (new_reader rr offset (Some md) tx check now) = (r, es, reason)"
    and honest: "\<forall>i \<in> set is. honest_server sl (int (length tbl)) i"
    and serves: "serves_table (rc_ipc cfg) md sl rows tbl"
    and offset: "0 \<le> sint offset" "sint offset \<le> int (length tbl)"
    and queue: "queue_reach q" "qs_pushed q = jobs es"
  shows "prefix (delivered (rc_ipc cfg) rows (qs_finished q)) (drop (nat (sint offset)) tbl)
    \<and> ((\<forall>i \<in> set is. undisturbed i) \<and> reason = Some Finished \<and> clean es
          \<and> length (qs_finished q) = length (qs_pushed q)
        \<longrightarrow> delivered (rc_ipc cfg) rows (qs_finished q) = drop (nat (sint offset)) tbl)"
proof -
  note rows = jobs_delivered [OF run honest serves offset]
  have "prefix (delivered (rc_ipc cfg) rows (qs_finished q)) (delivered (rc_ipc cfg) rows (jobs es))"
    using oq.outputs_in_order [OF queue(1), of "job_rows (rc_ipc cfg) rows"] queue(2)
    by (simp add: delivered_def)
  moreover have "qs_finished q = jobs es" if "length (qs_finished q) = length (qs_pushed q)"
    using oq.fifo [OF queue(1)] queue(2) that by (auto simp: prefix_def)
  ultimately show ?thesis using rows prefix_order.trans by fastforce
qed

text \<open>The work-stealing queue may deliver out of order but never twice and never rows of
  another table: the multiset of rows sent is contained in the table's rows from the initial
  offset on, and equals it when the reader finished undisturbed and every job has run.\<close>

lemma unordered_read_delivers_rows_once:
  assumes run: "run cfg is (new_reader rr offset (Some md) tx check now) = (r, es, reason)"
    and honest: "\<forall>i \<in> set is. honest_server sl (int (length tbl)) i"
    and serves: "serves_table (rc_ipc cfg) md sl rows tbl"
    and offset: "0 \<le> sint offset" "sint offset \<le> int (length tbl)"
    and queue: "pool_reach q" "ps_pushed q = jobs es"
  shows "mset (delivered (rc_ipc cfg) rows (ps_finished q)) \<subseteq># mset (drop (nat (sint offset)) tbl)
    \<and> ((\<forall>i \<in> set is. undisturbed i) \<and> reason = Some Finished \<and> clean es
          \<and> length (ps_finished q) = length (ps_pushed q)
        \<longrightarrow> mset (delivered (rc_ipc cfg) rows (ps_finished q)) = mset (drop (nat (sint offset)) tbl))"
proof -
  note rows = jobs_delivered [OF run honest serves offset]
  have "mset (delivered (rc_ipc cfg) rows (ps_finished q)) \<subseteq># mset (delivered (rc_ipc cfg) rows (jobs es))"
    using ws.outputs_subset [OF queue(1), of "job_rows (rc_ipc cfg) rows"] queue(2)
    by (simp add: delivered_def)
  moreover have "mset (delivered (rc_ipc cfg) rows (jobs es)) \<subseteq># mset (drop (nat (sint offset)) tbl)"
    using rows(1) by (auto simp: prefix_def)
  moreover have "mset (delivered (rc_ipc cfg) rows (ps_finished q)) = mset (delivered (rc_ipc cfg) rows (jobs es))"
    if "length (ps_finished q) = length (ps_pushed q)"
    using ws.outputs_complete [OF queue(1) that, of "job_rows (rc_ipc cfg) rows"] queue(2)
    by (simp add: delivered_def)
  ultimately show ?thesis using rows(2) by (metis subset_mset.order_trans)
qed

section \<open>A server that only fails\<close>

text \<open>Every attempt fails before the first message.\<close>

definition dead :: "step_in \<Rightarrow> bool" where
  "dead i \<longleftrightarrow> (\<forall>req items. in_send i req = Inr items \<longrightarrow>
     (case items of Inl err # rest \<Rightarrow> True | _ \<Rightarrow> False))"

text \<open>The failures counted since the last message, and how many transitions are left at most.\<close>

definition counted :: "nat \<Rightarrow> reader \<Rightarrow> bool" where
  "counted n r \<longleftrightarrow> (case rd_state r of
     Connecting off rs \<Rightarrow> unat (rs_attempt_count rs) \<le> n
   | Backoff off rs d \<Rightarrow> unat (rs_attempt_count rs) \<le> n
   | Reading off rs items \<Rightarrow>
       (case rs of Some rs \<Rightarrow> unat (rs_attempt_count rs) \<le> n | None \<Rightarrow> False)
       \<and> (case items of Inl err # rest \<Rightarrow> True | _ \<Rightarrow> False)
   | Terminated reason \<Rightarrow> True)"

definition attempts_left :: "nat \<Rightarrow> reader \<Rightarrow> nat" where
  "attempts_left n r = (case rd_state r of
     Connecting off rs \<Rightarrow> 3 * (n - unat (rs_attempt_count rs)) + 1
   | Backoff off rs d \<Rightarrow> 3 * (n - unat (rs_attempt_count rs)) + 2
   | Reading off rs items \<Rightarrow> 3 * (n - unat (rs_attempt_count (unwrap_or (new_retry_state 0 True) rs)))
   | Terminated reason \<Rightarrow> 0)"

lemma unat_Suc_u32: "unat (c :: u32) < 2 ^ 32 - 1 \<Longrightarrow> unat (c + 1) = Suc (unat c)"
  by (simp add: unat_word_ariths)

lemma fail_with_terminated [simp]: "fail_with err r = (r', es) \<Longrightarrow> is_terminated r'"
  by (auto simp: fail_with_eq is_terminated_def)

lemma handle_error_counts:
  assumes lim: "attempt_limited (src_retry_policy (rc_retry cfg)) n"
    and c: "unat (rs_attempt_count rs) \<le> n" "n < 2 ^ 32 - 1"
    and h: "handle_error cfg i off rs err r = (r', es)"
  shows "is_terminated r' \<or> (\<exists>rs' d. rd_state r' = Backoff off rs' d
    \<and> unat (rs_attempt_count rs) < unat (rs_attempt_count rs') \<and> unat (rs_attempt_count rs') \<le> n)"
proof -
  define rs1 where "rs1 = rs\<lparr>rs_attempt_count := rs_attempt_count rs + 1\<rparr>"
  define flow where "flow = rp_on_error (src_retry_policy (rc_retry cfg)) (in_now i) rs1 err"
  have c1: "unat (rs_attempt_count rs1) = Suc (unat (rs_attempt_count rs))"
    using c by (simp add: rs1_def unat_Suc_u32)
  show ?thesis
  proof (cases flow)
    case (Continue e)
    then have lt: "unat (rs_attempt_count rs1) < n"
      using lim unfolding attempt_limited_def flow_def by (meson not_le)
    then have c2: "unat (rs_attempt_count rs1 + 1) = Suc (unat (rs_attempt_count rs1))"
      using c(2) by (intro unat_Suc_u32) linarith
    from h Continue show ?thesis
      unfolding handle_error_def Let_def flow_def rs1_def [symmetric]
      using c1 c2 lt
      by (auto split: throttle_result.splits if_splits option.splits prod.splits simp: fail_with_eq)
  qed (use h in \<open>auto simp: handle_error_def Let_def flow_def rs1_def fail_with_eq\<close>)
qed

lemma dead_step:
  assumes lim: "attempt_limited (src_retry_policy (rc_retry cfg)) n" and n: "n < 2 ^ 32 - 1"
    and "dead i" "counted n r" "\<not> is_terminated r"
  shows "is_terminated (fst (step cfg i r))
    \<or> counted n (fst (step cfg i r)) \<and> attempts_left n (fst (step cfg i r)) < attempts_left n r"
proof (cases "in_cancelled i \<or> in_select_cancelled i")
  case True
  with assms(5) show ?thesis
    by (auto simp: step_def step_connecting_def step_backoff_def step_reading_def is_terminated_def
        split: read_state.splits)
next
  case False
  show ?thesis
  proof (cases "rd_state r")
    case (Connecting off rs)
    let ?req = "(rd_read_rows r)\<lparr>rr_offset := off\<rparr>"
    have c: "unat (rs_attempt_count rs) \<le> n" using assms(4) Connecting by (simp add: counted_def)
    show ?thesis
    proof (cases "in_send i ?req")
      case (Inr stream)
      then have "case stream of Inl err # rest \<Rightarrow> True | _ \<Rightarrow> False"
        using \<open>dead i\<close> by (auto simp: dead_def)
      with Inr Connecting False c show ?thesis
        by (simp add: step_def step_connecting_def Let_def counted_def attempts_left_def)
    next
      case (Inl err)
      obtain r' es where h: "handle_error cfg i off rs err r = (r', es)" by fastforce
      from handle_error_counts [OF lim c n h] Inl Connecting False h show ?thesis
        by (auto simp: step_def step_connecting_def Let_def counted_def attempts_left_def)
    qed
  next
    case (Backoff off rs d)
    with assms(4) False show ?thesis
      by (simp add: step_def step_backoff_def counted_def attempts_left_def)
  next
    case (Reading off rs items)
    then obtain rs0 err rest where eq: "rs = Some rs0" "items = Inl err # rest"
      and c: "unat (rs_attempt_count rs0) \<le> n"
      using assms(4) by (auto simp: counted_def split: option.splits list.splits sum.splits)
    obtain r' es where h: "handle_error cfg i off rs0 err r = (r', es)" by fastforce
    from handle_error_counts [OF lim c n h] eq Reading False h show ?thesis
      by (auto simp: step_def step_reading_def counted_def attempts_left_def)
  next
    case Terminated
    with assms(5) show ?thesis by (simp add: is_terminated_def)
  qed
qed

text \<open>Nothing is ever read from such a server.\<close>

definition dead_inv :: "reader \<times> effect list \<Rightarrow> bool" where
  "dead_inv s \<longleftrightarrow> (\<forall>j. PushJob j \<notin> set (snd s))
     \<and> (case rd_state (fst s) of
          Reading off rs items \<Rightarrow> (case items of Inl err # rest \<Rightarrow> True | _ \<Rightarrow> False)
        | Terminated reason \<Rightarrow> reason = Finished | _ \<Rightarrow> True)"

lemma dead_inv_step:
  assumes "rstep i r r' es" "dead i" "dead_inv (r, es0)"
  shows "dead_inv (r', es0 @ es)"
  using assms(1)
proof (cases rule: rstep.cases)
  case (connected offset rs stream)
  with \<open>dead i\<close> have "case stream of Inl err # rest \<Rightarrow> True | _ \<Rightarrow> False"
    by (auto simp: dead_def)
  with connected assms(3) show ?thesis by (simp add: dead_inv_def)
qed (use assms(3) in \<open>auto simp: dead_inv_def quiet_no_push learns_no_push error_message_def\<close>)

interpretation dead_items: step_invariant "rd_step cfg" dead dead_inv for cfg
  by unfold_locales (rule invariant_by_transitions, auto intro: dead_inv_step)

interpretation given_up: ranked "rd_step cfg" "\<lambda>s. is_terminated (fst s)" dead
  "\<lambda>s. attempt_limited (src_retry_policy (rc_retry cfg)) n \<and> n < 2 ^ 32 - 1 \<and> counted n (fst s)"
  "\<lambda>s. attempts_left n (fst s)" for cfg n
proof unfold_locales
  fix i :: step_in and s :: "reader \<times> effect list"
  assume "dead i" "\<not> is_terminated (fst s)"
    "attempt_limited (src_retry_policy (rc_retry cfg)) n \<and> n < 2 ^ 32 - 1 \<and> counted n (fst s)"
  with dead_step [of cfg n i "fst s"]
  show "is_terminated (fst (rd_step cfg i s)) \<or>
    (attempt_limited (src_retry_policy (rc_retry cfg)) n \<and> n < 2 ^ 32 - 1 \<and> counted n (fst (rd_step cfg i s)))
    \<and> attempts_left n (fst (rd_step cfg i s)) < attempts_left n (fst s)"
    by (simp add: rd_step_def case_prod_beta)
qed

text \<open>C11: Reconnecting ends: when gax limits attempts as documented, a reader with the default
  policy whose server fails before the first message every time has terminated after at most 32
  transitions, whatever the throttler answers, and without a switch to a read session.\<close>

theorem reconnecting_ends:
  assumes limit: "\<And>p k. attempt_limited (gx_with_attempt_limit gx p k) (unat k)"
    and config: "stream_retry_config_new gx None backoff throttler = Some (rc_retry cfg)"
    and dead: "\<forall>i \<in> set is. dead i" and long: "32 \<le> length is"
    and run: "run cfg is (new_reader rr offset md tx check now) = (r, es, reason)"
  shows "reason = Some Finished \<and> (\<forall>j. PushJob j \<notin> set es)"
proof -
  let ?r = "new_reader rr offset md tx check now"
  have "src_retry_policy (rc_retry cfg) = stream_reconnect_retry_policy gx"
    using config by (simp add: stream_retry_config_new_def split: option.splits)
      (metis stream_retry_config.select_convs(1))+
  then have "attempt_limited (src_retry_policy (rc_retry cfg)) 10"
    using limit [of "retryable_errors gx" STREAM_RECONNECT_MAX_ATTEMPTS]
    by (simp add: stream_reconnect_retry_policy_def STREAM_RECONNECT_MAX_ATTEMPTS_def)
  moreover have "counted 10 ?r" "attempts_left 10 ?r = 31"
    by (simp_all add: counted_def attempts_left_def new_reader_def new_retry_state_def)
  ultimately have "is_terminated (fst (fold (rd_step cfg) is (?r, [])))"
    using given_up.finishes [of "is" cfg 10 "(?r, [])"] dead long by simp
  with run_final [OF run] obtain x where x: "rd_state r = Terminated x" "reason = Some x"
    by (auto simp: is_terminated_def split: read_state.splits)
  have "dead_inv (?r, [])" by (simp add: dead_inv_def new_reader_def)
  from dead_items.inv_run [OF dead this, of cfg] run_final(1) [OF run] x show ?thesis
    by (auto simp: dead_inv_def)
qed

section \<open>The concrete run\<close>

lemma flaky_honest: "honest_server row_slice 3 flaky_in"
  by (simp add: honest_server_def flaky_in_def flaky_send_def page_response_def row_slices)

lemma flaky_undisturbed: "undisturbed flaky_in"
  by (simp add: undisturbed_def flaky_in_def)

lemma flaky_clean: "clean flaky_effects"
  by (simp add: flaky_effects_def)

lemma flaky_jobs: "jobs flaky_effects = [row_job 0 1, row_job 1 3]"
  by (simp add: flaky_effects_def)

theorem every_row_queued_once_witness:
  "tiles row_slice 0 [row_job 0 1, row_job 1 3] 3"
  using every_row_queued_once [OF flaky_run, of row_slice 3]
  by (simp add: flaky_honest flaky_undisturbed flaky_clean flaky_jobs)

lemma decode_row_bytes:
  "sint n + int (length bs) < 2 ^ 63 \<Longrightarrow>
     decode_loop n acc (map (\<lambda>b. Inr (Some_batch (row_batch b))) bs) =
       Inr (n + of_nat (length bs), acc @ map row_batch bs)"
proof (induction bs arbitrary: n acc)
  case (Cons b bs)
  then have add: "checked_add_i64 n 1 = Some (n + 1)"
    using sint_i64_range(1) [of n] by (simp add: checked_add_i64_def)
  then have "sint (n + 1) = sint n + 1" by (auto dest: checked_add_i64_Some)
  with add Cons.prems Cons.IH [of "n + 1" "acc @ [row_batch b]"] show ?case
    by (simp add: row_batch_def add.assoc)
qed simp

lemma row_batch_rows: "batch_rows (row_batch b) = [ucast b]"
  by (simp add: batch_rows_def row_batch_def)

lemma three_rows_upt: "three_rows = map of_nat [0..<3]"
  by (simp add: three_rows_def upt_conv_Cons)

lemma row_serves: "serves_table row_ipc row_metadata row_slice batch_rows three_rows"
  unfolding serves_table_def
proof (intro allI impI)
  fix a :: int and n :: i64
  assume *: "0 \<le> a \<and> a \<le> int (length three_rows) \<and> a < a + sint n \<and> a + sint n \<le> int (length three_rows)"
  then have bounds: "0 \<le> a" "0 < sint n" "a + sint n \<le> 3" by (auto simp: three_rows_def)
  define k m where "k = nat a" and "m = nat (sint n)"
  have n: "n = of_nat m" using bounds by (intro signed_word_eqI) (simp add: m_def)
  have len: "length (row_slice a (a + sint n)) = m"
    using bounds by (simp add: row_slice_def m_def)
  have dec: "decode_arrow_record_batches row_ipc (row_slice a (a + sint n)) n row_metadata =
      Inr (map row_batch (row_slice a (a + sint n)))"
  proof -
    have "int m \<le> 3" using bounds by (simp add: m_def)
    with decode_row_bytes [of 0 "row_slice a (a + sint n)" "[]"] len
    have "decode_loop 0 [] (map (\<lambda>b. Inr (Some_batch (row_batch b))) (row_slice a (a + sint n))) =
        Inr (n, map row_batch (row_slice a (a + sint n)))"
      by (simp add: n)
    then show ?thesis by (simp add: decode_arrow_record_batches_def row_ipc_def)
  qed
  have slice: "row_slice a (a + sint n) = map of_nat [k..<k + m]"
    using bounds by (simp add: row_slice_def k_def m_def nat_add_distrib)
  have "concat (map batch_rows (map row_batch (row_slice a (a + sint n)))) =
      map (\<lambda>j. ucast (of_nat j :: 8 word)) [k..<k + m]"
    using slice by (simp add: row_batch_rows comp_def)
  also have "\<dots> = map of_nat [k..<k + m]"
  proof (rule map_cong [OF refl])
    fix j assume "j \<in> set [k..<k + m]"
    then have "j < 3" using bounds by (auto simp: k_def m_def)
    then have "j = 0 \<or> j = 1 \<or> j = 2" by linarith
    then show "ucast (of_nat j :: 8 word) = (of_nat j :: i64)" by (elim disjE) simp_all
  qed
  also have "\<dots> = take m (drop k three_rows)"
  proof -
    have "k + m \<le> 3" using bounds by (simp add: k_def m_def)
    then show ?thesis unfolding three_rows_upt by (simp add: take_map drop_map del: upt_Suc)
  qed
  finally have "concat (map batch_rows (map row_batch (row_slice a (a + sint n)))) =
      take m (drop k three_rows)" .
  with dec show "\<exists>bs. decode_arrow_record_batches row_ipc (row_slice a (a + sint n)) n row_metadata = Inr bs
      \<and> concat (map batch_rows bs) = take (nat (sint n)) (drop (nat a) three_rows)"
    by (simp add: k_def m_def)
qed

lemma row_serves_default: "serves_table (rc_ipc flaky_cfg) row_metadata row_slice batch_rows three_rows"
  using row_serves by (simp add: flaky_cfg_def)

lemma three_rows_length: "int (length three_rows) = 3"
  by (simp add: three_rows_def)

text \<open>Both queues hold the two payloads; one worker has run them.\<close>

definition flaky_queue :: "decode_job queue_system" where
  "flaky_queue = qs_work 0 (qs_work 0 (qs_work 0 (qs_work 0
     (qs_push (row_job 1 3) (qs_push (row_job 0 1) qs_init)))))"

lemmas queue_defs = qs_push_def qs_init_def oq_push_def oq_new_def qs_work_def oq_pop_def

lemma flaky_queue: "queue_reach flaky_queue" "qs_pushed flaky_queue = [row_job 0 1, row_job 1 3]"
  "qs_finished flaky_queue = [row_job 0 1, row_job 1 3]"
  unfolding flaky_queue_def by (intro queue_reach.intros) (simp_all add: queue_defs)

lemma ordered_read_delivers_table_at_work:
  "delivered row_ipc batch_rows (qs_finished flaky_queue) = [0, 1, 2]"
  using ordered_read_delivers_table
    [OF flaky_run _ row_serves_default _ _ flaky_queue(1)]
  by (simp add: three_rows_length flaky_honest flaky_queue flaky_jobs flaky_undisturbed flaky_clean)
    (simp add: flaky_cfg_def three_rows_def)

definition flaky_pool :: "decode_job pool_system" where
  "flaky_pool = ps_finish 0 (ps_finish 1 (ps_push (row_job 1 3) (ps_push (row_job 0 1) ps_init)))"

lemma flaky_pool: "pool_reach flaky_pool" "ps_pushed flaky_pool = [row_job 0 1, row_job 1 3]"
  "ps_finished flaky_pool = [row_job 1 3, row_job 0 1]"
  unfolding flaky_pool_def
  by (intro pool_reach.intros) (simp_all add: ps_push_def ps_finish_def ps_init_def)

lemma unordered_read_delivers_rows_once_at_work:
  "mset (delivered row_ipc batch_rows [row_job 1 3, row_job 0 1]) = {#0, 1, 2#}"
  using unordered_read_delivers_rows_once
    [OF flaky_run _ row_serves_default _ _ flaky_pool(1)]
  by (simp add: three_rows_length flaky_honest flaky_pool flaky_jobs flaky_undisturbed flaky_clean)
    (simp add: flaky_cfg_def three_rows_def)

text \<open>A server that is down: every request fails with an error that is retried.\<close>

definition down_run :: "reader \<times> effect list \<times> termination_reason option" where
  "down_run = run flaky_cfg (replicate 32 (failing_in lost_connection))
     (new_reader rows_request 0 None True None 0)"

theorem reconnecting_ends_witness:
  "snd (snd down_run) = Some Finished"
proof -
  obtain r es reason where run: "down_run = (r, es, reason)" by (cases down_run)
  have limit: "attempt_limited (gx_with_attempt_limit gax_ref p k) (unat k)" for p k
    using limit_attempts_limited by (simp add: gax_ref_def)
  have "\<forall>i \<in> set (replicate 32 (failing_in lost_connection)). dead i"
    by (simp add: dead_def failing_in_def)
  from reconnecting_ends [OF limit flaky_cfg_is_default this _ run [unfolded down_run_def]]
  have "reason = Some Finished" by simp
  then show ?thesis unfolding run by simp
qed

end
