(* ===== verification/Read_Stream_Diagram.thy ===== *)
theory Read_Stream_Diagram
  imports Read_Stream_Proofs Read_Stream_Scenario
begin

text \<open>
  The reader against the state diagram in the head of \<open>bigquery_read_stream.rs\<close>: the phases, the
  edges drawn there, and which transitions the code takes.
\<close>

datatype phase = PConnecting | PBackoff | PReading | PTerminated

fun phase_of :: "read_state \<Rightarrow> phase" where
  "phase_of (Connecting _ _) = PConnecting"
| "phase_of (Backoff _ _ _) = PBackoff"
| "phase_of (Reading _ _ _) = PReading"
| "phase_of (Terminated _) = PTerminated"

text \<open>The edges drawn, and staying in a phase while messages arrive or after the end.\<close>

definition drawn_edges :: "(phase \<times> phase) set" where
  "drawn_edges =
     {(PConnecting, PReading), (PConnecting, PBackoff), (PConnecting, PTerminated),
      (PBackoff, PConnecting), (PReading, PBackoff), (PReading, PTerminated),
      (PReading, PReading), (PTerminated, PTerminated)}"

lemma phase_terminated: "is_terminated r \<longleftrightarrow> phase_of (rd_state r) = PTerminated"
  by (cases "rd_state r") (simp_all add: is_terminated_def)

lemma backoff_step:
  assumes "phase_of (rd_state r) = PBackoff"
  shows "phase_of (rd_state (fst (step cfg i r))) =
    (if in_cancelled i \<or> in_select_cancelled i then PTerminated else PConnecting)"
  using assms by (cases "rd_state r") (simp_all add: step_def step_backoff_def)

lemma rstep_edges:
  assumes "rstep i r r' es" "phase_of (rd_state r) \<noteq> PBackoff"
  shows "(phase_of (rd_state r), phase_of (rd_state r')) \<in> drawn_edges
    \<and> (phase_of (rd_state r) = PReading \<longrightarrow> (\<forall>o' rs' rest. rd_state r' = Reading o' rs' rest \<longrightarrow> rs' = None))"
  using assms
proof cases
  case retry
  then show ?thesis by (auto simp: failed_at_def drawn_edges_def)
qed (cases "rd_state r"; force simp: drawn_edges_def phase_terminated)+

text \<open>C36: The reader takes only the transitions drawn in the module's diagram and one more: a reader that
  backs off terminates exactly when it is cancelled, which the diagram does not draw. The retry
  state is forgotten with the first message.\<close>

theorem reader_follows_diagram:
  "(phase_of (rd_state r), phase_of (rd_state (fst (step cfg i r)))) \<in> drawn_edges \<union> {(PBackoff, PTerminated)}
   \<and> (phase_of (rd_state r) = PBackoff \<longrightarrow>
        (phase_of (rd_state (fst (step cfg i r))) = PTerminated \<longleftrightarrow> in_cancelled i \<or> in_select_cancelled i))
   \<and> (phase_of (rd_state r) = PReading \<longrightarrow>
        (\<forall>o' rs' rest. rd_state (fst (step cfg i r)) = Reading o' rs' rest \<longrightarrow> rs' = None))"
proof (cases "phase_of (rd_state r) = PBackoff")
  case True
  with backoff_step [OF True, of cfg i] show ?thesis by (simp add: drawn_edges_def)
next
  case False
  from rstep_edges [OF step_rstep False] False show ?thesis by blast
qed

text \<open>A cancelled reader that waits to reconnect.\<close>

text \<open>A reader that waits to reconnect and is cancelled.\<close>

lemma reader_follows_diagram_witness:
  "phase_of (rd_state (fst (step flaky_cfg (flaky_in\<lparr>in_cancelled := True\<rparr>)
     (flaky_at (Backoff 7 (new_retry_state 0 True) 100))))) = PTerminated"
  using reader_follows_diagram [of "flaky_at (Backoff 7 (new_retry_state 0 True) 100)" flaky_cfg
      "flaky_in\<lparr>in_cancelled := True\<rparr>"]
  by simp

end
