(* ===== verification/Api.thy ===== *)
theory Api
  imports Read_Stream
begin

text \<open>
  The remote procedures of the two BigQuery APIs as the code uses them: the requests it builds,
  the parts of the replies it reads, and the services. A service is an argument of the model that
  answers from the log of all calls made before, so that an answer may depend on everything
  that happened; operations thread the log, which shows which calls they make and in which order.
\<close>

section \<open>Remote procedures\<close>

text \<open>The options of a call that the code sets; None where it leaves the default.\<close>

record call_options =
  co_quota_project :: "string option"
  co_user_agent :: "string option"
  co_idempotent :: "bool option"
  co_retry_policy :: "retry_policy option"
  co_backoff_policy :: "backoff_policy option"
  co_retry_throttler :: "nat option"

definition no_options :: call_options where
  "no_options = \<lparr>co_quota_project = None, co_user_agent = None, co_idempotent = None,
     co_retry_policy = None, co_backoff_policy = None, co_retry_throttler = None\<rparr>"

text \<open>A timestamp of the well-known types is seconds and nanoseconds.\<close>

type_synonym timestamp = "i64 \<times> i32"

record read_session_request =
  rq_table :: string
  rq_arrow_format :: bool
  rq_snapshot_time :: "timestamp option"
  rq_selected_fields :: "string list"
  rq_row_restriction :: string
  rq_sample_percentage :: "f64_bits option"
  rq_buffer_compression :: compression_codec

record create_read_session_request =
  cr_parent :: string
  cr_max_stream_count :: i32
  cr_read_session :: read_session_request

record read_session_reply =
  rs_schema :: "schema_payload option"
  rs_stream_names :: "string list"

record get_job_request =
  gj_project_id :: string
  gj_job_id :: string
  gj_location :: "string option"

section \<open>Jobs and queries\<close>

text \<open>Of each message the fields the code reads or sets. A missing string is empty.\<close>

record table_reference =
  tr_project_id :: string
  tr_dataset_id :: string
  tr_table_id :: string

record job_status =
  js_error_result :: "error_proto option"
  js_errors :: "error_proto list"

record query_statistics =
  st_statement_type :: string
  st_ddl_operation_performed :: string

text \<open>
  The destination table sits two optional messages deep in the configuration, the query
  statistics one; \<open>jb_configuration\<close> and \<open>jb_statistics\<close> keep the nesting.
\<close>

record job =
  jb_configuration :: "table_reference option option option"
  jb_status :: "job_status option"
  jb_statistics :: "query_statistics option option"

datatype v2_codec =
    V2CompressionUnspecified | V2Lz4Frame | V2Zstd
  | V2UnknownValue i32 | V2UnknownName string

record query_request =
  qq_query :: string
  qq_use_legacy_sql :: "bool option"
  qq_request_id :: string
  qq_dry_run :: bool
  qq_job_creation_optional :: bool
  qq_arrow_results :: bool
  qq_arrow_compression :: "v2_codec option"
  qq_use_query_cache :: "bool option"
  qq_timeout_ms :: "u32 option"

record job_reference =
  jr_project_id :: string
  jr_job_id :: string
  jr_location :: "string option"

text \<open>The BigQuery schema of a response is only serialized: it is what serde returns for it.\<close>

record query_response =
  qr_job_complete :: "bool option"
  qr_results_schema :: "schema_payload option"
  qr_results :: "rows_payload option"
  qr_page_row_count :: i64
  qr_total_rows :: "u64 option"
  qr_page_token :: string
  qr_statement_type :: string
  qr_job_reference :: "job_reference option"
  qr_location :: string
  qr_schema :: "(std_error, string) res option"
  qr_total_bytes_processed :: "i64 option"
  qr_cache_hit :: "bool option"
  qr_creation_time :: "i64 option"

section \<open>Services\<close>

datatype rpc =
    CreateReadSession create_read_session_request call_options
  | GetJob get_job_request call_options
  | RunQuery string query_request call_options

record services =
  sv_create_read_session :: "rpc list \<Rightarrow> create_read_session_request \<Rightarrow> (gax_error, read_session_reply) res"
  sv_get_job :: "rpc list \<Rightarrow> get_job_request \<Rightarrow> (gax_error, job) res"
  sv_query :: "rpc list \<Rightarrow> query_request \<Rightarrow> (gax_error, query_response) res"

text \<open>
  Operations that call: \<open>io_bind\<close> is the question mark operator after an await. A call appends to
  the log and asks the service about the log before it.
\<close>

type_synonym 'a io = "rpc list \<Rightarrow> (bq_error, 'a) res \<times> rpc list"

definition io_return :: "'a \<Rightarrow> 'a io" where "io_return a = (\<lambda>log. (Inr a, log))"
definition io_lift :: "(bq_error, 'a) res \<Rightarrow> 'a io" where "io_lift r = (\<lambda>log. (r, log))"

definition io_bind :: "'a io \<Rightarrow> ('a \<Rightarrow> 'b io) \<Rightarrow> 'b io" where
  "io_bind m f = (\<lambda>log. case m log of (Inl e, log') \<Rightarrow> (Inl e, log') | (Inr a, log') \<Rightarrow> f a log')"

definition call ::
  "('req \<Rightarrow> call_options \<Rightarrow> rpc) \<Rightarrow> (rpc list \<Rightarrow> 'req \<Rightarrow> (gax_error, 'a) res) \<Rightarrow>
     (gax_error \<Rightarrow> bq_error) \<Rightarrow> 'req \<Rightarrow> call_options \<Rightarrow> 'a io" where
  "call kind service err req options =
     (\<lambda>log. (rmap_err err (service log req), log @ [kind req options]))"

lemma io_simps [simp]:
  "io_return a log = (Inr a, log)"
  "io_lift r log = (r, log)"
  "io_bind (io_lift (Inr a)) f = f a"
  "io_bind (io_lift (Inl e)) f = io_lift (Inl e)"
  by (simp_all add: io_return_def io_lift_def io_bind_def)

end
