(* ===== verification/Table_Id.thy ===== *)
theory Table_Id
  imports Bq_Error
begin

text \<open>
  Table identifiers (\<open>crates/arrow-bigquery/src/lib.rs\<close>): the record, its two renderings, and
  the parser, with the winnow combinators it is built from in the order the code applies them.
  The lemmas show that parsing and displaying are inverse to each other on exactly the
  well-formed identifiers, and that the resource path determines the identifier.
\<close>

section \<open>Identifiers and their renderings\<close>

record table_id =
  project_id :: string
  dataset_id :: string
  tbl_id :: string

definition new_table_id :: "string \<Rightarrow> string \<Rightarrow> string \<Rightarrow> table_id" where
  "new_table_id p d t = \<lparr>project_id = p, dataset_id = d, tbl_id = t\<rparr>"

definition to_table_path :: "table_id \<Rightarrow> string" where
  "to_table_path i =
     ''projects/'' @ project_id i @ ''/datasets/'' @ dataset_id i @ ''/tables/'' @ tbl_id i"

definition table_id_display :: "table_id \<Rightarrow> string" where
  "table_id_display i = project_id i @ ''.'' @ dataset_id i @ ''.'' @ tbl_id i"

definition invalid_table_id :: bq_error where
  "invalid_table_id = Other (StdError ''invalid table id'' None None)"

section \<open>The parser\<close>

text \<open>
  The parser is built from the combinators of the winnow crate, which are an argument of the
  model: \<open>w_take_while1 p\<close> is \<open>take_while(1.., p)\<close>, \<open>w_char c\<close> is the character parser,
  \<open>w_separated n p q\<close> is \<open>separated(n.., p, q)\<close>. A parser returns its value and the rest of the
  input, or None when it backtracks.
\<close>

type_synonym 'a parser = "string \<Rightarrow> ('a \<times> string) option"

record winnow =
  w_take_while1 :: "(char \<Rightarrow> bool) \<Rightarrow> string parser"
  w_char :: "char \<Rightarrow> char parser"
  w_terminated :: "string parser \<Rightarrow> char parser \<Rightarrow> string parser"
  w_opt :: "string parser \<Rightarrow> string option parser"
  w_separated :: "nat \<Rightarrow> string parser \<Rightarrow> char parser \<Rightarrow> string list parser"
  w_eof :: "string parser"

definition parse_table_id :: "winnow \<Rightarrow> string \<Rightarrow> table_id option" where
  "parse_table_id w s =
     (case w_opt w (w_terminated w (w_take_while1 w (\<lambda>c. c \<noteq> CHR '':'')) (w_char w CHR '':'')) s of
        None \<Rightarrow> None
      | Some (domain, s1) \<Rightarrow>
     (case w_take_while1 w (\<lambda>c. c \<noteq> CHR ''.'' \<and> c \<noteq> CHR '':'') s1 of
        None \<Rightarrow> None
      | Some (project, s2) \<Rightarrow>
     (case w_char w CHR ''.'' s2 of
        None \<Rightarrow> None
      | Some (_, s3) \<Rightarrow>
     (case w_separated w 2 (w_take_while1 w (\<lambda>c. c \<noteq> CHR ''.'')) (w_char w CHR ''.'') s3 of
        None \<Rightarrow> None
      | Some (parts, s4) \<Rightarrow>
     (case w_eof w s4 of
        None \<Rightarrow> None
      | Some _ \<Rightarrow>
          Some \<lparr>project_id = (case domain of Some d \<Rightarrow> d @ '':'' @ project | None \<Rightarrow> project),
                dataset_id = join ''.'' (butlast parts), tbl_id = last parts\<rparr>)))))"

definition table_id_from_str :: "winnow \<Rightarrow> string \<Rightarrow> (bq_error, table_id) res" where
  "table_id_from_str w s =
     (if CHR 0x60 \<in> set s \<or> CHR ''/'' \<in> set s then Inl invalid_table_id
      else case parse_table_id w s of None \<Rightarrow> Inl invalid_table_id | Some i \<Rightarrow> Inr i)"

text \<open>
  What winnow documents. \<open>sep_rest p q s xs r\<close>: after an element, the separator and element
  parsers alternate on \<open>s\<close>, giving \<open>xs\<close> and leaving \<open>r\<close>; a separator that no element follows is
  not consumed. The law for \<open>separated\<close> is only needed for element parsers that consume input.
\<close>

inductive sep_rest :: "'a parser \<Rightarrow> 'b parser \<Rightarrow> string \<Rightarrow> 'a list \<Rightarrow> string \<Rightarrow> bool" for p q where
  no_sep: "q s = None \<Longrightarrow> sep_rest p q s [] s"
| no_elem: "q s = Some (c, r) \<Longrightarrow> p r = None \<Longrightarrow> sep_rest p q s [] s"
| elem: "q s = Some (c, r) \<Longrightarrow> p r = Some (x, r') \<Longrightarrow> sep_rest p q r' xs r'' \<Longrightarrow>
    sep_rest p q s (x # xs) r''"

definition consuming :: "'a parser \<Rightarrow> bool" where
  "consuming p \<longleftrightarrow> (\<forall>s x r. p s = Some (x, r) \<longrightarrow> length r < length s)"

definition winnow_spec :: "winnow \<Rightarrow> bool" where
  "winnow_spec w \<longleftrightarrow>
     (\<forall>p s. w_take_while1 w p s =
        (if takeWhile p s = [] then None else Some (takeWhile p s, dropWhile p s)))
     \<and> (\<forall>c s. w_char w c s = (case s of [] \<Rightarrow> None | x # r \<Rightarrow> if x = c then Some (x, r) else None))
     \<and> (\<forall>p q s. w_terminated w p q s = (case p s of None \<Rightarrow> None
        | Some (x, r) \<Rightarrow> (case q r of None \<Rightarrow> None | Some (_, r') \<Rightarrow> Some (x, r'))))
     \<and> (\<forall>p s. w_opt w p s = (case p s of None \<Rightarrow> Some (None, s) | Some (x, r) \<Rightarrow> Some (Some x, r)))
     \<and> (\<forall>s. w_eof w s = (if s = [] then Some ([], []) else None))
     \<and> (\<forall>n p q s. consuming p \<longrightarrow> consuming q \<longrightarrow> p s = None \<longrightarrow> 0 < n \<longrightarrow> w_separated w n p q s = None)
     \<and> (\<forall>n p q s x r xs r'. consuming p \<longrightarrow> consuming q \<longrightarrow> p s = Some (x, r) \<longrightarrow> sep_rest p q r xs r' \<longrightarrow>
        w_separated w n p q s = (if length (x # xs) < n then None else Some (x # xs, r')))"

text \<open>An implementation of these laws, to evaluate the parser with.\<close>

fun sep_fuel :: "nat \<Rightarrow> 'a parser \<Rightarrow> 'b parser \<Rightarrow> string \<Rightarrow> 'a list \<times> string" where
  "sep_fuel 0 p q s = ([], s)"
| "sep_fuel (Suc n) p q s =
     (case q s of
        None \<Rightarrow> ([], s)
      | Some (_, r) \<Rightarrow>
          (case p r of
             None \<Rightarrow> ([], s)
           | Some (x, r') \<Rightarrow> (case sep_fuel n p q r' of (xs, r'') \<Rightarrow> (x # xs, r''))))"

definition winnow_ref :: winnow where
  "winnow_ref =
     \<lparr>w_take_while1 = (\<lambda>p s.
        if takeWhile p s = [] then None else Some (takeWhile p s, dropWhile p s)),
      w_char = (\<lambda>c s. case s of [] \<Rightarrow> None | x # r \<Rightarrow> if x = c then Some (x, r) else None),
      w_terminated = (\<lambda>p q s. case p s of None \<Rightarrow> None
        | Some (x, r) \<Rightarrow> (case q r of None \<Rightarrow> None | Some (_, r') \<Rightarrow> Some (x, r'))),
      w_opt = (\<lambda>p s. case p s of None \<Rightarrow> Some (None, s) | Some (x, r) \<Rightarrow> Some (Some x, r)),
      w_separated = (\<lambda>n p q s. case p s of None \<Rightarrow> if n = 0 then Some ([], s) else None
        | Some (x, r) \<Rightarrow> (case sep_fuel (length r) p q r of (xs, r') \<Rightarrow>
            if length (x # xs) < n then None else Some (x # xs, r'))),
      w_eof = (\<lambda>s. if s = [] then Some ([], []) else None)\<rparr>"

lemma sep_rest_fuel:
  "sep_rest p q s xs r \<Longrightarrow> consuming p \<Longrightarrow> consuming q \<Longrightarrow> length s \<le> n \<Longrightarrow> sep_fuel n p q s = (xs, r)"
proof (induction arbitrary: n rule: sep_rest.induct)
  case (no_sep s)
  then show ?case by (cases n) simp_all
next
  case (no_elem s c r)
  then show ?case by (cases n) simp_all
next
  case (elem s c r x r' xs r'')
  then have "length r < length s" "length r' < length r"
    by (auto simp: consuming_def)
  with elem show ?case by (cases n) simp_all
qed

lemma winnow_ref_spec: "winnow_spec winnow_ref"
  by (auto simp: winnow_spec_def winnow_ref_def sep_rest_fuel)

section \<open>Well-formed identifiers\<close>

fun split_on :: "char \<Rightarrow> string \<Rightarrow> string list" where
  "split_on c [] = [[]]"
| "split_on c (x # xs) =
     (if x = c then [] # split_on c xs
      else (case split_on c xs of [] \<Rightarrow> [[x]] | y # ys \<Rightarrow> (x # y) # ys))"

definition plain_part :: "string \<Rightarrow> bool" where
  "plain_part x \<longleftrightarrow> x \<noteq> [] \<and> CHR ''.'' \<notin> set x"

definition plain_project :: "string \<Rightarrow> bool" where
  "plain_project p \<longleftrightarrow> plain_part p \<and> CHR '':'' \<notin> set p"

text \<open>
  A project is plain, and then no colon occurs anywhere, or it is a non-empty legacy domain, a
  colon and a plain project. A data set is a dot-separated list of non-empty parts, a table is
  one such part. Backtick and slash occur nowhere.
\<close>

definition wf_table_id :: "table_id \<Rightarrow> bool" where
  "wf_table_id i \<longleftrightarrow>
     CHR 0x60 \<notin> set (table_id_display i) \<and> CHR ''/'' \<notin> set (table_id_display i)
     \<and> (let d = takeWhile (\<lambda>c. c \<noteq> CHR '':'') (project_id i);
             r = dropWhile (\<lambda>c. c \<noteq> CHR '':'') (project_id i)
         in if r = []
            then plain_project (project_id i)
                 \<and> CHR '':'' \<notin> set (dataset_id i) \<and> CHR '':'' \<notin> set (tbl_id i)
            else d \<noteq> [] \<and> plain_project (tl r))
     \<and> (\<forall>x \<in> set (split_on CHR ''.'' (dataset_id i)). x \<noteq> [])
     \<and> plain_part (tbl_id i)"

section \<open>What the combinators do under their laws\<close>

lemma winnow_laws:
  assumes "winnow_spec w"
  shows "w_take_while1 w p s = (if takeWhile p s = [] then None else Some (takeWhile p s, dropWhile p s))"
    and "w_char w c s = (case s of [] \<Rightarrow> None | x # r \<Rightarrow> if x = c then Some (x, r) else None)"
    and "w_terminated w f g s = (case f s of None \<Rightarrow> None
        | Some (x, r) \<Rightarrow> (case g r of None \<Rightarrow> None | Some (_, r') \<Rightarrow> Some (x, r')))"
    and "w_opt w f s = (case f s of None \<Rightarrow> Some (None, s) | Some (x, r) \<Rightarrow> Some (Some x, r))"
    and "w_eof w s = (if s = [] then Some ([], []) else None)"
  using assms by (simp_all only: winnow_spec_def)

lemma consuming_char: "winnow_spec w \<Longrightarrow> consuming (w_char w c)"
  by (auto simp: consuming_def winnow_laws split: list.splits if_splits)

lemma consuming_take_while1: "winnow_spec w \<Longrightarrow> consuming (w_take_while1 w p)"
proof -
  have "takeWhile p s \<noteq> [] \<Longrightarrow> length (dropWhile p s) < length s" for s
    by (cases s) (auto simp: less_Suc_eq_le length_dropWhile_le split: if_splits)
  then show "winnow_spec w \<Longrightarrow> consuming (w_take_while1 w p)"
    by (auto simp: consuming_def winnow_laws split: if_splits)
qed

lemma separated_laws:
  assumes "winnow_spec w" "consuming p" "consuming q"
  shows "p s = None \<Longrightarrow> 0 < n \<Longrightarrow> w_separated w n p q s = None"
    and "p s = Some (x, r) \<Longrightarrow> sep_rest p q r xs r' \<Longrightarrow>
       w_separated w n p q s = (if length (x # xs) < n then None else Some (x # xs, r'))"
  using assms unfolding winnow_spec_def by blast+

lemma sep_rest_total: "consuming p \<Longrightarrow> consuming q \<Longrightarrow> \<exists>xs r. sep_rest p q s xs r"
proof (induction s rule: length_induct)
  case (1 s)
  show ?case
  proof (cases "q s")
    case None
    then show ?thesis by (blast intro: sep_rest.no_sep)
  next
    case (Some cr)
    then obtain c r where q: "q s = Some (c, r)" by (cases cr) auto
    show ?thesis
    proof (cases "p r")
      case None
      with q show ?thesis by (blast intro: sep_rest.no_elem)
    next
      case (Some xr)
      then obtain x r' where p: "p r = Some (x, r')" by (cases xr) auto
      from q p "1.prems" have "length r' < length s"
        unfolding consuming_def by (meson order.strict_trans)
      with "1.IH" "1.prems" obtain xs r'' where "sep_rest p q r' xs r''" by blast
      with q p show ?thesis by (blast intro: sep_rest.elem)
    qed
  qed
qed

section \<open>Lists of dotted parts\<close>

lemma join_snoc: "xs \<noteq> [] \<Longrightarrow> join sep (xs @ [y]) = join sep xs @ sep @ y"
proof (induction xs)
  case (Cons x xs)
  then show ?case by (cases xs) simp_all
qed simp

lemma join_concat: "join [c] (x # xs) = x @ concat (map ((#) c) xs)"
  by (induction xs arbitrary: x) simp_all

lemma join_split_on: "join [c] (split_on c s) = s"
proof (induction s)
  case (Cons x xs)
  then show ?case
    by (cases "split_on c xs") (auto simp: join_concat)
qed simp

lemma split_on_nonempty: "split_on c s \<noteq> []"
  by (induction s) (auto split: list.splits)

lemma split_on_free: "x \<in> set (split_on c s) \<Longrightarrow> c \<notin> set x"
proof (induction s arbitrary: x)
  case (Cons a s)
  then show ?case by (cases "split_on c s") (auto split: if_splits)
qed simp

lemma split_on_plain: "c \<notin> set s \<Longrightarrow> split_on c s = [s]"
  by (induction s) auto

lemma split_on_append: "c \<notin> set x \<Longrightarrow> split_on c (x @ c # s) = x # split_on c s"
  by (induction x) auto

lemma split_on_concat:
  "\<forall>y \<in> set (x # xs). c \<notin> set y \<Longrightarrow> split_on c (x @ concat (map ((#) c) xs)) = x # xs"
  by (induction xs arbitrary: x) (simp_all add: split_on_plain split_on_append)

lemma split_on_join: "xs \<noteq> [] \<Longrightarrow> \<forall>y \<in> set xs. c \<notin> set y \<Longrightarrow> split_on c (join [c] xs) = xs"
  by (cases xs) (simp_all add: join_concat split_on_concat)

lemma split_last: "parts \<noteq> [] \<Longrightarrow> butlast parts \<noteq> [] \<Longrightarrow>
    join ''.'' (butlast parts) @ ''.'' @ last parts = join ''.'' parts"
  using join_snoc [of "butlast parts" "''.''" "last parts"] by simp

section \<open>The dotted tail of an identifier\<close>

abbreviation not_dot :: "char \<Rightarrow> bool" where
  "not_dot \<equiv> \<lambda>c. c \<noteq> CHR ''.''"

lemma takeWhile_until:
  "c \<notin> set x \<Longrightarrow> takeWhile (\<lambda>a. a \<noteq> c) (x @ c # r) = x"
  "c \<notin> set x \<Longrightarrow> dropWhile (\<lambda>a. a \<noteq> c) (x @ c # r) = c # r"
  "c \<notin> set x \<Longrightarrow> takeWhile (\<lambda>a. a \<noteq> c) x = x"
  "c \<notin> set x \<Longrightarrow> dropWhile (\<lambda>a. a \<noteq> c) x = []"
  by (induction x) auto

lemma takeWhile_plain: "plain_part x \<Longrightarrow> r = [] \<or> hd r = CHR ''.'' \<Longrightarrow>
    takeWhile not_dot (x @ r) = x \<and> dropWhile not_dot (x @ r) = r"
  by (cases r) (auto simp: plain_part_def takeWhile_until)

lemma part_parser:
  assumes "winnow_spec w" "plain_part x" "r = [] \<or> hd r = CHR ''.''"
  shows "w_take_while1 w not_dot (x @ r) = Some (x, r)"
  using takeWhile_plain [OF assms(2,3)] assms(1,2) by (simp add: winnow_laws plain_part_def)

lemma sep_rest_complete:
  assumes "winnow_spec w"
  shows "\<forall>x \<in> set xs. plain_part x \<Longrightarrow>
    sep_rest (w_take_while1 w not_dot) (w_char w CHR ''.'') (concat (map ((#) CHR ''.'') xs)) xs []"
proof (induction xs)
  case Nil
  then show ?case by (auto simp: winnow_laws [OF assms] intro: sep_rest.no_sep)
next
  case (Cons x xs)
  let ?r = "concat (map ((#) CHR ''.'') xs)"
  have "?r = [] \<or> hd ?r = CHR ''.''" by (cases xs) simp_all
  with Cons.prems have "w_take_while1 w not_dot (x @ ?r) = Some (x, ?r)"
    by (simp add: part_parser [OF assms])
  with Cons show ?case
    by (auto simp: winnow_laws(2) [OF assms] intro: sep_rest.elem)
qed

lemma sep_rest_sound:
  assumes "winnow_spec w"
  shows "sep_rest (w_take_while1 w not_dot) (w_char w CHR ''.'') s xs r \<Longrightarrow>
    s = concat (map ((#) CHR ''.'') xs) @ r \<and> (\<forall>x \<in> set xs. plain_part x)"
proof (induction rule: sep_rest.induct)
  case (elem s c r x r' xs r'')
  have "s = CHR ''.'' # r"
    using elem.hyps(1) by (auto simp: winnow_laws(2) [OF assms] split: list.splits if_splits)
  moreover have "r = x @ r'" "plain_part x"
    using elem.hyps(2)
    by (auto simp: winnow_laws(1) [OF assms] plain_part_def dest: set_takeWhileD split: if_splits)
  ultimately show ?case using elem.IH by auto
qed simp_all

text \<open>\<open>separated(2.., part, '.')\<close> followed by \<open>eof\<close> accepts exactly the lists of two or more parts.\<close>

lemma separated_all_iff:
  assumes w: "winnow_spec w"
  shows "w_separated w 2 (w_take_while1 w not_dot) (w_char w CHR ''.'') s = Some (parts, [])
    \<longleftrightarrow> 2 \<le> length parts \<and> (\<forall>x \<in> set parts. plain_part x) \<and> s = join ''.'' parts"
    (is "?lhs \<longleftrightarrow> ?rhs")
proof
  note sep = separated_laws [OF w consuming_take_while1 [OF w] consuming_char [OF w]]
  assume l: ?lhs
  then obtain x r where p: "w_take_while1 w not_dot s = Some (x, r)"
    using sep(1) [of not_dot s 2] by (cases "w_take_while1 w not_dot s") auto
  obtain xs r' where rest: "sep_rest (w_take_while1 w not_dot) (w_char w CHR ''.'') r xs r'"
    using sep_rest_total [OF consuming_take_while1 [OF w] consuming_char [OF w]] by blast
  from sep(2) [OF p rest, of 2] l have eq: "parts = x # xs" "r' = []" "2 \<le> length parts"
    by (auto simp: Suc_le_eq split: if_splits)
  have "s = x @ r" "plain_part x"
    using p by (auto simp: winnow_laws(1) [OF w] plain_part_def dest: set_takeWhileD split: if_splits)
  with sep_rest_sound [OF w rest] eq show ?rhs by (auto simp: join_concat)
next
  note sep = separated_laws [OF w consuming_take_while1 [OF w] consuming_char [OF w]]
  assume r: ?rhs
  then obtain x xs where parts: "parts = x # xs" by (cases parts) auto
  let ?r = "concat (map ((#) CHR ''.'') xs)"
  have "?r = [] \<or> hd ?r = CHR ''.''" by (cases xs) simp_all
  with r parts have "w_take_while1 w not_dot s = Some (x, ?r)"
    by (simp add: join_concat part_parser [OF w])
  from sep(2) [OF this sep_rest_complete [OF w], of 2] r parts show ?lhs by (auto simp: Suc_le_eq)
qed

section \<open>Parsing and displaying are inverse\<close>

lemma two_parts: "2 \<le> length parts \<Longrightarrow> parts \<noteq> [] \<and> butlast parts \<noteq> []"
  by (cases parts; cases "tl parts") auto

lemma dotted_display:
  assumes "2 \<le> length parts"
  shows "join ''.'' (butlast parts) @ ''.'' @ last parts = join ''.'' parts"
  using two_parts [OF assms] split_last by blast

lemma wf_parts:
  assumes "\<forall>x \<in> set (split_on CHR ''.'' (dataset_id i)). x \<noteq> []" "plain_part (tbl_id i)"
  defines "parts \<equiv> split_on CHR ''.'' (dataset_id i) @ [tbl_id i]"
  shows "2 \<le> length parts \<and> (\<forall>x \<in> set parts. plain_part x)
    \<and> join ''.'' parts = dataset_id i @ ''.'' @ tbl_id i
    \<and> join ''.'' (butlast parts) = dataset_id i \<and> last parts = tbl_id i"
  using assms split_on_nonempty [of "CHR ''.''" "dataset_id i"]
  by (auto simp: parts_def plain_part_def join_snoc join_split_on Suc_le_eq dest: split_on_free)

lemma parts_wf:
  assumes "2 \<le> length parts" "\<forall>x \<in> set parts. plain_part x"
  shows "(\<forall>x \<in> set (split_on CHR ''.'' (join ''.'' (butlast parts))). x \<noteq> []) \<and> plain_part (last parts)"
proof -
  have "butlast parts \<noteq> []" "parts \<noteq> []"
    using two_parts [OF assms(1)] by auto
  moreover from this have "split_on CHR ''.'' (join ''.'' (butlast parts)) = butlast parts"
    using assms(2) by (intro split_on_join) (auto simp: plain_part_def dest: in_set_butlastD)
  ultimately show ?thesis
    using assms(2) by (auto simp: plain_part_def dest: in_set_butlastD)
qed

lemma project_parser:
  assumes "winnow_spec w"
  shows "w_take_while1 w (\<lambda>c. c \<noteq> CHR ''.'' \<and> c \<noteq> CHR '':'') s1 = Some (project, CHR ''.'' # s3)
    \<longleftrightarrow> s1 = project @ CHR ''.'' # s3 \<and> plain_project project" (is "?lhs \<longleftrightarrow> ?rhs")
proof
  let ?p = "\<lambda>c. c \<noteq> CHR ''.'' \<and> c \<noteq> CHR '':''"
  assume ?lhs
  then have "takeWhile ?p s1 = project" "dropWhile ?p s1 = CHR ''.'' # s3" "project \<noteq> []"
    by (auto simp: winnow_laws(1) [OF assms] split: if_splits)
  with takeWhile_dropWhile_id [of ?p s1] show ?rhs
    by (auto simp: plain_project_def plain_part_def dest!: set_takeWhileD)
next
  assume ?rhs
  moreover have "takeWhile (\<lambda>c. c \<noteq> CHR ''.'' \<and> c \<noteq> CHR '':'') (p @ CHR ''.'' # s) = p
      \<and> dropWhile (\<lambda>c. c \<noteq> CHR ''.'' \<and> c \<noteq> CHR '':'') (p @ CHR ''.'' # s) = CHR ''.'' # s"
    if "CHR ''.'' \<notin> set p" "CHR '':'' \<notin> set p" for p s
    using that by (induction p) auto
  ultimately show ?lhs
    by (auto simp: winnow_laws(1) [OF assms] plain_project_def plain_part_def)
qed

lemma domain_parser:
  assumes "winnow_spec w"
  defines "dom_parse \<equiv>
    w_opt w (w_terminated w (w_take_while1 w (\<lambda>c. c \<noteq> CHR '':'')) (w_char w CHR '':''))"
  shows "dom_parse s = Some (domain, s1) \<longleftrightarrow>
    (case domain of
       Some d \<Rightarrow> s = d @ CHR '':'' # s1 \<and> d \<noteq> [] \<and> CHR '':'' \<notin> set d
     | None \<Rightarrow> s = s1 \<and> (CHR '':'' \<in> set s \<longrightarrow> hd s = CHR '':''))"
proof -
  let ?n = "\<lambda>c. c \<noteq> CHR '':''"
  show ?thesis
  proof (cases "CHR '':'' \<in> set s")
    case False
    then have "s \<noteq> d @ CHR '':'' # r" for d r by auto
    with False show ?thesis
      by (auto simp: dom_parse_def winnow_laws [OF assms(1)] takeWhile_until split: option.splits)
  next
    case True
    then obtain d r where s: "s = d @ CHR '':'' # r" "CHR '':'' \<notin> set d"
      by (blast dest: split_list_first)
    have eq: "d @ CHR '':'' # r = d' @ CHR '':'' # r' \<and> CHR '':'' \<notin> set d' \<longleftrightarrow> d = d' \<and> r = r'" for d' r'
      using s(2) takeWhile_until(1) [of "CHR '':''" d r] takeWhile_until(1) [of "CHR '':''" d' r'] by auto
    show ?thesis
      by (cases d) (use s eq in \<open>auto simp: dom_parse_def winnow_laws [OF assms(1)] takeWhile_until
          split: option.splits\<close>)
  qed
qed

definition full_project :: "string option \<Rightarrow> string \<Rightarrow> string" where
  "full_project domain project =
     (case domain of Some d \<Rightarrow> d @ '':'' @ project | None \<Rightarrow> project)"

lemma parse_table_id_iff:
  assumes w: "winnow_spec w"
  shows "parse_table_id w s = Some i \<longleftrightarrow>
    (\<exists>domain project parts.
       (case domain of Some d \<Rightarrow> d \<noteq> [] \<and> CHR '':'' \<notin> set d
        | None \<Rightarrow> CHR '':'' \<in> set s \<longrightarrow> hd s = CHR '':'')
       \<and> plain_project project \<and> 2 \<le> length parts \<and> (\<forall>x \<in> set parts. plain_part x)
       \<and> s = full_project domain project @ ''.'' @ join ''.'' parts
       \<and> i = \<lparr>project_id = full_project domain project,
              dataset_id = join ''.'' (butlast parts), tbl_id = last parts\<rparr>)"
    (is "?lhs \<longleftrightarrow> ?rhs")
proof
  assume ?lhs
  then obtain domain s1 project s2 s3 parts where
    "w_opt w (w_terminated w (w_take_while1 w (\<lambda>c. c \<noteq> CHR '':'')) (w_char w CHR '':'')) s = Some (domain, s1)"
    "w_take_while1 w (\<lambda>c. c \<noteq> CHR ''.'' \<and> c \<noteq> CHR '':'') s1 = Some (project, s2)"
    "w_char w CHR ''.'' s2 = Some (CHR ''.'', s3)"
    "w_separated w 2 (w_take_while1 w not_dot) (w_char w CHR ''.'') s3 = Some (parts, [])"
    and i: "i = \<lparr>project_id = full_project domain project,
              dataset_id = join ''.'' (butlast parts), tbl_id = last parts\<rparr>"
    by (auto simp: parse_table_id_def full_project_def winnow_laws(2,5) [OF w]
        split: option.splits if_splits prod.splits list.splits)
  moreover from this(3) have "s2 = CHR ''.'' # s3"
    by (auto simp: winnow_laws(2) [OF w] split: list.splits if_splits)
  ultimately have
    "case domain of Some d \<Rightarrow> s = d @ CHR '':'' # s1 \<and> d \<noteq> [] \<and> CHR '':'' \<notin> set d
       | None \<Rightarrow> s = s1 \<and> (CHR '':'' \<in> set s \<longrightarrow> hd s = CHR '':'')"
    "s1 = project @ CHR ''.'' # s3 \<and> plain_project project"
    "2 \<le> length parts \<and> (\<forall>x \<in> set parts. plain_part x) \<and> s3 = join ''.'' parts"
    by (simp_all add: domain_parser [OF w] project_parser [OF w] separated_all_iff [OF w])
  then show ?rhs
    using i by (intro exI [of _ domain] exI [of _ project] exI [of _ parts])
      (auto simp: full_project_def split: option.splits)
next
  assume ?rhs
  then obtain domain project parts where
    d: "case domain of Some d \<Rightarrow> d \<noteq> [] \<and> CHR '':'' \<notin> set d
        | None \<Rightarrow> CHR '':'' \<in> set s \<longrightarrow> hd s = CHR '':''"
    and p: "plain_project project" "2 \<le> length parts" "\<forall>x \<in> set parts. plain_part x"
    and s: "s = full_project domain project @ ''.'' @ join ''.'' parts"
    and i: "i = \<lparr>project_id = full_project domain project,
              dataset_id = join ''.'' (butlast parts), tbl_id = last parts\<rparr>"
    by blast
  let ?s1 = "project @ CHR ''.'' # join ''.'' parts"
  have "w_opt w (w_terminated w (w_take_while1 w (\<lambda>c. c \<noteq> CHR '':'')) (w_char w CHR '':'')) s
      = Some (domain, ?s1)"
    using d s by (auto simp: domain_parser [OF w] full_project_def split: option.splits)
  moreover have "w_take_while1 w (\<lambda>c. c \<noteq> CHR ''.'' \<and> c \<noteq> CHR '':'') ?s1
      = Some (project, CHR ''.'' # join ''.'' parts)"
    using p by (simp add: project_parser [OF w])
  moreover have "w_separated w 2 (w_take_while1 w not_dot) (w_char w CHR ''.'') (join ''.'' parts)
      = Some (parts, [])"
    using p by (simp add: separated_all_iff [OF w])
  ultimately show ?lhs
    by (simp add: parse_table_id_def winnow_laws(2,5) [OF w] i full_project_def)
qed

text \<open>C26: A string parses to an identifier only if displaying that identifier gives the string
  back, and the identifier is then well-formed.\<close>

theorem table_id_parse_sound:
  assumes w: "winnow_spec w" and parsed: "table_id_from_str w s = Inr i"
  shows "table_id_display i = s \<and> wf_table_id i"
proof -
  from parsed have clean: "CHR 0x60 \<notin> set s" "CHR ''/'' \<notin> set s"
    and "parse_table_id w s = Some i"
    by (auto simp: table_id_from_str_def split: if_splits option.splits)
  then obtain domain project parts where
    d: "case domain of Some d \<Rightarrow> d \<noteq> [] \<and> CHR '':'' \<notin> set d
        | None \<Rightarrow> CHR '':'' \<in> set s \<longrightarrow> hd s = CHR '':''"
    and p: "plain_project project" "2 \<le> length parts" "\<forall>x \<in> set parts. plain_part x"
    and s: "s = full_project domain project @ ''.'' @ join ''.'' parts"
    and i: "i = \<lparr>project_id = full_project domain project,
              dataset_id = join ''.'' (butlast parts), tbl_id = last parts\<rparr>"
    unfolding parse_table_id_iff [OF w] by blast
  have disp: "table_id_display i = s"
    using dotted_display [OF p(2)] by (simp add: table_id_display_def i s)
  have proj: "hd s \<noteq> CHR '':''" if "domain = None"
    using p(1) that s by (cases project) (auto simp: plain_project_def plain_part_def full_project_def)
  have "set (join ''.'' parts) = set (join ''.'' (butlast parts)) \<union> {CHR ''.''} \<union> set (last parts)"
    using arg_cong [OF dotted_display [OF p(2)], of set] by auto
  then have "wf_table_id i"
    using parts_wf [OF p(2,3)] disp clean d p(1) proj s
    by (cases domain)
      (auto simp: wf_table_id_def table_id_display_def i full_project_def plain_project_def
        takeWhile_until Let_def)
  with disp show ?thesis ..
qed

text \<open>C27: Every well-formed identifier is read back from its own display, so no identifier is
  unreachable by parsing and no two share a display.\<close>

theorem table_id_parse_complete:
  assumes w: "winnow_spec w" and wf: "wf_table_id i"
  shows "table_id_from_str w (table_id_display i) = Inr i"
proof -
  let ?parts = "split_on CHR ''.'' (dataset_id i) @ [tbl_id i]"
  have wf': "\<forall>x \<in> set (split_on CHR ''.'' (dataset_id i)). x \<noteq> []" "plain_part (tbl_id i)"
    and clean: "CHR 0x60 \<notin> set (table_id_display i)" "CHR ''/'' \<notin> set (table_id_display i)"
    using wf by (simp_all add: wf_table_id_def Let_def)
  note parts = wf_parts [OF wf']
  define d where "d = takeWhile (\<lambda>c. c \<noteq> CHR '':'') (project_id i)"
  define r where "r = dropWhile (\<lambda>c. c \<noteq> CHR '':'') (project_id i)"
  have dr: "project_id i = d @ r" "CHR '':'' \<notin> set d"
    by (auto simp: d_def r_def dest: set_takeWhileD)
  have hd_r: "r \<noteq> [] \<Longrightarrow> hd r = CHR '':''"
    using hd_dropWhile [of "\<lambda>c. c \<noteq> CHR '':''" "project_id i"] by (simp add: r_def)
  define domain where "domain = (if r = [] then None else Some d)"
  define project where "project = (if r = [] then project_id i else tl r)"
  have proj: "project_id i = full_project domain project"
    using dr(1) hd_r by (cases r) (simp_all add: domain_def project_def full_project_def)
  have wf_r: "if r = [] then plain_project (project_id i)
        \<and> CHR '':'' \<notin> set (dataset_id i) \<and> CHR '':'' \<notin> set (tbl_id i)
      else d \<noteq> [] \<and> plain_project (tl r)"
    using wf by (simp add: wf_table_id_def Let_def d_def r_def)
  have "case domain of Some d \<Rightarrow> d \<noteq> [] \<and> CHR '':'' \<notin> set d
        | None \<Rightarrow> CHR '':'' \<in> set (table_id_display i) \<longrightarrow> hd (table_id_display i) = CHR '':''"
    and "plain_project project"
    using wf_r dr(2)
    by (cases "r = []";
      simp add: domain_def project_def plain_project_def table_id_display_def)+
  then have "parse_table_id w (table_id_display i) = Some i"
    unfolding parse_table_id_iff [OF w]
    using parts proj
    by (intro exI [of _ domain] exI [of _ project] exI [of _ ?parts])
      (auto simp: table_id_display_def)
  with clean show ?thesis by (simp add: table_id_from_str_def)
qed

definition legacy_id :: table_id where
  "legacy_id = new_table_id ''google.com:proj'' ''ds.ns'' ''tbl''"

lemma legacy_id_wf: "wf_table_id legacy_id"
  by (simp add: legacy_id_def new_table_id_def wf_table_id_def table_id_display_def Let_def
      plain_project_def plain_part_def)

theorem table_id_parse_complete_witness:
  "winnow_spec winnow_ref \<and> wf_table_id legacy_id
   \<and> table_id_from_str winnow_ref ''google.com:proj.ds.ns.tbl'' = Inr legacy_id"
proof -
  have "table_id_display legacy_id = ''google.com:proj.ds.ns.tbl''"
    by (simp add: legacy_id_def new_table_id_def table_id_display_def)
  with table_id_parse_complete [OF winnow_ref_spec legacy_id_wf] show ?thesis
    by (simp add: winnow_ref_spec legacy_id_wf)
qed

lemma simple_parse:
  "table_id_from_str winnow_ref ''p.d.t'' =
     Inr \<lparr>project_id = ''p'', dataset_id = ''d'', tbl_id = ''t''\<rparr>"
  by (simp add: table_id_from_str_def parse_table_id_def winnow_ref_def)

theorem table_id_parse_sound_witness:
  "table_id_display \<lparr>project_id = ''p'', dataset_id = ''d'', tbl_id = ''t''\<rparr> = ''p.d.t''
   \<and> wf_table_id \<lparr>project_id = ''p'', dataset_id = ''d'', tbl_id = ''t''\<rparr>"
  using table_id_parse_sound [OF winnow_ref_spec simple_parse] .

text \<open>The resource path of a request determines the table: two identifiers that the parser
  can return have the same path only if they are equal.\<close>

lemma table_path_injective:
  assumes i: "wf_table_id i" and j: "wf_table_id j" and eq: "to_table_path i = to_table_path j"
  shows "i = j"
proof -
  have clean: "CHR ''/'' \<notin> set (project_id k) \<and> CHR ''/'' \<notin> set (dataset_id k)" if "wf_table_id k" for k
    using that by (simp add: wf_table_id_def table_id_display_def)
  have cut: "x = y \<and> r = r'"
    if "x @ CHR ''/'' # r = y @ CHR ''/'' # r'" "CHR ''/'' \<notin> set x" "CHR ''/'' \<notin> set y" for x y r r'
  proof -
    from that takeWhile_until(1) [of "CHR ''/''" x r] takeWhile_until(1) [of "CHR ''/''" y r']
    have "x = y" by simp
    with that show ?thesis by simp
  qed
  from eq have
    "project_id i @ CHR ''/'' # (''datasets/'' @ dataset_id i @ ''/tables/'' @ tbl_id i) =
     project_id j @ CHR ''/'' # (''datasets/'' @ dataset_id j @ ''/tables/'' @ tbl_id j)"
    by (simp add: to_table_path_def)
  from cut [OF this] clean [OF i] clean [OF j]
  have p: "project_id i = project_id j" and
    "dataset_id i @ CHR ''/'' # (''tables/'' @ tbl_id i) = dataset_id j @ CHR ''/'' # (''tables/'' @ tbl_id j)"
    by auto
  from cut [OF this(2)] clean [OF i] clean [OF j]
  have "dataset_id i = dataset_id j" "tbl_id i = tbl_id j" by auto
  with p show ?thesis by simp
qed

theorem table_path_injective_witness:
  "to_table_path legacy_id = ''projects/google.com:proj/datasets/ds.ns/tables/tbl''
   \<and> legacy_id = legacy_id"
  using table_path_injective [OF legacy_id_wf legacy_id_wf refl]
  by (simp add: legacy_id_def new_table_id_def to_table_path_def)

end
