(* ===== verification/Client.thy ===== *)
theory Client
  imports Api Table_Id
begin

text \<open>
  The client (\<open>crates/arrow-bigquery/src/lib.rs\<close>): read options and the session request they
  build, the receiver the consumer holds, and opening a read session on a table. A spawned task
  is returned as data.
\<close>

section \<open>Read options\<close>

text \<open>What the code asks of the platform: clamping of timestamps, the available parallelism when
  it is known, and the number of rayon threads.\<close>

record platform =
  pf_clamp :: "i64 \<Rightarrow> i32 \<Rightarrow> timestamp"
  pf_parallelism :: "nat option"
  pf_rayon_threads :: nat

definition DEFAULT_COMPRESSION :: compression_codec where "DEFAULT_COMPRESSION = Lz4Frame"

text \<open>A \<open>DateTime<Utc>\<close> is its seconds since the epoch and the nanoseconds of the second.\<close>

record read_options =
  rd_maintain_order :: bool
  rd_snapshot_time :: "(i64 \<times> u32) option"
  rd_selected_fields :: "string list"
  rd_row_restriction :: string
  rd_arrow_buffer_compression :: "compression_codec option"
  rd_sample_percentage :: "f64_bits option"
  rd_max_stream_count :: "i32 option"

definition default_read_options :: read_options where
  "default_read_options =
     \<lparr>rd_maintain_order = False, rd_snapshot_time = None, rd_selected_fields = [],
      rd_row_restriction = [], rd_arrow_buffer_compression = None, rd_sample_percentage = None,
      rd_max_stream_count = None\<rparr>"

definition build_request :: "platform \<Rightarrow> read_options \<Rightarrow> string \<Rightarrow> string \<Rightarrow> create_read_session_request" where
  "build_request pf options table_path quota_project_id =
     \<lparr>cr_parent = ''projects/'' @ quota_project_id,
      cr_max_stream_count =
        (if rd_maintain_order options then 1
         else case rd_max_stream_count options of
                Some n \<Rightarrow> n
              | None \<Rightarrow> (case pf_parallelism pf of Some value \<Rightarrow> of_nat value | None \<Rightarrow> 1)),
      cr_read_session =
        \<lparr>rq_table = table_path,
         rq_arrow_format = True,
         rq_snapshot_time = map_option (\<lambda>(secs, nanos). pf_clamp pf secs (ucast nanos))
           (rd_snapshot_time options),
         rq_selected_fields = rd_selected_fields options,
         rq_row_restriction = rd_row_restriction options,
         rq_sample_percentage = rd_sample_percentage options,
         rq_buffer_compression = unwrap_or DEFAULT_COMPRESSION (rd_arrow_buffer_compression options)\<rparr>\<rparr>"

record stream_options =
  so_maintain_order :: bool
  so_offset :: i64
  so_schema :: "bytes option"
  so_arrow_buffer_compression :: "compression_codec option"

section \<open>The receiver\<close>

text \<open>
  The consumer's end of the batch channel with what it owns: the buffered items, whether some
  sender is still alive, whether the receiver has closed it, the shared cancel flag, whether the
  sender of that flag is still held, and the tasks with those already aborted.
\<close>

record receiver =
  rx_items :: "(bq_error, record_batch) res list"
  rx_senders :: bool
  rx_closed :: bool
  rx_cancel_flag :: bool
  rx_cancel_tx :: bool
  rx_handles :: "nat list"
  rx_aborted :: "nat list"

definition receiver_new :: "bool \<Rightarrow> nat list \<Rightarrow> receiver" where
  "receiver_new cancel_tx handles =
     \<lparr>rx_items = [], rx_senders = True, rx_closed = False, rx_cancel_flag = False,
      rx_cancel_tx = cancel_tx, rx_handles = handles, rx_aborted = []\<rparr>"

definition receiver_new_for_testing :: "nat list \<Rightarrow> receiver" where
  "receiver_new_for_testing handles = receiver_new False handles"

definition receiver_abort :: "receiver \<Rightarrow> receiver" where
  "receiver_abort r =
     (let r = (if rx_cancel_tx r then r\<lparr>rx_cancel_tx := False, rx_cancel_flag := True\<rparr> else r);
          r = r\<lparr>rx_closed := True\<rparr>
      in r\<lparr>rx_aborted := rx_aborted r @ rx_handles r, rx_handles := []\<rparr>)"

text \<open>The channel: None while it waits, otherwise the item, which is None at the end.\<close>

definition channel_recv :: "receiver \<Rightarrow> ((bq_error, record_batch) res option \<times> receiver) option" where
  "channel_recv r =
     (case rx_items r of
        item # rest \<Rightarrow> Some (Some item, r\<lparr>rx_items := rest\<rparr>)
      | [] \<Rightarrow> if rx_closed r \<or> \<not> rx_senders r then Some (None, r) else None)"

definition receiver_recv :: "receiver \<Rightarrow> ((bq_error, record_batch) res option \<times> receiver) option" where
  "receiver_recv r =
     map_option (\<lambda>(item, r').
       (item, case item of
                None \<Rightarrow> receiver_abort r'
              | Some (Inl e) \<Rightarrow> receiver_abort r'
              | Some (Inr b) \<Rightarrow> r')) (channel_recv r)"

definition receiver_drop :: "receiver \<Rightarrow> receiver" where
  "receiver_drop = receiver_abort"

text \<open>A sender's side: an item is buffered unless the receiver has closed the channel.\<close>

definition channel_send :: "(bq_error, record_batch) res \<Rightarrow> receiver \<Rightarrow> receiver" where
  "channel_send item r = (if rx_closed r then r else r\<lparr>rx_items := rx_items r @ [item]\<rparr>)"

definition channel_size :: "platform \<Rightarrow> nat" where
  "channel_size pf = max (pf_rayon_threads pf) 1 * 2"

section \<open>The client\<close>

record client =
  cl_quota_project_id :: string
  cl_user_agent :: "string option"
  cl_retry_throttler :: nat
  cl_retry_config :: stream_retry_config

text \<open>None: the default backoff policy does not build, which panics.\<close>

definition client_from_parts :: "gax \<Rightarrow> string \<Rightarrow> string option \<Rightarrow> nat \<Rightarrow> client option" where
  "client_from_parts gx quota_project_id user_agent retry_throttler =
     map_option (\<lambda>config.
       \<lparr>cl_quota_project_id = quota_project_id, cl_user_agent = user_agent,
        cl_retry_throttler = retry_throttler, cl_retry_config = config\<rparr>)
       (stream_retry_config_new gx None None retry_throttler)"

definition client_new_for_testing :: "gax \<Rightarrow> string \<Rightarrow> nat \<Rightarrow> client option" where
  "client_new_for_testing gx quota_project_id default_throttler =
     client_from_parts gx quota_project_id None default_throttler"

definition client_quota_project_id :: "client \<Rightarrow> string" where
  "client_quota_project_id c = cl_quota_project_id c"

definition apply_request_options :: "client \<Rightarrow> call_options \<Rightarrow> call_options" where
  "apply_request_options c builder =
     (let builder = builder\<lparr>co_quota_project := Some (cl_quota_project_id c)\<rparr>
      in case cl_user_agent c of
           Some user_agent \<Rightarrow> builder\<lparr>co_user_agent := Some user_agent\<rparr>
         | None \<Rightarrow> builder)"

definition client_retry_config :: "client \<Rightarrow> stream_retry_config" where
  "client_retry_config c = cl_retry_config c"

definition prepare_read_rows :: "client \<Rightarrow> string \<Rightarrow> i64 \<Rightarrow> compression_codec option \<Rightarrow> read_rows_request" where
  "prepare_read_rows c stream_name offset arrow_buffer_compression =
     (let options = apply_request_options c no_options
      in \<lparr>rr_read_stream = stream_name, rr_offset = offset,
          rr_buffer_compression = arrow_buffer_compression,
          rr_quota_project = co_quota_project options, rr_user_agent = co_user_agent options\<rparr>)"

section \<open>Opening a read session\<close>

definition create_table_read_session ::
  "platform \<Rightarrow> gax \<Rightarrow> services \<Rightarrow> client \<Rightarrow> table_id \<Rightarrow> read_options \<Rightarrow> (bytes \<times> string list) io" where
  "create_table_read_session pf gx svc c table options =
     (let request = build_request pf options (to_table_path table) (cl_quota_project_id c);
          create_session = apply_request_options c
            (no_options\<lparr>co_idempotent := Some True,
                        co_retry_policy := Some (create_read_session_retry_policy gx),
                        co_backoff_policy := default_backoff_policy gx,
                        co_retry_throttler := Some (cl_retry_throttler c)\<rparr>)
      in io_bind (call CreateReadSession (sv_create_read_session svc) Grpc request create_session)
           (\<lambda>read_session.
              case rs_schema read_session of
                Some (ArrowSchema serialized_schema) \<Rightarrow>
                  io_return (serialized_schema, rs_stream_names read_session)
              | _ \<Rightarrow> io_lift (Inl (Protocol ''Unexpectedly got schema type other than arrow''))))"

definition prepare_table_read_session ::
  "platform \<Rightarrow> ipc \<Rightarrow> gax \<Rightarrow> services \<Rightarrow> client \<Rightarrow> table_id \<Rightarrow> read_options
     \<Rightarrow> (arrow_schema \<times> read_stream_options list) io" where
  "prepare_table_read_session pf ipc gx svc c table options =
     (let maintain_order = rd_maintain_order options
      in io_bind (create_table_read_session pf gx svc c table options) (\<lambda>(schema, streams).
         io_bind (io_lift (parse_arrow_schema ipc schema)) (\<lambda>metadata.
           io_return (md_schema metadata,
             map (\<lambda>stream_name.
               \<lparr>ro_read_rows = prepare_read_rows c stream_name 0 None,
                ro_current_offset = 0,
                ro_metadata = Some metadata,
                ro_schema_tx = False,
                ro_first_page_check = None,
                ro_retry_config = client_retry_config c,
                ro_maintain_order = maintain_order\<rparr>) streams))))"

text \<open>
  The tasks a receiver owns: readers, a query reader, and the default-stream reader that may
  cut over to a read session. The receiver of a value is new; its handles number its tasks.
\<close>

definition read_table ::
  "platform \<Rightarrow> ipc \<Rightarrow> gax \<Rightarrow> services \<Rightarrow> client \<Rightarrow> table_id \<Rightarrow> read_options
     \<Rightarrow> (arrow_schema \<times> receiver \<times> read_stream_options list) io" where
  "read_table pf ipc gx svc c table options =
     io_bind (prepare_table_read_session pf ipc gx svc c table options) (\<lambda>(schema_ref, stream_options).
       io_return (schema_ref, receiver_new True [0..<length stream_options], stream_options))"

definition spawn_query_stream ::
  "client \<Rightarrow> bytes \<Rightarrow> i64 \<Rightarrow> read_rows_request option \<Rightarrow> stream_metadata \<Rightarrow> bool
     \<Rightarrow> receiver \<times> read_query_stream_options" where
  "spawn_query_stream c first_page_bytes page_row_count read_rows metadata maintain_order =
     (receiver_new True [0],
      \<lparr>qo_first_page_bytes = first_page_bytes, qo_page_row_count = page_row_count,
       qo_read_rows = read_rows, qo_metadata = metadata,
       qo_retry_config = client_retry_config c, qo_maintain_order = maintain_order\<rparr>)"

end
