(* ===== verification/Query.thy ===== *)
theory Query
  imports Client
begin

text \<open>
  Queries (\<open>crates/arrow-bigquery/src/query.rs\<close>), the parts without a reader: the builder and
  its requests, job references, job status errors, the translation of a failed request into a
  job error, destination tables, and the dry run. \<open>Query_Read\<close> holds the routing of a read.
\<close>

section \<open>Constants\<close>

definition MULTI_STREAM_THRESHOLD_BYTES :: f64 where
  "MULTI_STREAM_THRESHOLD_BYTES = (250 * 1024 * 1024, 1)"

definition MEDIAN_ROW_SIZE_BYTES :: u64 where "MEDIAN_ROW_SIZE_BYTES = 8"

definition MULTI_STREAM_THRESHOLD_ROWS :: u64 where
  "MULTI_STREAM_THRESHOLD_ROWS =
     of_nat (fst MULTI_STREAM_THRESHOLD_BYTES div snd MULTI_STREAM_THRESHOLD_BYTES) div MEDIAN_ROW_SIZE_BYTES"

definition QUERY_REQUEST_ID_PREFIX :: string where "QUERY_REQUEST_ID_PREFIX = ''req_''"

definition INITIAL_WAIT_MS_DEFAULT :: u32 where "INITIAL_WAIT_MS_DEFAULT = 200 * 1000"

text \<open>\<open>uuid\<close> is the fresh identifier in its simple format.\<close>

definition generate_prefixed_id :: "string \<Rightarrow> string \<Rightarrow> string" where
  "generate_prefixed_id uuid pre = pre @ uuid"

text \<open>The two conversions of the generated enum of the second API.\<close>

record codec_api =
  ca_from_value :: "i32 \<Rightarrow> v2_codec"
  ca_from_name :: "string \<Rightarrow> v2_codec"

definition bq_to_gapic_compression_codec :: "codec_api \<Rightarrow> compression_codec \<Rightarrow> v2_codec" where
  "bq_to_gapic_compression_codec ca codec =
     (case codec of
        CompressionUnspecified \<Rightarrow> V2CompressionUnspecified
      | Lz4Frame \<Rightarrow> V2Lz4Frame
      | Zstd \<Rightarrow> V2Zstd
      | UnknownCodecValue val \<Rightarrow> ca_from_value ca val
      | UnknownCodecName name \<Rightarrow> ca_from_name ca name)"

section \<open>Job references\<close>

definition non_empty_str :: "string \<Rightarrow> string option" where
  "non_empty_str s = then_some (s \<noteq> []) s"

definition extract_job_reference :: "query_response \<Rightarrow> string option \<times> string option \<times> string option" where
  "extract_job_reference response =
     (let job_ref = qr_job_reference response;
          project = Option.bind job_ref (\<lambda>jr. non_empty_str (jr_project_id jr));
          job_id = Option.bind job_ref (\<lambda>jr. non_empty_str (jr_job_id jr));
          location = opt_or (Option.bind (Option.bind job_ref jr_location) non_empty_str)
                       (non_empty_str (qr_location response))
      in (project, job_id, location))"

definition extract_required_job_reference :: "query_response \<Rightarrow> (bq_error, string \<times> string \<times> string) res" where
  "extract_required_job_reference response =
     (case extract_job_reference response of
        (project, job_id, location) \<Rightarrow>
          rbind (ok_or (Protocol ''QueryResponse requires a job reference, but job_reference.project_id is missing'')
                   project) (\<lambda>project.
          rbind (ok_or (Protocol ''QueryResponse requires a job reference, but job location is missing'')
                   location) (\<lambda>location.
          rbind (ok_or (Protocol ''QueryResponse requires a job reference, but job_reference.job_id is missing'')
                   job_id) (\<lambda>job_id.
          Inr (project, job_id, location)))))"

definition default_job_stream_path :: "query_response \<Rightarrow> (bq_error, string) res" where
  "default_job_stream_path response =
     rbind (extract_required_job_reference response) (\<lambda>(project, job_id, location).
       Inr (''projects/'' @ project @ ''/locations/'' @ location @ ''/jobs/'' @ job_id
            @ ''/streams/_default''))"

section \<open>Job errors\<close>

definition check_job_status_error ::
  "job_status option \<Rightarrow> string \<Rightarrow> string option \<Rightarrow> string \<Rightarrow> (bq_error, unit) res" where
  "check_job_status_error status project location job_id =
     (case status of
        None \<Rightarrow> Inr ()
      | Some status \<Rightarrow>
          (case js_error_result status of
             None \<Rightarrow> Inr ()
           | Some error_result \<Rightarrow>
               Inl (JobFailed
                 \<lparr>jf_project_id = Some project, jf_location = location, jf_job_id = Some job_id,
                  jf_error = job_error_from error_result,
                  jf_errors = map job_error_from (js_errors status)\<rparr>)))"

definition extract_destination_table ::
  "table_reference option option option \<Rightarrow> (bq_error, table_id option) res" where
  "extract_destination_table configuration =
     (case Option.bind (Option.bind configuration id) id of
        None \<Rightarrow> Inr None
      | Some t \<Rightarrow>
          if tr_project_id t = [] \<or> tr_dataset_id t = [] \<or> tr_table_id t = []
          then Inl (Protocol ''Job destination_table is missing project_id, dataset_id, or table_id'')
          else Inr (Some (new_table_id (tr_project_id t) (tr_dataset_id t) (tr_table_id t))))"

text \<open>The first debug info that is not empty, and one job error per error info.\<close>

fun first_debug_info :: "status_detail list \<Rightarrow> string option" where
  "first_debug_info [] = None"
| "first_debug_info (DebugInfo d # ds) = (if d \<noteq> [] then Some d else first_debug_info ds)"
| "first_debug_info (_ # ds) = first_debug_info ds"

definition status_job_error :: "rpc_status \<Rightarrow> string option \<Rightarrow> string \<Rightarrow> (string \<times> string) list \<Rightarrow> job_error" where
  "status_job_error status debug_info reason metadata =
     \<lparr>je_reason = then_some (reason \<noteq> []) reason,
      je_location = opt_filter (\<lambda>s. s \<noteq> []) (map_of metadata ''location''),
      je_message = unwrap_or (st_message status) (map_of metadata ''message''),
      je_debug_info = opt_or (opt_filter (\<lambda>s. s \<noteq> []) (map_of metadata ''debugInfo'')) debug_info\<rparr>"

fun status_job_errors :: "rpc_status \<Rightarrow> string option \<Rightarrow> status_detail list \<Rightarrow> job_error list" where
  "status_job_errors status debug_info [] = []"
| "status_job_errors status debug_info (ErrorInfo reason metadata # ds) =
     status_job_error status debug_info reason metadata # status_job_errors status debug_info ds"
| "status_job_errors status debug_info (_ # ds) = status_job_errors status debug_info ds"

definition job_failed_from_gax_status :: "rpc_status \<Rightarrow> job_failed_error" where
  "job_failed_from_gax_status status =
     (let debug_info = first_debug_info (st_details status);
          errors = status_job_errors status debug_info (st_details status);
          error = (case errors of
              first # _ \<Rightarrow>
                \<lparr>je_reason = je_reason first, je_location = je_location first,
                 je_message = (if st_message status \<noteq> [] then st_message status else je_message first),
                 je_debug_info = opt_or debug_info (je_debug_info first)\<rparr>
            | [] \<Rightarrow>
                \<lparr>je_reason = None, je_location = None, je_message = st_message status,
                 je_debug_info = debug_info\<rparr>);
          errors = (if errors = [] then [error] else errors)
      in \<lparr>jf_project_id = None, jf_location = None, jf_job_id = None,
          jf_error = error, jf_errors = errors\<rparr>)"

definition map_query_error :: "gax_error \<Rightarrow> bq_error" where
  "map_query_error err =
     (case ge_status err of
        Some status \<Rightarrow> JobFailed (job_failed_from_gax_status status)
      | None \<Rightarrow> Grpc err)"

section \<open>The query builder\<close>

record query =
  q_sql :: string
  q_arrow_buffer_compression :: "compression_codec option"
  q_maintain_order :: bool
  q_use_query_cache :: "bool option"
  q_initial_wait_ms :: u32

definition query_new :: "string \<Rightarrow> query" where
  "query_new sql =
     \<lparr>q_sql = sql, q_arrow_buffer_compression = None, q_maintain_order = True,
      q_use_query_cache = None, q_initial_wait_ms = INITIAL_WAIT_MS_DEFAULT\<rparr>"

definition client_query :: "client \<Rightarrow> string \<Rightarrow> query" where
  "client_query c sql = query_new sql"

definition with_arrow_buffer_compression :: "query \<Rightarrow> compression_codec option \<Rightarrow> query" where
  "with_arrow_buffer_compression q codec = q\<lparr>q_arrow_buffer_compression := codec\<rparr>"

text \<open>The milliseconds of the duration, cast from \<open>i64\<close> to \<open>u32\<close>.\<close>

definition with_initial_wait :: "query \<Rightarrow> i64 \<Rightarrow> query" where
  "with_initial_wait q milliseconds = q\<lparr>q_initial_wait_ms := ucast milliseconds\<rparr>"

definition with_maintain_order :: "query \<Rightarrow> bool \<Rightarrow> query" where
  "with_maintain_order q b = q\<lparr>q_maintain_order := b\<rparr>"

definition with_use_query_cache :: "query \<Rightarrow> bool option \<Rightarrow> query" where
  "with_use_query_cache q b = q\<lparr>q_use_query_cache := b\<rparr>"

definition arrow_buffer_compression :: "query \<Rightarrow> compression_codec" where
  "arrow_buffer_compression q = unwrap_or DEFAULT_COMPRESSION (q_arrow_buffer_compression q)"

definition new_query_request :: query_request where
  "new_query_request =
     \<lparr>qq_query = [], qq_use_legacy_sql = None, qq_request_id = [], qq_dry_run = False,
      qq_job_creation_optional = False, qq_arrow_results = False, qq_arrow_compression = None,
      qq_use_query_cache = None, qq_timeout_ms = None\<rparr>"

definition build_read_request :: "codec_api \<Rightarrow> string \<Rightarrow> query \<Rightarrow> query_request" where
  "build_read_request ca uuid q =
     new_query_request
       \<lparr>qq_request_id := generate_prefixed_id uuid QUERY_REQUEST_ID_PREFIX,
        qq_job_creation_optional := True,
        qq_arrow_results := True,
        qq_arrow_compression := Some (bq_to_gapic_compression_codec ca (arrow_buffer_compression q)),
        qq_use_query_cache := q_use_query_cache q,
        qq_timeout_ms := Some (q_initial_wait_ms q)\<rparr>"

text \<open>The request sent to the client's quota project, with the options of the client.\<close>

definition run_query :: "services \<Rightarrow> client \<Rightarrow> query \<Rightarrow> query_request \<Rightarrow> query_response io" where
  "run_query svc c q request =
     call (RunQuery (cl_quota_project_id c)) (sv_query svc) map_query_error
       (request\<lparr>qq_query := q_sql q, qq_use_legacy_sql := Some False\<rparr>)
       ((apply_request_options c no_options)\<lparr>co_idempotent := Some True\<rparr>)"

definition can_read_destination_table :: "query \<Rightarrow> query_response \<Rightarrow> bool" where
  "can_read_destination_table q response \<longleftrightarrow>
     \<not> q_maintain_order q \<and> qr_statement_type response \<noteq> ''SCRIPT''"

section \<open>Destination tables\<close>

record deferred_read =
  dt_project_id :: string
  dt_job_id :: string
  dt_location :: string
  dt_read_options :: read_options

definition destination_table_read :: "query \<Rightarrow> query_response \<Rightarrow> (bq_error, deferred_read) res" where
  "destination_table_read q response =
     rbind (extract_required_job_reference response) (\<lambda>(project, job_id, location).
       Inr \<lparr>dt_project_id = project, dt_job_id = job_id, dt_location = location,
            dt_read_options = default_read_options
              \<lparr>rd_maintain_order := False,
               rd_arrow_buffer_compression := Some (arrow_buffer_compression q)\<rparr>\<rparr>)"

definition fetch_job :: "services \<Rightarrow> client \<Rightarrow> string \<Rightarrow> string \<Rightarrow> string option \<Rightarrow> job io" where
  "fetch_job svc c project job_id location =
     call GetJob (sv_get_job svc) Grpc
       \<lparr>gj_project_id = project, gj_job_id = job_id, gj_location = location\<rparr>
       ((apply_request_options c no_options)\<lparr>co_idempotent := Some True\<rparr>)"

definition missing_destination :: bq_error where
  "missing_destination = Protocol ''Job response is missing configuration.query.destination_table''"

definition resolve :: "services \<Rightarrow> client \<Rightarrow> deferred_read \<Rightarrow> (table_id \<times> read_options) io" where
  "resolve svc c d =
     io_bind (fetch_job svc c (dt_project_id d) (dt_job_id d) (Some (dt_location d))) (\<lambda>job.
     io_bind (io_lift (extract_destination_table (jb_configuration job))) (\<lambda>t.
     io_bind (io_lift (ok_or missing_destination t)) (\<lambda>destination_table.
       io_return (destination_table, dt_read_options d))))"

definition destination_read ::
  "platform \<Rightarrow> ipc \<Rightarrow> gax \<Rightarrow> services \<Rightarrow> client \<Rightarrow> deferred_read
     \<Rightarrow> (arrow_schema \<times> receiver \<times> read_stream_options list) io" where
  "destination_read pf ipc gx svc c d =
     io_bind (resolve svc c d) (\<lambda>(destination_table, read_options).
       read_table pf ipc gx svc c destination_table read_options)"

section \<open>The dry run\<close>

text \<open>\<open>try_new\<close> is the constructor of record batches of polars-arrow.\<close>

type_synonym batch_maker = "u64 \<Rightarrow> arrow_schema \<Rightarrow> column list \<Rightarrow> (std_error, record_batch) res"

definition creation_time_dtype :: data_type where
  "creation_time_dtype = TimestampType Millisecond (Some ''UTC'')"

definition dry_run_schema :: arrow_schema where
  "dry_run_schema =
     [Field ''bigquerySchema'' Utf8Type True,
      Field ''projectId'' Utf8Type True,
      Field ''jobId'' Utf8Type True,
      Field ''location'' Utf8Type True,
      Field ''totalBytesProcessed'' Int64Type False,
      Field ''cacheHit'' BooleanType True,
      Field ''statementType'' Utf8Type True,
      Field ''creationTime'' creation_time_dtype True]"

definition query_response_to_record_batch :: "batch_maker \<Rightarrow> query_response \<Rightarrow> (bq_error, record_batch) res" where
  "query_response_to_record_batch try_new response =
     rbind (case qr_schema response of
              None \<Rightarrow> Inr None
            | Some (Inr s) \<Rightarrow> Inr (Some s)
            | Some (Inl e) \<Rightarrow> Inl (Other e)) (\<lambda>bigquery_schema.
     (case extract_job_reference response of
        (project, job_id, location) \<Rightarrow>
          rmap_err Arrow (try_new 1 dry_run_schema
            [Utf8Array [bigquery_schema],
             Utf8Array [project],
             Utf8Array [job_id],
             Utf8Array [location],
             Int64Array [Some (unwrap_or 0 (qr_total_bytes_processed response))],
             BooleanArray [qr_cache_hit response],
             Utf8Array [non_empty_str (qr_statement_type response)],
             TimestampArray [opt_filter (\<lambda>t. 0 < sint t) (qr_creation_time response)]
               Millisecond (Some ''UTC'')])))"

definition dry_run :: "batch_maker \<Rightarrow> services \<Rightarrow> client \<Rightarrow> query \<Rightarrow> record_batch io" where
  "dry_run try_new svc c q =
     io_bind (run_query svc c q (new_query_request\<lparr>qq_dry_run := True\<rparr>)) (\<lambda>response.
       io_lift (query_response_to_record_batch try_new response))"

end
