(* ===== verification/Query_Read.thy ===== *)
theory Query_Read
  imports Query
begin

text \<open>
  Reading the result of a query: \<open>Client::read_stream_with_first_page_check\<close> with the task it
  spawns and the cutover to a read session (\<open>lib.rs\<close>), and the routing of \<open>Query::read\<close>
  (\<open>query.rs\<close>). A call that waits for the schema its task will send is given the inputs of that
  task; None says that they ran out while it was still waiting.
\<close>

section \<open>The surroundings of a read\<close>

text \<open>Third-party code, the services, a fresh identifier, and the inputs of the spawned reader.\<close>

record world =
  wd_platform :: platform
  wd_ipc :: ipc
  wd_gax :: gax
  wd_codec :: codec_api
  wd_services :: services
  wd_uuid :: string
  wd_inputs :: "step_in list"
  wd_now :: nat

section \<open>A single stream with an optional cutover\<close>

record job_stream_task =
  jt_options :: read_stream_options
  jt_fallback :: "deferred_read option"

text \<open>The readers that run in the join set of the task.\<close>

definition switch_to_read_session ::
  "world \<Rightarrow> client \<Rightarrow> deferred_read \<Rightarrow> read_stream_options list io" where
  "switch_to_read_session w c d =
     io_bind (resolve (wd_services w) c d) (\<lambda>(destination_table, options).
     io_bind (prepare_table_read_session (wd_platform w) (wd_ipc w) (wd_gax w) (wd_services w) c
                destination_table options) (\<lambda>(schema_ref, stream_options).
       io_return stream_options))"

text \<open>The spawned task: its effects, the readers it then runs, and the calls made.\<close>

definition run_job_stream_task ::
  "world \<Rightarrow> client \<Rightarrow> job_stream_task \<Rightarrow> rpc list
     \<Rightarrow> (effect list \<times> termination_reason option \<times> read_stream_options list) \<times> rpc list" where
  "run_job_stream_task w c task log =
     (case read_stream (wd_ipc w) (wd_gax w) (wd_inputs w) (wd_now w) (jt_options task) of
        (es, reason) \<Rightarrow>
          (if reason = Some SwitchToReadSession
           then (case jt_fallback task of
                   Some d \<Rightarrow>
                     (case switch_to_read_session w c d log of
                        (Inl err, log') \<Rightarrow> ((es @ [CancelAll, SendError err], reason, []), log')
                      | (Inr readers, log') \<Rightarrow> ((es, reason, readers), log'))
                 | None \<Rightarrow> ((es, reason, []), log))
           else ((es, reason, []), log)))"

text \<open>What the one-shot channel of the schema yields: the first message, an error when the sender
  is dropped, None while the task still runs.\<close>

fun awaited_schema :: "effect list \<Rightarrow> termination_reason option \<Rightarrow> (bq_error, arrow_schema option) res option" where
  "awaited_schema (SendSchema m # es) reason = Some m"
| "awaited_schema (e # es) reason = awaited_schema es reason"
| "awaited_schema [] (Some reason) =
     Some (Inl (Other (StdError ''ReadRows stream task terminated before sending schema'' None None)))"
| "awaited_schema [] None = None"

definition read_stream_with_first_page_check ::
  "world \<Rightarrow> client \<Rightarrow> string \<Rightarrow> stream_options \<Rightarrow> (first_page_check \<times> deferred_read) option
     \<Rightarrow> (bq_error, arrow_schema option \<times> receiver \<times> job_stream_task) res option" where
  "read_stream_with_first_page_check w c stream options check =
     (case (case so_schema options of
              Some schema \<Rightarrow> map_sum id (\<lambda>metadata. (Some metadata, False)) (parse_arrow_schema (wd_ipc w) schema)
            | None \<Rightarrow> Inr (None, True)) of
        Inl err \<Rightarrow> Some (Inl err)
      | Inr (metadata, schema_tx) \<Rightarrow>
          (let read_rows = prepare_read_rows c stream (so_offset options) (so_arrow_buffer_compression options);
               task = \<lparr>jt_options =
                         \<lparr>ro_read_rows = read_rows, ro_current_offset = so_offset options,
                          ro_metadata = metadata, ro_schema_tx = schema_tx,
                          ro_first_page_check = map_option fst check,
                          ro_retry_config = client_retry_config c,
                          ro_maintain_order = so_maintain_order options\<rparr>,
                       jt_fallback = map_option snd check\<rparr>;
               receiver = receiver_new True [0]
           in case metadata of
                Some m \<Rightarrow> Some (Inr (Some (md_schema m), receiver, task))
              | None \<Rightarrow>
                  (case read_stream (wd_ipc w) (wd_gax w) (wd_inputs w) (wd_now w) (jt_options task) of
                     (es, reason) \<Rightarrow>
                       map_option (map_sum id (\<lambda>schema_ref. (schema_ref, receiver, task)))
                         (awaited_schema es reason))))"

definition client_read_stream ::
  "world \<Rightarrow> client \<Rightarrow> string \<Rightarrow> stream_options
     \<Rightarrow> (bq_error, arrow_schema \<times> receiver \<times> job_stream_task) res option" where
  "client_read_stream w c stream options =
     map_option (\<lambda>r. rbind r (\<lambda>(schema_ref, receiver, task).
       rbind (ok_or (Protocol ''ReadRows stream closed without sending an Arrow schema'') schema_ref)
         (\<lambda>schema_ref. Inr (schema_ref, receiver, task))))
     (read_stream_with_first_page_check w c stream options None)"

section \<open>Routing\<close>

datatype started =
    NothingStarted
  | TableReaders "read_stream_options list"
  | QueryReader read_query_stream_options
  | JobStream job_stream_task

type_synonym read_result = "arrow_schema \<times> receiver \<times> started"

text \<open>The channel whose only sender is already dropped.\<close>

definition empty_receiver :: receiver where
  "empty_receiver = (receiver_new False [])\<lparr>rx_senders := False\<rparr>"

definition statement_type_of :: "job \<Rightarrow> query_response \<Rightarrow> string option" where
  "statement_type_of job response =
     (let query_stats = Option.bind (jb_statistics job) id
      in opt_or (Option.bind query_stats (\<lambda>q. non_empty_str (st_statement_type q)))
                (non_empty_str (qr_statement_type response)))"

definition is_ddl :: "job \<Rightarrow> bool" where
  "is_ddl job \<longleftrightarrow>
     Option.bind (Option.bind (jb_statistics job) id) (\<lambda>q. non_empty_str (st_ddl_operation_performed q)) \<noteq> None"

definition resolve_empty_job_stream :: "world \<Rightarrow> client \<Rightarrow> query \<Rightarrow> query_response \<Rightarrow> read_result io" where
  "resolve_empty_job_stream w c q response =
     io_bind (io_lift (extract_required_job_reference response)) (\<lambda>(project, job_id, location).
     io_bind (fetch_job (wd_services w) c project job_id (Some location)) (\<lambda>job.
     io_bind (io_lift (check_job_status_error (jb_status job) project (Some location) job_id)) (\<lambda>_.
       (let statement_type = statement_type_of job response
        in if is_ddl job \<or> (case statement_type of Some st \<Rightarrow> st \<noteq> ''SELECT'' | None \<Rightarrow> False)
           then io_return ([], empty_receiver, NothingStarted)
           else io_bind (io_lift (extract_destination_table (jb_configuration job))) (\<lambda>t.
             case t of
               None \<Rightarrow>
                 if statement_type = Some ''SELECT'' then io_lift (Inl missing_destination)
                 else io_return ([], empty_receiver, NothingStarted)
             | Some destination_table \<Rightarrow>
                 io_bind (create_table_read_session (wd_platform w) (wd_gax w) (wd_services w) c destination_table
                   (default_read_options
                     \<lparr>rd_maintain_order := True,
                      rd_arrow_buffer_compression := Some (arrow_buffer_compression q),
                      rd_max_stream_count := Some 1\<rparr>)) (\<lambda>(serialized_schema, streams).
                 io_bind (io_lift (parse_arrow_schema (wd_ipc w) serialized_schema)) (\<lambda>metadata.
                   io_return (md_schema metadata, empty_receiver, NothingStarted))))))))"

definition resolve_job_error ::
  "world \<Rightarrow> client \<Rightarrow> query_response \<Rightarrow> bq_error \<Rightarrow> rpc list \<Rightarrow> bq_error \<times> rpc list" where
  "resolve_job_error w c response original_err log =
     (case original_err of
        Grpc _ \<Rightarrow>
          (case extract_job_reference response of
             (Some project, Some job_id, location) \<Rightarrow>
               (case fetch_job (wd_services w) c project job_id location log of
                  (Inr job, log') \<Rightarrow>
                    (case check_job_status_error (jb_status job) project location job_id of
                       Inl job_err \<Rightarrow> (job_err, log')
                     | Inr _ \<Rightarrow> (original_err, log'))
                | (Inl _, log') \<Rightarrow> (original_err, log'))
           | _ \<Rightarrow> (original_err, log))
      | _ \<Rightarrow> (original_err, log))"

text \<open>None inside the result: still waiting for the schema.\<close>

definition read_job_stream_or_table ::
  "world \<Rightarrow> client \<Rightarrow> query \<Rightarrow> query_response \<Rightarrow> string \<Rightarrow> bytes option \<Rightarrow> read_result option io" where
  "read_job_stream_or_table w c q response stream_name serialized_schema =
     io_bind (io_lift
       (if can_read_destination_table q response
        then rbind (destination_table_read q response) (\<lambda>d.
               Inr (Some (\<lparr>fp_threshold_bytes = MULTI_STREAM_THRESHOLD_BYTES,
                           fp_fallback_total_rows = qr_total_rows response\<rparr>, d)))
        else Inr None)) (\<lambda>first_page_check.
     (case read_stream_with_first_page_check w c stream_name
             \<lparr>so_maintain_order = q_maintain_order q, so_offset = 0, so_schema = serialized_schema,
              so_arrow_buffer_compression = Some (arrow_buffer_compression q)\<rparr> first_page_check of
        None \<Rightarrow> io_return None
      | Some (Inr (Some schema_ref, receiver, task)) \<Rightarrow>
          io_return (Some (schema_ref, receiver, JobStream task))
      | Some (Inr (None, _, _)) \<Rightarrow>
          io_bind (resolve_empty_job_stream w c q response) (\<lambda>r. io_return (Some r))
      | Some (Inl err) \<Rightarrow>
          (\<lambda>log. case resolve_job_error w c response err log of (e, log') \<Rightarrow> (Inl e, log'))))"

definition inline_schema :: "query_response \<Rightarrow> (bq_error, bytes option) res" where
  "inline_schema response =
     (case qr_results_schema response of
        Some (ArrowSchema value) \<Rightarrow> Inr (if value \<noteq> [] then Some value else None)
      | None \<Rightarrow> Inr None
      | Some OtherSchema \<Rightarrow> Inl (Protocol ''Unexpectedly got schema type other than arrow''))"

definition inline_page :: "query_response \<Rightarrow> (bq_error, bytes option) res" where
  "inline_page response =
     rbind (case qr_results response of
              Some (ArrowRecordBatch value) \<Rightarrow> Inr (Some value)
            | None \<Rightarrow> Inr None
            | Some OtherRows \<Rightarrow> Inl (Protocol ''Unexpectedly got some format other than arrow bytes''))
       (\<lambda>raw_first_page. validate_non_empty_arrow_bytes raw_first_page (qr_page_row_count response))"

definition has_remaining_rows :: "query_response \<Rightarrow> u64 \<Rightarrow> bool" where
  "has_remaining_rows response page_row_count \<longleftrightarrow>
     (case qr_total_rows response of Some total_rows \<Rightarrow> page_row_count < total_rows | None \<Rightarrow> False)
     \<or> qr_page_token response \<noteq> []"

text \<open>The last part of \<open>read\<close>: which of the inline page and the job stream there is.\<close>

definition read_completed ::
  "world \<Rightarrow> client \<Rightarrow> query \<Rightarrow> query_response \<Rightarrow> bytes option \<Rightarrow> bytes option \<Rightarrow> string option
     \<Rightarrow> read_result option io" where
  "read_completed w c q response serialized_schema first_page_bytes stream_name =
     (case (first_page_bytes, stream_name) of
        (None, None) \<Rightarrow>
          (case serialized_schema of
             Some serialized_schema \<Rightarrow>
               io_bind (io_lift (parse_arrow_schema (wd_ipc w) serialized_schema)) (\<lambda>metadata.
                 io_return (Some (md_schema metadata, empty_receiver, NothingStarted)))
           | None \<Rightarrow>
               io_bind (io_lift (extract_required_job_reference response)) (\<lambda>_.
                 if qr_statement_type response \<noteq> [] \<and> qr_statement_type response \<noteq> ''SELECT''
                 then io_return (Some ([], empty_receiver, NothingStarted))
                 else io_bind (resolve_empty_job_stream w c q response) (\<lambda>r. io_return (Some r))))
      | (None, Some stream_name) \<Rightarrow> read_job_stream_or_table w c q response stream_name serialized_schema
      | (Some first_page_bytes, stream_name) \<Rightarrow>
          io_bind (io_lift (ok_or (Protocol ''QueryResponse is missing Arrow schema'') serialized_schema))
            (\<lambda>serialized_schema.
          io_bind (io_lift (parse_arrow_schema (wd_ipc w) serialized_schema)) (\<lambda>metadata.
            (let read_rows = map_option (\<lambda>name. prepare_read_rows c name (qr_page_row_count response)
                               (Some (arrow_buffer_compression q))) stream_name
             in case spawn_query_stream c first_page_bytes (qr_page_row_count response) read_rows metadata
                       (q_maintain_order q) of
                  (receiver, task) \<Rightarrow> io_return (Some (md_schema metadata, receiver, QueryReader task))))))"

text \<open>Everything \<open>read\<close> does with the response of \<open>jobs.query\<close>.\<close>

definition route_response :: "world \<Rightarrow> client \<Rightarrow> query \<Rightarrow> query_response \<Rightarrow> read_result option io" where
  "route_response w c q response =
     (if qr_job_complete response = Some False
      then io_bind (io_lift (default_job_stream_path response)) (\<lambda>stream_name.
             read_job_stream_or_table w c q response stream_name None)
      else
        io_bind (io_lift (inline_schema response)) (\<lambda>serialized_schema.
        io_bind (io_lift (ok_or (Protocol (''Negative page_row_count in QueryResponse: ''
            @ show_int (sint (qr_page_row_count response)))) (u64_try_from (qr_page_row_count response))))
          (\<lambda>page_row_count.
        io_bind (io_lift (inline_page response)) (\<lambda>first_page_bytes.
          if can_read_destination_table q response
             \<and> (case qr_total_rows response of
                  Some total_rows \<Rightarrow> MULTI_STREAM_THRESHOLD_ROWS \<le> total_rows | None \<Rightarrow> False)
          then io_bind (io_lift (destination_table_read q response)) (\<lambda>d.
               io_bind (destination_read (wd_platform w) (wd_ipc w) (wd_gax w) (wd_services w) c d)
                 (\<lambda>(schema_ref, receiver, readers).
                   io_return (Some (schema_ref, receiver, TableReaders readers))))
          else
            io_bind (io_lift (if has_remaining_rows response page_row_count
                              then map_sum id Some (default_job_stream_path response) else Inr None))
              (\<lambda>stream_name.
                read_completed w c q response serialized_schema first_page_bytes stream_name)))))"

definition query_read :: "world \<Rightarrow> client \<Rightarrow> query \<Rightarrow> read_result option io" where
  "query_read w c q =
     io_bind (run_query (wd_services w) c q (build_read_request (wd_codec w) (wd_uuid w) q))
       (route_response w c q)"

end
