(* ===== verification/Read_System.thy ===== *)
theory Read_System
  imports Query_Read Read_Stream_Delivery
begin

text \<open>
  A whole read as one concurrent system: the reader tasks that \<open>Client::read_table\<close>,
  \<open>spawn_query_stream\<close> and \<open>read_stream_with_first_page_check\<close> spawn (\<open>lib.rs\<close>), the decode jobs
  they queue (\<open>decode.rs\<close>), the bounded channel, the shared cancel flag, and the consumer that
  receives and may drop the receiver. An action is one access of one task to what they share;
  a run is any sequence of enabled actions. What an action waits for makes it not enabled.
\<close>

section \<open>Decode jobs in execution\<close>

text \<open>
  Where a worker stands in \<open>DecodeJob::run\<close>: at the head of the loop of \<open>drain\<close>, before its first
  look at the cancel flag, before the second one, with a result it will send through its permit,
  with an error it has cancelled its siblings for, between two batches, and inside the blocking
  send. All but the first hold a sender of the channel; up to the use of the permit they hold a
  slot of it.
\<close>

datatype worker =
    AtHead
  | Taken decode_job
  | Decoding decode_job
  | Holding "(bq_error, record_batch list) res"
  | Failing bq_error
  | Sending "record_batch list"
  | Blocked record_batch "record_batch list"

fun holds_slot :: "worker \<Rightarrow> bool" where
  "holds_slot (Taken j) = True"
| "holds_slot (Decoding j) = True"
| "holds_slot (Holding r) = True"
| "holds_slot (Failing e) = True"
| "holds_slot _ = False"

text \<open>A permit has its slot even when the receiver has closed the channel.\<close>

definition permit_send :: "(bq_error, record_batch) res \<Rightarrow> receiver \<Rightarrow> receiver" where
  "permit_send item rx = rx\<lparr>rx_items := rx_items rx @ [item]\<rparr>"

text \<open>
  One action of a worker that runs a job: what becomes of it (None: the job returns), the channel
  after it, and the batch it sent. \<open>free\<close> says whether a slot is free. None: it waits.
\<close>

fun worker_step ::
  "ipc \<Rightarrow> bool \<Rightarrow> receiver \<Rightarrow> worker \<Rightarrow> (worker option \<times> receiver \<times> record_batch list) option" where
  "worker_step ipc free rx AtHead = None"
| "worker_step ipc free rx (Taken job) =
     Some (if rx_cancel_flag rx then None else Some (Decoding job), rx, [])"
| "worker_step ipc free rx (Decoding job) =
     Some (if rx_cancel_flag rx then None
           else Some (Holding (decode_arrow_record_batches ipc (dj_bytes job)
                        (dj_expected_row_count job) (dj_metadata job))), rx, [])"
| "worker_step ipc free rx (Holding (Inr [])) = Some (None, rx, [])"
| "worker_step ipc free rx (Holding (Inr (first # rest))) =
     Some (Some (Sending rest), permit_send (Inr first) rx, [first])"
| "worker_step ipc free rx (Holding (Inl err)) = Some (Some (Failing err), rx\<lparr>rx_cancel_flag := True\<rparr>, [])"
| "worker_step ipc free rx (Failing err) = Some (None, permit_send (Inl err) rx, [])"
| "worker_step ipc free rx (Sending []) = Some (None, rx, [])"
| "worker_step ipc free rx (Sending (batch # rest)) =
     Some (if rx_cancel_flag rx \<or> rx_closed rx then None else Some (Blocked batch rest), rx, [])"
| "worker_step ipc free rx (Blocked batch rest) =
     (if rx_closed rx then Some (None, rx, [])
      else if free then Some (Some (Sending rest), channel_send (Inr batch) rx, [batch])
      else None)"

section \<open>A reader task with its decode queue\<close>

text \<open>
  \<open>ln_outbox\<close> holds the effects of the last transition of the reader that are still to be carried
  out, one action each. \<open>ln_task\<close> says that the task has not returned. \<open>ln_log\<close>, \<open>ln_pushed\<close> and
  \<open>ln_sent\<close> record the history: all effects of the reader, the jobs queued, the batches sent.
\<close>

record lane =
  ln_cfg :: reader_cfg
  ln_ordered :: bool
  ln_reader :: reader
  ln_outbox :: "effect list"
  ln_task :: bool
  ln_queue :: "decode_job ordered_queue"
  ln_workers :: "worker list"
  ln_log :: "effect list"
  ln_pushed :: "decode_job list"
  ln_sent :: "record_batch list"

definition reader_cfg_of :: "ipc \<Rightarrow> gax \<Rightarrow> stream_retry_config \<Rightarrow> reader_cfg" where
  "reader_cfg_of ipc gx config = \<lparr>rc_ipc = ipc, rc_gax = gx, rc_retry = config\<rparr>"

definition new_lane :: "reader_cfg \<Rightarrow> bool \<Rightarrow> reader \<Rightarrow> effect list \<Rightarrow> lane" where
  "new_lane cfg ordered r es =
     \<lparr>ln_cfg = cfg, ln_ordered = ordered, ln_reader = r, ln_outbox = es, ln_task = True,
      ln_queue = oq_new, ln_workers = [], ln_log = es, ln_pushed = [], ln_sent = []\<rparr>"

text \<open>The tasks of \<open>read_stream\<close> and \<open>read_query_stream\<close>. The latter first queues the inline page;
  without anything left to read it returns after that.\<close>

definition stream_lane :: "ipc \<Rightarrow> gax \<Rightarrow> nat \<Rightarrow> read_stream_options \<Rightarrow> lane" where
  "stream_lane ipc gx now options =
     new_lane (reader_cfg_of ipc gx (ro_retry_config options)) (ro_maintain_order options)
       (reader_of options now) []"

definition first_page_job :: "read_query_stream_options \<Rightarrow> decode_job" where
  "first_page_job options =
     \<lparr>dj_bytes = qo_first_page_bytes options, dj_expected_row_count = qo_page_row_count options,
      dj_metadata = qo_metadata options\<rparr>"

definition no_request :: read_rows_request where
  "no_request = \<lparr>rr_read_stream = [], rr_offset = 0, rr_buffer_compression = None,
     rr_quota_project = None, rr_user_agent = None\<rparr>"

definition query_lane :: "ipc \<Rightarrow> gax \<Rightarrow> nat \<Rightarrow> read_query_stream_options \<Rightarrow> lane" where
  "query_lane ipc gx now options =
     new_lane (reader_cfg_of ipc gx (qo_retry_config options)) (qo_maintain_order options)
       (case qo_read_rows options of
          Some read_rows \<Rightarrow>
            new_reader read_rows (qo_page_row_count options) (Some (qo_metadata options)) False None now
        | None \<Rightarrow>
            (new_reader no_request (qo_page_row_count options) (Some (qo_metadata options)) False None now)
              \<lparr>rd_state := Terminated Finished\<rparr>)
       [PushJob (first_page_job options)]"

text \<open>\<open>DecodeQueue::push\<close>: the ordered queue, or a task of the pool.\<close>

definition lane_push :: "decode_job \<Rightarrow> lane \<Rightarrow> lane" where
  "lane_push job ln =
     (let ln = ln\<lparr>ln_pushed := ln_pushed ln @ [job]\<rparr>
      in if ln_ordered ln
         then (case oq_push job (ln_queue ln) of (q, spawn) \<Rightarrow>
                 ln\<lparr>ln_queue := q, ln_workers := ln_workers ln @ (if spawn then [AtHead] else [])\<rparr>)
         else ln\<lparr>ln_workers := ln_workers ln @ [Taken job]\<rparr>)"

text \<open>
  Carrying out one effect of the reader: a fatal error cancels all and waits for a slot of the
  channel, a payload waits for a permit. The reader gives up when the flag is set or the channel
  closed while it waits.
\<close>

definition perform :: "bool \<Rightarrow> receiver \<Rightarrow> effect \<Rightarrow> lane \<Rightarrow> (lane \<times> receiver) option" where
  "perform free rx e ln =
     (case e of
        CancelAll \<Rightarrow> Some (ln, rx\<lparr>rx_cancel_flag := True\<rparr>)
      | SendError err \<Rightarrow>
          if rx_closed rx \<or> free then Some (ln, channel_send (Inl err) rx) else None
      | PushJob job \<Rightarrow>
          if rx_cancel_flag rx \<or> rx_closed rx
          then Some (ln\<lparr>ln_reader := (ln_reader ln)\<lparr>rd_state := Terminated Finished\<rparr>\<rparr>, rx)
          else if free then Some (lane_push job ln, rx) else None
      | _ \<Rightarrow> Some (ln, rx))"

definition without :: "nat \<Rightarrow> 'a list \<Rightarrow> 'a list" where
  "without n xs = take n xs @ drop (Suc n) xs"

text \<open>One action of a worker: a round of \<open>drain\<close>, or a part of the job it runs.\<close>

definition lane_work :: "bool \<Rightarrow> receiver \<Rightarrow> nat \<Rightarrow> lane \<Rightarrow> (lane \<times> receiver) option" where
  "lane_work free rx w ln =
     (if length (ln_workers ln) \<le> w then None
      else case ln_workers ln ! w of
             AtHead \<Rightarrow>
               (case oq_pop (ln_queue ln) of
                  (q, Some job) \<Rightarrow> Some (ln\<lparr>ln_queue := q, ln_workers := (ln_workers ln)[w := Taken job]\<rparr>, rx)
                | (q, None) \<Rightarrow> Some (ln\<lparr>ln_queue := q, ln_workers := without w (ln_workers ln)\<rparr>, rx))
           | wk \<Rightarrow>
               (case worker_step (rc_ipc (ln_cfg ln)) free rx wk of
                  None \<Rightarrow> None
                | Some (wk', rx', sent) \<Rightarrow>
                    Some (ln\<lparr>ln_workers := (case wk' of
                               Some wk' \<Rightarrow> (ln_workers ln)[w := wk']
                             | None \<Rightarrow> if ln_ordered ln then (ln_workers ln)[w := AtHead]
                                       else without w (ln_workers ln)),
                             ln_sent := ln_sent ln @ sent\<rparr>, rx')))"

section \<open>The system\<close>

text \<open>
  \<open>sy_slots\<close> is the capacity of the channel and \<open>sy_fallback\<close> what the cutover of the first task
  resolves to, if it has one. \<open>sy_schema\<close>, \<open>sy_got\<close>, \<open>sy_ended\<close> and \<open>sy_dropped\<close> record what was
  sent on the one-shot channel, what the consumer received, whether it saw the end, and whether it
  gave up the receiver itself.
\<close>

record read_system =
  sy_slots :: nat
  sy_rx :: receiver
  sy_lanes :: "lane list"
  sy_fallback :: "(bq_error, lane list) res option"
  sy_schema :: "(bq_error, arrow_schema option) res list"
  sy_got :: "(bq_error, record_batch) res list"
  sy_ended :: bool
  sy_dropped :: bool

definition start_system :: "nat \<Rightarrow> receiver \<Rightarrow> lane list \<Rightarrow> (bq_error, lane list) res option \<Rightarrow> read_system" where
  "start_system slots rx lanes fallback =
     \<lparr>sy_slots = slots, sy_rx = rx, sy_lanes = lanes, sy_fallback = fallback, sy_schema = [],
      sy_got = [], sy_ended = False, sy_dropped = False\<rparr>"

text \<open>Slots in use are buffered items and permits; a sender is a live task or a job not finished.\<close>

definition permits :: "lane \<Rightarrow> nat" where
  "permits ln = length (oq_queue (ln_queue ln)) + length (filter holds_slot (ln_workers ln))"

definition sends :: "lane \<Rightarrow> bool" where
  "sends ln \<longleftrightarrow> ln_task ln \<or> oq_queue (ln_queue ln) \<noteq> [] \<or> list_ex (\<lambda>w. w \<noteq> AtHead) (ln_workers ln)"

definition slots_used :: "read_system \<Rightarrow> nat" where
  "slots_used s = length (rx_items (sy_rx s)) + sum_list (map permits (sy_lanes s))"

definition slot_free :: "read_system \<Rightarrow> bool" where
  "slot_free s \<longleftrightarrow> slots_used s < sy_slots s"

definition senders_alive :: "read_system \<Rightarrow> bool" where
  "senders_alive s \<longleftrightarrow> list_ex sends (sy_lanes s)"

datatype read_action =
    ReaderStep nat step_in
  | Perform nat
  | TaskEnds nat
  | TaskAborted nat
  | Work nat nat
  | Recv
  | Abort

definition set_lane :: "nat \<Rightarrow> lane \<times> receiver \<Rightarrow> read_system \<Rightarrow> read_system" where
  "set_lane k lr s = s\<lparr>sy_lanes := (sy_lanes s)[k := fst lr], sy_rx := snd lr\<rparr>"

text \<open>A transition of the reader: cancellation wins whenever the flag is set.\<close>

definition do_step :: "step_in \<Rightarrow> receiver \<Rightarrow> lane \<Rightarrow> lane option" where
  "do_step i rx ln =
     (if ln_task ln \<and> ln_outbox ln = [] \<and> \<not> is_terminated (ln_reader ln)
         \<and> (in_cancelled i \<or> in_select_cancelled i) = rx_cancel_flag rx \<and> in_reserve i = Reserved
      then (case step (ln_cfg ln) i (ln_reader ln) of (r, es) \<Rightarrow>
              Some (ln\<lparr>ln_reader := r, ln_outbox := es, ln_log := ln_log ln @ es\<rparr>))
      else None)"

definition do_perform :: "nat \<Rightarrow> read_system \<Rightarrow> read_system option" where
  "do_perform k s =
     (case ln_outbox (sy_lanes s ! k) of
        [] \<Rightarrow> None
      | e # es \<Rightarrow>
          map_option (\<lambda>lr. (set_lane k lr s)\<lparr>sy_schema := sy_schema s @ (case e of SendSchema m \<Rightarrow> [m] | _ \<Rightarrow> [])\<rparr>)
            (perform (slot_free s) (sy_rx s) e ((sy_lanes s ! k)\<lparr>ln_outbox := es\<rparr>)))"

text \<open>The task of a reader that has terminated returns, or cuts over to a read session.\<close>

definition do_end :: "nat \<Rightarrow> read_system \<Rightarrow> read_system option" where
  "do_end k s =
     (let ln = sy_lanes s ! k
      in if ln_task ln \<and> ln_outbox ln = [] \<and> is_terminated (ln_reader ln)
         then (case (rd_state (ln_reader ln), sy_fallback s) of
                 (Terminated SwitchToReadSession, Some (Inl err)) \<Rightarrow>
                   Some ((set_lane k (ln\<lparr>ln_outbox := [CancelAll, SendError err],
                            ln_log := ln_log ln @ [CancelAll, SendError err],
                            ln_reader := (ln_reader ln)\<lparr>rd_state := Terminated Finished\<rparr>\<rparr>, sy_rx s) s)
                         \<lparr>sy_fallback := None\<rparr>)
               | (Terminated SwitchToReadSession, Some (Inr lanes)) \<Rightarrow>
                   Some (let s = set_lane k (ln\<lparr>ln_task := False\<rparr>, sy_rx s) s
                         in s\<lparr>sy_lanes := sy_lanes s @ lanes, sy_fallback := None\<rparr>)
               | _ \<Rightarrow> Some (set_lane k (ln\<lparr>ln_task := False\<rparr>, sy_rx s) s))
         else None)"

text \<open>
  \<open>recv\<close>: the next item, or the end once nobody can send; a closed channel ends when it is empty
  and every permit has been used or given back.
\<close>

definition do_recv :: "read_system \<Rightarrow> read_system option" where
  "do_recv s =
     (if rx_items (sy_rx s) = [] \<and> rx_closed (sy_rx s) \<and> 0 < slots_used s then None
      else map_option (\<lambda>(item, rx).
             s\<lparr>sy_rx := rx, sy_got := sy_got s @ (case item of Some r \<Rightarrow> [r] | None \<Rightarrow> []),
               sy_ended := (sy_ended s \<or> item = None)\<rparr>)
             (receiver_recv ((sy_rx s)\<lparr>rx_senders := senders_alive s\<rparr>)))"

fun sys_step :: "read_action \<Rightarrow> read_system \<Rightarrow> read_system option" where
  "sys_step (ReaderStep k i) s =
     (if k < length (sy_lanes s)
      then map_option (\<lambda>ln. set_lane k (ln, sy_rx s) s) (do_step i (sy_rx s) (sy_lanes s ! k))
      else None)"
| "sys_step (Perform k) s = (if k < length (sy_lanes s) then do_perform k s else None)"
| "sys_step (TaskEnds k) s = (if k < length (sy_lanes s) then do_end k s else None)"
| "sys_step (TaskAborted k) s =
     (if k < length (sy_lanes s) \<and> ln_task (sy_lanes s ! k) \<and> rx_aborted (sy_rx s) \<noteq> []
      then Some (set_lane k ((sy_lanes s ! k)\<lparr>ln_task := False, ln_outbox := []\<rparr>, sy_rx s) s) else None)"
| "sys_step (Work k w) s =
     (if k < length (sy_lanes s)
      then map_option (\<lambda>lr. set_lane k lr s) (lane_work (slot_free s) (sy_rx s) w (sy_lanes s ! k))
      else None)"
| "sys_step Recv s = do_recv s"
| "sys_step Abort s = Some (s\<lparr>sy_rx := receiver_abort (sy_rx s), sy_dropped := True\<rparr>)"

definition sys_run :: "read_action list \<Rightarrow> read_system \<Rightarrow> read_system option" where
  "sys_run = run_actions sys_step"

text \<open>
  What the consumer received, and the end it should rely on: it received no error, on neither
  channel, and then the end, without having given up the receiver before.
\<close>

definition oks :: "('e, 'a) res list \<Rightarrow> 'a list" where
  "oks rs = List.map_filter (\<lambda>r. case r of Inr a \<Rightarrow> Some a | Inl e \<Rightarrow> None) rs"

definition errs :: "('e, 'a) res list \<Rightarrow> 'e list" where
  "errs rs = List.map_filter (\<lambda>r. case r of Inr a \<Rightarrow> None | Inl e \<Rightarrow> Some e) rs"

definition clean_end :: "read_system \<Rightarrow> bool" where
  "clean_end s \<longleftrightarrow> sy_ended s \<and> \<not> sy_dropped s \<and> errs (sy_got s) = [] \<and> errs (sy_schema s) = []"

section \<open>The system of a started read\<close>

text \<open>The tasks that a read leaves behind; the fallback of a job stream is resolved by \<open>log\<close>.\<close>

definition start_read :: "world \<Rightarrow> client \<Rightarrow> rpc list \<Rightarrow> receiver \<Rightarrow> started \<Rightarrow> read_system" where
  "start_read w c log rx st =
     (let lane = stream_lane (wd_ipc w) (wd_gax w) (wd_now w);
          slots = channel_size (wd_platform w)
      in case st of
           NothingStarted \<Rightarrow> start_system slots rx [] None
         | TableReaders options \<Rightarrow> start_system slots rx (map lane options) None
         | QueryReader options \<Rightarrow> start_system slots rx [query_lane (wd_ipc w) (wd_gax w) (wd_now w) options] None
         | JobStream task \<Rightarrow> start_system slots rx [lane (jt_options task)]
             (map_option (\<lambda>d. map_sum id (map lane) (fst (switch_to_read_session w c d log))) (jt_fallback task)))"

end
