(* ===== verification/Read_System_Proofs.thy ===== *)
theory Read_System_Proofs
  imports Read_System
begin

text \<open>
  What the consumer of a read sees under every interleaving of its readers, its decode jobs, its
  queues and its own receiving: the rows it was sent come from the jobs queued, in order for an
  ordered read and never twice; the flag is set only with an error on its way to the consumer or
  after the consumer gave up; and an end without an error is the end of the data.
\<close>

section \<open>Lists of results and of workers\<close>

lemma oks_simps [simp]:
  "oks [] = []" "oks (Inr a # rs) = a # oks rs" "oks (Inl e # rs) = oks rs"
  "oks (rs @ rs') = oks rs @ oks rs'"
  by (simp_all add: oks_def List.map_filter_def)

lemma errs_simps [simp]:
  "errs [] = []" "errs (Inr a # rs) = errs rs" "errs (Inl e # rs) = e # errs rs"
  "errs (rs @ rs') = errs rs @ errs rs'"
  by (simp_all add: errs_def List.map_filter_def)

lemma map_sum_Inr: "map_sum id f r = Inr b \<longleftrightarrow> (\<exists>a. r = Inr a \<and> b = f a)"
  by (cases r) auto

lemma errs_Nil_iff: "errs rs = [] \<longleftrightarrow> (\<forall>e. Inl e \<notin> set rs)"
  by (induction rs) (auto split: sum.splits simp: errs_def List.map_filter_def)

lemma mset_update_concat:
  "w < length ws \<Longrightarrow>
     mset (concat (map f (ws[w := x]))) + mset (f (ws ! w)) = mset (concat (map f ws)) + mset (f x)"
proof (induction ws arbitrary: w)
  case (Cons a ws)
  then show ?case by (cases w) (auto simp: ac_simps)
qed simp

lemma mset_without_concat:
  "w < length ws \<Longrightarrow> mset (concat (map f (without w ws))) + mset (f (ws ! w)) = mset (concat (map f ws))"
proof (induction ws arbitrary: w)
  case (Cons a ws)
  then show ?case by (cases w) (auto simp: ac_simps without_def)
qed simp

lemma set_without: "set (without w ws) \<subseteq> set ws"
  by (auto simp: without_def dest: in_set_takeD in_set_dropD)

section \<open>Batches owed\<close>

definition job_batches :: "ipc \<Rightarrow> decode_job \<Rightarrow> record_batch list" where
  "job_batches ipc j =
     (case decode_arrow_record_batches ipc (dj_bytes j) (dj_expected_row_count j) (dj_metadata j) of
        Inr bs \<Rightarrow> bs | Inl e \<Rightarrow> [])"

definition owed :: "ipc \<Rightarrow> decode_job list \<Rightarrow> record_batch list" where
  "owed ipc js = concat (map (job_batches ipc) js)"

text \<open>The batches a worker has yet to send, and those it may still send after a cancellation.\<close>

fun todo :: "ipc \<Rightarrow> worker \<Rightarrow> record_batch list" where
  "todo ipc (Taken j) = job_batches ipc j"
| "todo ipc (Decoding j) = job_batches ipc j"
| "todo ipc (Holding r) = (case r of Inr bs \<Rightarrow> bs | Inl e \<Rightarrow> [])"
| "todo ipc (Sending bs) = bs"
| "todo ipc (Blocked b bs) = b # bs"
| "todo ipc _ = []"

fun committed :: "ipc \<Rightarrow> worker \<Rightarrow> record_batch list" where
  "committed ipc (Taken j) = []"
| "committed ipc (Decoding j) = []"
| "committed ipc w = todo ipc w"

lemma owed_simps [simp]:
  "owed ipc [] = []" "owed ipc (j # js) = job_batches ipc j @ owed ipc js"
  "owed ipc (js @ js') = owed ipc js @ owed ipc js'"
  by (simp_all add: owed_def)

definition next_of :: "(worker \<Rightarrow> 'a list) \<Rightarrow> worker option \<Rightarrow> 'a list" where
  "next_of f w = (case w of None \<Rightarrow> [] | Some w \<Rightarrow> f w)"

lemma next_of_simps [simp]: "next_of f None = []" "next_of f (Some w) = f w"
  by (simp_all add: next_of_def)

text \<open>A worker sends what it owes: all of it while nothing is cancelled.\<close>

lemma worker_sends:
  assumes "worker_step ipc free rx wk = Some (wk', rx', sent)" "rx_closed rx \<longrightarrow> rx_cancel_flag rx"
  shows "\<not> rx_cancel_flag rx \<Longrightarrow> todo ipc wk = sent @ next_of (todo ipc) wk'"
    and "\<not> rx_cancel_flag rx \<Longrightarrow> prefix (sent @ next_of (committed ipc) wk') (todo ipc wk)"
    and "rx_cancel_flag rx \<Longrightarrow> prefix (sent @ next_of (committed ipc) wk') (committed ipc wk)"
    and "oks (rx_items rx') = oks (rx_items rx) @ sent"
    and "wk' \<noteq> Some AtHead" "wk \<noteq> AtHead"
    and "rx_cancel_flag rx \<Longrightarrow> rx_cancel_flag rx'"
    and "rx_closed rx' = rx_closed rx" "rx_cancel_tx rx' = rx_cancel_tx rx" "rx_aborted rx' = rx_aborted rx"
  using assms
  by (cases "(ipc, free, rx, wk)" rule: worker_step.cases;
      auto simp: job_batches_def permit_send_def channel_send_def split: if_splits sum.splits)+

section \<open>What a lane keeps\<close>

abbreviation lane_ipc :: "lane \<Rightarrow> ipc" where "lane_ipc ln \<equiv> rc_ipc (ln_cfg ln)"

abbreviation owed_by :: "(ipc \<Rightarrow> worker \<Rightarrow> record_batch list) \<Rightarrow> lane \<Rightarrow> record_batch list" where
  "owed_by f ln \<equiv> concat (map (f (lane_ipc ln)) (ln_workers ln))"

text \<open>
  The ordered queue has one drain task while it is running and is empty otherwise. The work
  stealing queue has a worker per job and nothing queued.
\<close>

definition lane_shape :: "lane \<Rightarrow> bool" where
  "lane_shape ln \<longleftrightarrow>
     (if ln_ordered ln
      then (if oq_running (ln_queue ln) then length (ln_workers ln) = 1
            else ln_workers ln = [] \<and> oq_queue (ln_queue ln) = [])
      else oq_queue (ln_queue ln) = [] \<and> AtHead \<notin> set (ln_workers ln))
     \<and> (\<not> ln_task ln \<longrightarrow> ln_outbox ln = [])"

definition sent_in_order :: "bool \<Rightarrow> lane \<Rightarrow> bool" where
  "sent_in_order flag ln \<longleftrightarrow>
     prefix (ln_sent ln @ owed_by committed ln) (owed (lane_ipc ln) (ln_pushed ln))
     \<and> (\<not> flag \<longrightarrow> ln_sent ln @ owed_by todo ln @ owed (lane_ipc ln) (oq_queue (ln_queue ln))
          = owed (lane_ipc ln) (ln_pushed ln))"

definition sent_once :: "bool \<Rightarrow> lane \<Rightarrow> bool" where
  "sent_once flag ln \<longleftrightarrow>
     mset (ln_sent ln) + mset (owed_by committed ln) \<subseteq># mset (owed (lane_ipc ln) (ln_pushed ln))
     \<and> (\<not> flag \<longrightarrow> mset (ln_sent ln) + mset (owed_by todo ln) = mset (owed (lane_ipc ln) (ln_pushed ln)))"

definition lane_kept :: "bool \<Rightarrow> lane \<Rightarrow> bool" where
  "lane_kept flag ln \<longleftrightarrow>
     lane_shape ln \<and> (if ln_ordered ln then sent_in_order flag ln else sent_once flag ln)"

lemma lane_kept_mono: "lane_kept flag ln \<Longrightarrow> flag \<longrightarrow> flag' \<Longrightarrow> lane_kept flag' ln"
  by (auto simp: lane_kept_def sent_in_order_def sent_once_def)

lemma lane_kept_new: "lane_kept flag (new_lane cfg ordered r es)"
  by (simp add: lane_kept_def lane_shape_def sent_in_order_def sent_once_def new_lane_def oq_new_def)

lemma lane_kept_push:
  assumes "lane_kept flag ln" "ln_task ln"
  shows "lane_kept flag (lane_push j ln)"
proof (cases "ln_ordered ln")
  case True
  with assms show ?thesis
    by (auto simp: lane_kept_def lane_shape_def sent_in_order_def lane_push_def oq_push_def Let_def
        length_Suc_conv prefix_def split: if_splits)
next
  case False
  with assms show ?thesis
    by (auto simp: lane_kept_def lane_shape_def sent_once_def lane_push_def Let_def ac_simps
        intro: subset_mset.order_trans [OF _ mset_subset_eq_add_right])
qed

text \<open>One action of a worker, by where the worker stands.\<close>

lemma lane_work_cases:
  assumes "lane_work free rx w ln = Some (ln', rx')"
  obtains (taken) j q where "w < length (ln_workers ln)" "ln_workers ln ! w = AtHead"
      "oq_queue (ln_queue ln) = j # q" "rx' = rx"
      "ln' = ln\<lparr>ln_queue := (ln_queue ln)\<lparr>oq_queue := q\<rparr>, ln_workers := (ln_workers ln)[w := Taken j]\<rparr>"
  | (returned) "w < length (ln_workers ln)" "ln_workers ln ! w = AtHead"
      "oq_queue (ln_queue ln) = []" "rx' = rx"
      "ln' = ln\<lparr>ln_queue := (ln_queue ln)\<lparr>oq_running := False\<rparr>, ln_workers := without w (ln_workers ln)\<rparr>"
  | (ran) wk' sent where "w < length (ln_workers ln)"
      "worker_step (lane_ipc ln) free rx (ln_workers ln ! w) = Some (wk', rx', sent)"
      "ln' = ln\<lparr>ln_workers := (case wk' of Some wk' \<Rightarrow> (ln_workers ln)[w := wk']
           | None \<Rightarrow> if ln_ordered ln then (ln_workers ln)[w := AtHead] else without w (ln_workers ln)),
         ln_sent := ln_sent ln @ sent\<rparr>"
proof (cases "w < length (ln_workers ln)")
  case False
  with assms show ?thesis by (simp add: lane_work_def)
next
  case w: True
  show ?thesis
  proof (cases "ln_workers ln ! w = AtHead")
    case True
    with w assms that(1,2) show ?thesis
      by (cases "oq_queue (ln_queue ln)") (simp_all add: lane_work_def oq_pop_def)
  next
    case False
    from False w assms have "(case worker_step (lane_ipc ln) free rx (ln_workers ln ! w) of
                  None \<Rightarrow> None
                | Some (wk', rx', sent) \<Rightarrow>
                    Some (ln\<lparr>ln_workers := (case wk' of
                               Some wk' \<Rightarrow> (ln_workers ln)[w := wk']
                             | None \<Rightarrow> if ln_ordered ln then (ln_workers ln)[w := AtHead]
                                       else without w (ln_workers ln)),
                             ln_sent := ln_sent ln @ sent\<rparr>, rx')) = Some (ln', rx')"
      by (cases "ln_workers ln ! w") (simp_all add: lane_work_def del: worker_step.simps)
    with w that(3) show ?thesis by (auto split: option.splits prod.splits)
  qed
qed

lemma length_without: "w < length ws \<Longrightarrow> length (without w ws) = length ws - 1"
  by (simp add: without_def)

lemma lane_kept_work:
  assumes kept: "lane_kept (rx_cancel_flag rx) ln" and closed: "rx_closed rx \<longrightarrow> rx_cancel_flag rx"
    and work: "lane_work free rx w ln = Some (ln', rx')"
  shows "lane_kept (rx_cancel_flag rx') ln'"
  using work
proof (cases rule: lane_work_cases)
  case (taken j q)
  show ?thesis
  proof (cases "ln_ordered ln")
    case True
    with kept taken(1) obtain wk where "ln_workers ln = [wk]" "oq_running (ln_queue ln)"
      by (auto simp: lane_kept_def lane_shape_def length_Suc_conv split: if_splits)
    with True kept taken show ?thesis
      by (auto simp: lane_kept_def lane_shape_def sent_in_order_def)
  qed (use kept taken in \<open>auto simp: lane_kept_def lane_shape_def\<close>)
next
  case returned
  show ?thesis
  proof (cases "ln_ordered ln")
    case True
    with kept returned(1) obtain wk where "ln_workers ln = [wk]" "oq_running (ln_queue ln)"
      by (auto simp: lane_kept_def lane_shape_def length_Suc_conv split: if_splits)
    with True kept returned show ?thesis
      by (auto simp: lane_kept_def lane_shape_def sent_in_order_def without_def)
  next
    case False
    with kept returned(1,2) have "AtHead \<in> set (ln_workers ln)" by (metis nth_mem)
    with False kept show ?thesis by (simp add: lane_kept_def lane_shape_def)
  qed
next
  case (ran wk' sent)
  note ws = worker_sends [OF ran(2) closed]
  show ?thesis
  proof (cases "ln_ordered ln")
    case True
    with kept ran(1) obtain wk where wk: "ln_workers ln = [wk]" "oq_running (ln_queue ln)" "w = 0"
      by (auto simp: lane_kept_def lane_shape_def length_Suc_conv split: if_splits)
    have workers: "ln_workers ln' = [case wk' of Some x \<Rightarrow> x | None \<Rightarrow> AtHead]"
      using ran(3) wk True by (simp split: option.splits)
    have owed': "owed_by f ln' = next_of (f (lane_ipc ln)) wk'" if "f (lane_ipc ln) AtHead = []" for f
      using workers that ran(3) by (simp split: option.splits)
    have "prefix (ln_sent ln' @ owed_by committed ln') (owed (lane_ipc ln) (ln_pushed ln))"
    proof (cases "rx_cancel_flag rx")
      case f: True
      with ws(3) kept wk True show ?thesis
        using owed' [of committed] ran(3)
        by (auto simp: lane_kept_def sent_in_order_def prefix_def)
    next
      case f: False
      with ws(2) kept wk True show ?thesis
        using owed' [of committed] ran(3)
        by (auto simp: lane_kept_def sent_in_order_def prefix_def)
          (metis append.assoc)
    qed
    moreover have "ln_sent ln' @ owed_by todo ln' @ owed (lane_ipc ln) (oq_queue (ln_queue ln'))
        = owed (lane_ipc ln) (ln_pushed ln)" if "\<not> rx_cancel_flag rx'"
      using that ws(1,7) kept wk True owed' [of todo] ran(3)
      by (auto simp: lane_kept_def sent_in_order_def)
    moreover have "lane_shape ln'"
      using kept workers wk True ran(3) by (simp add: lane_kept_def lane_shape_def)
    ultimately show ?thesis
      using True ran(3) by (simp add: lane_kept_def sent_in_order_def)
  next
    case False
    have owed': "mset (owed_by f ln') + mset (f (lane_ipc ln) (ln_workers ln ! w))
        = mset (owed_by f ln) + mset (next_of (f (lane_ipc ln)) wk')" for f
      using ran(1,3) False mset_update_concat [of w "ln_workers ln" "f (lane_ipc ln)"]
        mset_without_concat [of w "ln_workers ln" "f (lane_ipc ln)"]
      by (simp split: option.splits)
    have sent': "ln_sent ln' = ln_sent ln @ sent" using ran(3) by simp
    have shape: "lane_shape ln'"
      using kept False ran(3) ws(5) set_without [of w "ln_workers ln"]
        set_update_subset_insert [of "ln_workers ln" w]
      by (cases wk') (auto simp: lane_kept_def lane_shape_def)
    have todo': "mset (ln_sent ln') + mset (owed_by todo ln') = mset (ln_sent ln) + mset (owed_by todo ln)"
      if "\<not> rx_cancel_flag rx"
      using owed' [of todo] ws(1) [OF that] sent' by (simp add: ac_simps)
    have "mset (ln_sent ln') + mset (owed_by committed ln') \<subseteq># mset (owed (lane_ipc ln) (ln_pushed ln))"
    proof (cases "rx_cancel_flag rx")
      case True
      from ws(3) [OF this] obtain rest where
        "mset (committed (lane_ipc ln) (ln_workers ln ! w)) =
          mset sent + mset (next_of (committed (lane_ipc ln)) wk') + mset rest"
        by (auto simp: prefix_def)
      with owed' [of committed] sent'
      have "mset (ln_sent ln') + mset (owed_by committed ln') + mset rest
          = mset (ln_sent ln) + mset (owed_by committed ln)"
        by (simp add: ac_simps)
      then have "mset (ln_sent ln') + mset (owed_by committed ln') \<subseteq># mset (ln_sent ln) + mset (owed_by committed ln)"
        using mset_subset_eq_add_left by metis
      moreover have "mset (ln_sent ln) + mset (owed_by committed ln) \<subseteq># mset (owed (lane_ipc ln) (ln_pushed ln))"
        using kept False by (simp add: lane_kept_def sent_once_def)
      ultimately show ?thesis by (rule subset_mset.order_trans)
    next
      case flag: False
      have le: "mset (committed ipc v) \<subseteq># mset (todo ipc v)" for ipc v
        by (cases v) simp_all
      have le_all: "mset (concat (map (committed ipc) vs)) \<subseteq># mset (concat (map (todo ipc) vs))" for ipc vs
        by (induction vs) (auto intro: subset_mset.add_mono le)
      have "mset (ln_sent ln') + mset (owed_by todo ln') = mset (owed (lane_ipc ln) (ln_pushed ln))"
        using todo' [OF flag] kept False flag by (simp add: lane_kept_def sent_once_def)
      moreover have "lane_ipc ln' = lane_ipc ln" using ran(3) by simp
      ultimately show ?thesis
        using subset_mset.add_left_mono [OF le_all [of "lane_ipc ln" "ln_workers ln'"], of "mset (ln_sent ln')"]
        by simp
    qed
    moreover have "mset (ln_sent ln') + mset (owed_by todo ln') = mset (owed (lane_ipc ln) (ln_pushed ln))"
      if "\<not> rx_cancel_flag rx'"
      using that ws(7) todo' kept False by (auto simp: lane_kept_def sent_once_def)
    ultimately show ?thesis
      using shape False ran(3) by (simp add: lane_kept_def sent_once_def)
  qed
qed

section \<open>The actions on one lane\<close>

text \<open>What an action changes in the lane it acts on, in the receiver, and on the schema channel.\<close>

inductive lane_act ::
  "(step_in \<Rightarrow> bool) \<Rightarrow> bool \<Rightarrow> receiver \<Rightarrow> lane \<Rightarrow> lane \<Rightarrow> receiver
     \<Rightarrow> (bq_error, arrow_schema option) res list \<Rightarrow> bool"
  for P free rx ln where
  stepped: "P i \<Longrightarrow> do_step i rx ln = Some ln' \<Longrightarrow> lane_act P free rx ln ln' rx []"
| performed: "ln_outbox ln = e # es \<Longrightarrow> perform free rx e (ln\<lparr>ln_outbox := es\<rparr>) = Some (ln', rx') \<Longrightarrow>
    lane_act P free rx ln ln' rx' (case e of SendSchema m \<Rightarrow> [m] | _ \<Rightarrow> [])"
| ended: "ln_task ln \<Longrightarrow> ln_outbox ln = [] \<Longrightarrow> is_terminated (ln_reader ln) \<Longrightarrow>
    lane_act P free rx ln (ln\<lparr>ln_task := False\<rparr>) rx []"
| cutover_failed: "ln_task ln \<Longrightarrow> ln_outbox ln = [] \<Longrightarrow> rd_state (ln_reader ln) = Terminated SwitchToReadSession \<Longrightarrow>
    lane_act P free rx ln (ln\<lparr>ln_outbox := [CancelAll, SendError err],
      ln_log := ln_log ln @ [CancelAll, SendError err],
      ln_reader := (ln_reader ln)\<lparr>rd_state := Terminated Finished\<rparr>\<rparr>) rx []"
| aborted: "ln_task ln \<Longrightarrow> rx_aborted rx \<noteq> [] \<Longrightarrow>
    lane_act P free rx ln (ln\<lparr>ln_task := False, ln_outbox := []\<rparr>) rx []"
| worked: "lane_work free rx w ln = Some (ln', rx') \<Longrightarrow> lane_act P free rx ln ln' rx' []"

text \<open>The actions that may be taken: those whose reader inputs satisfy a condition per lane.\<close>

definition inputs_ok :: "(nat \<Rightarrow> step_in \<Rightarrow> bool) \<Rightarrow> read_action \<Rightarrow> bool" where
  "inputs_ok P a \<longleftrightarrow> (case a of ReaderStep k i \<Rightarrow> P k i | _ \<Rightarrow> True)"

lemma inputs_ok_simps [simp]:
  "inputs_ok P (ReaderStep k i) = P k i" "inputs_ok P (Perform k)" "inputs_ok P (TaskEnds k)"
  "inputs_ok P (TaskAborted k)" "inputs_ok P (Work k w)" "inputs_ok P Recv" "inputs_ok P Abort"
  by (simp_all add: inputs_ok_def)

text \<open>What may happen to the fallback: nothing, the cutover to its lanes, or its failure.\<close>

definition fallback_act :: "read_system \<Rightarrow> lane \<Rightarrow> lane \<Rightarrow> bool \<Rightarrow> lane list
    \<Rightarrow> (bq_error, lane list) res option \<Rightarrow> bool" where
  "fallback_act s ln ln' same extra fb \<longleftrightarrow>
     fb = sy_fallback s \<and> extra = []
       \<and> (rd_state (ln_reader ln) = Terminated SwitchToReadSession \<longrightarrow> ln_outbox ln = [] \<longrightarrow> ln_outbox ln' = [])
     \<or> fb = None \<and> sy_fallback s = Some (Inr extra) \<and> same \<and> ln' = ln\<lparr>ln_task := False\<rparr> \<and> ln_task ln
       \<and> ln_outbox ln = [] \<and> rd_state (ln_reader ln) = Terminated SwitchToReadSession
     \<or> fb = None \<and> extra = [] \<and> (\<exists>err. sy_fallback s = Some (Inl err))
       \<and> rd_state (ln_reader ln) = Terminated SwitchToReadSession"

lemma lane_step_cases:
  assumes "sys_step a s = Some s'" "inputs_ok P a" "a \<noteq> Recv" "a \<noteq> Abort"
  obtains (lane) k ln' rx' sch extra fb where "k < length (sy_lanes s)"
      "lane_act (P k) (slot_free s) (sy_rx s) (sy_lanes s ! k) ln' rx' sch"
      "s' = s\<lparr>sy_lanes := (sy_lanes s)[k := ln'] @ extra, sy_rx := rx', sy_schema := sy_schema s @ sch,
         sy_fallback := fb\<rparr>"
      "fallback_act s (sy_lanes s ! k) ln' (rx' = sy_rx s \<and> sch = []) extra fb"
proof (cases a)
  case (ReaderStep k i)
  with assms obtain ln where "k < length (sy_lanes s)" "do_step i (sy_rx s) (sy_lanes s ! k) = Some ln"
    "s' = set_lane k (ln, sy_rx s) s" "P k i"
    by (auto split: if_splits)
  then show ?thesis
    by (intro lane [of k ln "sy_rx s" "[]" "sy_fallback s" "[]"])
      (auto simp: set_lane_def fallback_act_def do_step_def is_terminated_def intro: lane_act.stepped split: if_splits)
next
  case (Perform k)
  with assms obtain e es lr where "k < length (sy_lanes s)" "ln_outbox (sy_lanes s ! k) = e # es"
    "perform (slot_free s) (sy_rx s) e ((sy_lanes s ! k)\<lparr>ln_outbox := es\<rparr>) = Some lr"
    "s' = (set_lane k lr s)\<lparr>sy_schema := sy_schema s @ (case e of SendSchema m \<Rightarrow> [m] | _ \<Rightarrow> [])\<rparr>"
    by (auto simp: do_perform_def split: if_splits list.splits)
  then show ?thesis
    by (intro lane [of k "fst lr" "snd lr" "case e of SendSchema m \<Rightarrow> [m] | _ \<Rightarrow> []" "sy_fallback s" "[]"])
      (auto simp: set_lane_def fallback_act_def intro: lane_act.performed)
next
  case (TaskEnds k)
  with assms have k: "k < length (sy_lanes s)" "do_end k s = Some s'" by (auto split: if_splits)
  then have ends: "ln_task (sy_lanes s ! k)" "ln_outbox (sy_lanes s ! k) = []" "is_terminated (ln_reader (sy_lanes s ! k))"
    by (auto simp: do_end_def Let_def split: if_splits)
  show ?thesis
  proof (cases "rd_state (ln_reader (sy_lanes s ! k)) = Terminated SwitchToReadSession \<and> sy_fallback s \<noteq> None")
    case False
    with k ends have "s' = set_lane k ((sy_lanes s ! k)\<lparr>ln_task := False\<rparr>, sy_rx s) s"
      by (auto simp: do_end_def Let_def split: if_splits read_state.splits termination_reason.splits option.splits)
    with k ends show ?thesis
      by (intro lane [of k "(sy_lanes s ! k)\<lparr>ln_task := False\<rparr>" "sy_rx s" "[]" "sy_fallback s" "[]"])
        (auto simp: set_lane_def fallback_act_def intro: lane_act.ended)
  next
    case True
    then obtain fb where fb: "sy_fallback s = Some fb" "rd_state (ln_reader (sy_lanes s ! k)) = Terminated SwitchToReadSession"
      by auto
    show ?thesis
    proof (cases fb)
      case (Inl err)
      with fb k ends show ?thesis
        by (intro lane [of k "(sy_lanes s ! k)\<lparr>ln_outbox := [CancelAll, SendError err],
              ln_log := ln_log (sy_lanes s ! k) @ [CancelAll, SendError err],
              ln_reader := (ln_reader (sy_lanes s ! k))\<lparr>rd_state := Terminated Finished\<rparr>\<rparr>" "sy_rx s" "[]" "None" "[]"])
          (auto simp: do_end_def set_lane_def fallback_act_def Let_def intro: lane_act.cutover_failed)
    next
      case (Inr lanes)
      with fb k ends show ?thesis
        by (intro lane [of k "(sy_lanes s ! k)\<lparr>ln_task := False\<rparr>" "sy_rx s" "[]" "None" lanes])
          (auto simp: do_end_def set_lane_def fallback_act_def Let_def intro: lane_act.ended)
    qed
  qed
next
  case (TaskAborted k)
  with assms show ?thesis
    by (intro lane [of k "(sy_lanes s ! k)\<lparr>ln_task := False, ln_outbox := []\<rparr>" "sy_rx s" "[]" "sy_fallback s" "[]"])
      (auto simp: set_lane_def fallback_act_def intro: lane_act.aborted split: if_splits)
next
  case (Work k w)
  with assms obtain ln' rx' where work: "k < length (sy_lanes s)"
    "lane_work (slot_free s) (sy_rx s) w (sy_lanes s ! k) = Some (ln', rx')" "s' = set_lane k (ln', rx') s"
    by (auto split: if_splits)
  have "ln_outbox ln' = ln_outbox (sy_lanes s ! k)" using work(2) by (cases rule: lane_work_cases) simp_all
  with work show ?thesis
    by (intro lane [of k ln' rx' "[]" "sy_fallback s" "[]"])
      (auto simp: set_lane_def fallback_act_def intro: lane_act.worked)
qed (use assms in auto)

lemma sys_step_cases:
  assumes "sys_step a s = Some s'" "inputs_ok P a"
  obtains (lane) k ln' rx' sch extra fb where "k < length (sy_lanes s)"
      "lane_act (P k) (slot_free s) (sy_rx s) (sy_lanes s ! k) ln' rx' sch"
      "s' = s\<lparr>sy_lanes := (sy_lanes s)[k := ln'] @ extra, sy_rx := rx', sy_schema := sy_schema s @ sch,
         sy_fallback := fb\<rparr>"
      "fallback_act s (sy_lanes s ! k) ln' (rx' = sy_rx s \<and> sch = []) extra fb"
  | (item) r rest where "rx_items (sy_rx s) = r # rest"
      "s' = s\<lparr>sy_rx := (let rx = (sy_rx s)\<lparr>rx_senders := senders_alive s, rx_items := rest\<rparr>
           in if (\<exists>e. r = Inl e) then receiver_abort rx else rx), sy_got := sy_got s @ [r]\<rparr>"
  | (end_seen) "rx_items (sy_rx s) = []"
      "rx_closed (sy_rx s) \<and> slots_used s = 0 \<or> \<not> rx_closed (sy_rx s) \<and> \<not> senders_alive s"
      "s' = s\<lparr>sy_rx := receiver_abort ((sy_rx s)\<lparr>rx_senders := senders_alive s\<rparr>), sy_ended := True\<rparr>"
  | (gave_up) "s' = s\<lparr>sy_rx := receiver_abort (sy_rx s), sy_dropped := True\<rparr>"
proof (cases "a = Recv \<or> a = Abort")
  case False
  then have "a \<noteq> Recv" "a \<noteq> Abort" by auto
  from lane_step_cases [OF assms this] lane show ?thesis by metis
next
  case True
  then consider "a = Abort" | r rest where "a = Recv" "rx_items (sy_rx s) = r # rest"
    | "a = Recv" "rx_items (sy_rx s) = []"
    by (cases "rx_items (sy_rx s)") auto
  then show ?thesis
  proof cases
    case 1
    with assms show ?thesis by (intro gave_up) simp
  next
    case (2 r rest)
    with assms show ?thesis
      by (intro item [of r rest])
        (auto simp: do_recv_def receiver_recv_def channel_recv_def Let_def split: sum.splits)
  next
    case 3
    with assms show ?thesis
      by (intro end_seen) (auto simp: do_recv_def receiver_recv_def channel_recv_def split: if_splits)
  qed
qed

section \<open>No cancellation without an error\<close>

text \<open>Errors on their way to the consumer: the effects still to be carried out, a failing job.\<close>

definition is_error :: "effect \<Rightarrow> bool" where
  "is_error e \<longleftrightarrow> is_failure e \<and> e \<noteq> CancelAll"

fun announces :: "effect list \<Rightarrow> bool" where
  "announces [] = True"
| "announces (CancelAll # es) = (list_ex is_error es \<and> announces es)"
| "announces (e # es) = announces es"

definition lane_fails :: "lane \<Rightarrow> bool" where
  "lane_fails ln \<longleftrightarrow> list_ex is_error (ln_outbox ln) \<or> (\<exists>e. Failing e \<in> set (ln_workers ln))"

definition error_pending :: "read_system \<Rightarrow> bool" where
  "error_pending s \<longleftrightarrow> errs (sy_got s @ rx_items (sy_rx s)) \<noteq> [] \<or> errs (sy_schema s) \<noteq> []
     \<or> list_ex lane_fails (sy_lanes s)"

lemma is_error_message [simp]: "is_error (error_message r err)"
  by (auto simp: is_error_def error_message_def)

lemma announces_clean: "clean es \<Longrightarrow> announces (es @ fs) = announces fs"
  by (induction es rule: announces.induct) auto

lemma announces_step: "rstep i r r' es \<Longrightarrow> announces es"
proof (induction rule: rstep.induct)
  case (fatal r r0 pre es check err)
  then show ?case
    by (simp add: announces_clean learns_clean quiet_clean) (simp add: error_message_def)
qed (auto simp: announces_clean [where fs = "[]", simplified] learns_clean quiet_clean)

lemma announces_tail: "announces (e # es) \<Longrightarrow> announces es"
  by (cases e) simp_all

text \<open>What one action may do to the flag, to the pending errors and to the batches in the channel.\<close>

lemma lane_push_fields [simp]:
  "ln_reader (lane_push j ln) = ln_reader ln" "ln_outbox (lane_push j ln) = ln_outbox ln"
  "ln_task (lane_push j ln) = ln_task ln" "ln_cfg (lane_push j ln) = ln_cfg ln"
  "ln_log (lane_push j ln) = ln_log ln" "ln_sent (lane_push j ln) = ln_sent ln"
  "ln_pushed (lane_push j ln) = ln_pushed ln @ [j]" "ln_ordered (lane_push j ln) = ln_ordered ln"
  by (simp_all add: lane_push_def oq_push_def Let_def)

lemma lane_push_failing: "Failing e \<in> set (ln_workers (lane_push j ln)) \<longleftrightarrow> Failing e \<in> set (ln_workers ln)"
  by (auto simp: lane_push_def oq_push_def Let_def)

lemma perform_fields:
  assumes "perform free rx e ln = Some (ln', rx')"
  shows "ln_outbox ln' = ln_outbox ln" "ln_task ln' = ln_task ln" "ln_cfg ln' = ln_cfg ln" "ln_log ln' = ln_log ln"
    "ln_sent ln' = ln_sent ln" "ln_ordered ln' = ln_ordered ln"
    "Failing err \<in> set (ln_workers ln') \<longleftrightarrow> Failing err \<in> set (ln_workers ln)"
    "oks (rx_items rx') = oks (rx_items rx)"
    "rx_closed rx' = rx_closed rx" "rx_cancel_tx rx' = rx_cancel_tx rx" "rx_aborted rx' = rx_aborted rx"
    "rx_cancel_flag rx \<Longrightarrow> rx_cancel_flag rx'"
  using assms
  by (auto simp: perform_def lane_push_failing channel_send_def split: effect.splits if_splits)

lemma perform_reader:
  assumes "perform free rx e ln = Some (ln', rx')" "rx_closed rx \<longrightarrow> rx_cancel_flag rx"
  shows "ln_reader ln' = ln_reader ln
    \<or> ln_reader ln' = (ln_reader ln)\<lparr>rd_state := Terminated Finished\<rparr> \<and> rx_cancel_flag rx \<and> rx' = rx"
proof (cases "\<exists>j. e = PushJob j")
  case True
  with assms show ?thesis by (cases "rx_cancel_flag rx") (auto simp: perform_def split: if_splits)
next
  case False
  with assms(1) show ?thesis by (cases e) (auto simp: perform_def split: if_splits)
qed

lemma do_step_fields:
  assumes "do_step i rx ln = Some ln'"
  shows "ln_task ln' = ln_task ln" "ln_cfg ln' = ln_cfg ln" "ln_task ln" "ln_outbox ln = []"
    "ln_sent ln' = ln_sent ln" "ln_ordered ln' = ln_ordered ln" "ln_workers ln' = ln_workers ln"
    "ln_queue ln' = ln_queue ln" "ln_pushed ln' = ln_pushed ln"
    "ln_log ln' = ln_log ln @ ln_outbox ln'" "\<not> is_terminated (ln_reader ln)"
    "(in_cancelled i \<or> in_select_cancelled i) = rx_cancel_flag rx" "in_reserve i = Reserved"
    "rstep i (ln_reader ln) (ln_reader ln') (ln_outbox ln')"
  using assms step_rstep [of i "ln_reader ln" "ln_cfg ln"]
  by (auto simp: do_step_def split: if_splits prod.splits)

lemma lane_work_fields:
  assumes "lane_work free rx w ln = Some (ln', rx')" "rx_closed rx \<longrightarrow> rx_cancel_flag rx"
  shows "ln_reader ln' = ln_reader ln" "ln_outbox ln' = ln_outbox ln" "ln_task ln' = ln_task ln"
    "ln_cfg ln' = ln_cfg ln" "ln_log ln' = ln_log ln" "ln_pushed ln' = ln_pushed ln"
    "ln_ordered ln' = ln_ordered ln"
    "\<exists>sent. ln_sent ln' = ln_sent ln @ sent \<and> oks (rx_items rx') = oks (rx_items rx) @ sent"
    "rx_closed rx' = rx_closed rx" "rx_cancel_tx rx' = rx_cancel_tx rx" "rx_aborted rx' = rx_aborted rx"
    "rx_cancel_flag rx \<Longrightarrow> rx_cancel_flag rx'"
  using assms(1)
  by (cases rule: lane_work_cases; use worker_sends [OF _ assms(2)] in force)+

lemma lane_act_fields:
  assumes "lane_act P free rx ln ln' rx' sch" "rx_closed rx \<longrightarrow> rx_cancel_flag rx"
  shows "rx_closed rx' = rx_closed rx" "rx_cancel_tx rx' = rx_cancel_tx rx" "rx_aborted rx' = rx_aborted rx"
    "rx_cancel_flag rx \<Longrightarrow> rx_cancel_flag rx'" "ln_cfg ln' = ln_cfg ln" "ln_ordered ln' = ln_ordered ln"
    "\<exists>sent. ln_sent ln' = ln_sent ln @ sent \<and> oks (rx_items rx') = oks (rx_items rx) @ sent"
proof -
  have *: "rx_closed rx' = rx_closed rx \<and> rx_cancel_tx rx' = rx_cancel_tx rx \<and> rx_aborted rx' = rx_aborted rx
      \<and> (rx_cancel_flag rx \<longrightarrow> rx_cancel_flag rx') \<and> ln_cfg ln' = ln_cfg ln \<and> ln_ordered ln' = ln_ordered ln
      \<and> (\<exists>sent. ln_sent ln' = ln_sent ln @ sent \<and> oks (rx_items rx') = oks (rx_items rx) @ sent)"
    using assms(1)
  proof cases
    case (stepped i)
    with do_step_fields [OF stepped(4)] show ?thesis by simp
  next
    case (performed e es)
    with perform_fields [OF performed(3)] show ?thesis by simp
  next
    case (worked w)
    with lane_work_fields [OF worked(2) assms(2)] show ?thesis by simp
  qed simp_all
  then show "rx_closed rx' = rx_closed rx" "rx_cancel_tx rx' = rx_cancel_tx rx" "rx_aborted rx' = rx_aborted rx"
    "rx_cancel_flag rx \<Longrightarrow> rx_cancel_flag rx'" "ln_cfg ln' = ln_cfg ln" "ln_ordered ln' = ln_ordered ln"
    "\<exists>sent. ln_sent ln' = ln_sent ln @ sent \<and> oks (rx_items rx') = oks (rx_items rx) @ sent"
    by blast+
qed

text \<open>The channel only grows at its end.\<close>

lemma lane_act_items:
  assumes "lane_act P free rx ln ln' rx' sch" "rx_closed rx \<longrightarrow> rx_cancel_flag rx"
  shows "\<exists>items. rx_items rx' = rx_items rx @ items"
  using assms(1)
proof cases
  case (performed e es)
  then show ?thesis by (auto simp: perform_def channel_send_def split: effect.splits if_splits)
next
  case (worked w)
  show ?thesis using worked(2)
  proof (cases rule: lane_work_cases)
    case (ran wk' sent)
    then show ?thesis
      by (cases "(lane_ipc ln, free, rx, ln_workers ln ! w)" rule: worker_step.cases)
        (auto simp: permit_send_def channel_send_def split: if_splits)
  qed simp_all
qed simp_all

lemma lane_kept_cong:
  assumes "lane_kept flag ln" "ln_ordered ln' = ln_ordered ln" "ln_cfg ln' = ln_cfg ln"
    "ln_queue ln' = ln_queue ln" "ln_workers ln' = ln_workers ln" "ln_sent ln' = ln_sent ln"
    "ln_pushed ln' = ln_pushed ln" "\<not> ln_task ln' \<longrightarrow> ln_outbox ln' = []"
  shows "lane_kept flag ln'"
  using assms by (auto simp: lane_kept_def lane_shape_def sent_in_order_def sent_once_def split: if_splits)

lemma lane_act_kept:
  assumes act: "lane_act P free rx ln ln' rx' sch" and closed: "rx_closed rx \<longrightarrow> rx_cancel_flag rx"
    and kept: "lane_kept (rx_cancel_flag rx) ln"
  shows "lane_kept (rx_cancel_flag rx') ln'"
  using act
proof cases
  case (stepped i)
  note fields = do_step_fields [OF stepped(4)]
  show ?thesis unfolding stepped(1) by (rule lane_kept_cong [OF kept]) (simp_all add: fields)
next
  case (performed e es)
  have task: "ln_task ln"
    using performed(2) kept by (auto simp: lane_kept_def lane_shape_def)
  have kept': "lane_kept flag (ln\<lparr>ln_outbox := es, ln_reader := r\<rparr>)" "lane_kept flag (ln\<lparr>ln_outbox := es\<rparr>)"
    if "rx_cancel_flag rx \<longrightarrow> flag" for flag r
    using task by (auto intro: lane_kept_cong [OF lane_kept_mono [OF kept that]])
  show ?thesis
    using performed(3) kept'(1) [of "rx_cancel_flag rx'"] kept'(2) [of "rx_cancel_flag rx'"] task
    by (auto simp: perform_def channel_send_def intro: lane_kept_push split: effect.splits if_splits)
next
  case worked
  with lane_kept_work [OF kept closed] show ?thesis by simp
qed (auto intro: lane_kept_cong [OF kept])

lemma lane_act_announces:
  assumes "lane_act P free rx ln ln' rx' sch" "announces (ln_outbox ln)" "rx_closed rx \<longrightarrow> rx_cancel_flag rx"
  shows "announces (ln_outbox ln')"
  using assms(1)
proof cases
  case (stepped i)
  then show ?thesis using announces_step do_step_fields(14) by blast
next
  case (performed e es)
  then show ?thesis using perform_fields(1) [OF performed(3)] assms(2) announces_tail by auto
next
  case (worked w)
  then show ?thesis using lane_work_fields(2) [OF worked(2) assms(3)] assms(2) by simp
qed (use assms(2) in \<open>auto simp: is_error_def\<close>)

text \<open>An error is not lost on its way, and the flag is set together with one.\<close>

lemma worker_failing:
  assumes "worker_step ipc free rx wk = Some (wk', rx', sent)"
  shows "wk = Failing e \<Longrightarrow> errs (rx_items rx') \<noteq> []"
    and "rx_cancel_flag rx' \<Longrightarrow> \<not> rx_cancel_flag rx \<Longrightarrow> \<exists>e. wk' = Some (Failing e)"
  using assms
  by (cases "(ipc, free, rx, wk)" rule: worker_step.cases; auto simp: permit_send_def channel_send_def split: if_splits)+

lemma without_others: "w < length ws \<Longrightarrow> x \<in> set ws \<Longrightarrow> x \<noteq> ws ! w \<Longrightarrow> x \<in> set (without w ws)"
proof -
  assume w: "w < length ws" "x \<in> set ws" "x \<noteq> ws ! w"
  have "ws = take w ws @ ws ! w # drop (Suc w) ws" using id_take_nth_drop [OF w(1)] .
  then have "x \<in> set (take w ws @ ws ! w # drop (Suc w) ws)" using w(2) by simp
  with w(3) show ?thesis by (auto simp: without_def)
qed

lemma update_others: "x \<in> set ws \<Longrightarrow> x \<noteq> ws ! w \<Longrightarrow> x \<in> set (ws[w := y])"
  by (metis in_set_conv_nth length_list_update nth_list_update_neq)

lemma lane_work_failing:
  assumes work: "lane_work free rx w ln = Some (ln', rx')" and mem: "Failing e \<in> set (ln_workers ln)"
  shows "Failing e \<in> set (ln_workers ln') \<or> errs (rx_items rx') \<noteq> []"
  using work
proof (cases rule: lane_work_cases)
  case (ran wk' sent)
  show ?thesis
  proof (cases "ln_workers ln ! w = Failing e")
    case True
    with worker_failing(1) [OF ran(2)] show ?thesis by simp
  next
    case False
    with ran mem show ?thesis by (auto simp: update_others without_others split: option.splits)
  qed
qed (use mem in \<open>auto simp: update_others without_others\<close>)

lemma lane_act_fails:
  assumes act: "lane_act P free rx ln ln' rx' sch" and fails: "lane_fails ln"
    and closed: "rx_aborted rx \<noteq> [] \<longrightarrow> rx_closed rx" "rx_closed rx \<longrightarrow> rx_cancel_flag rx"
  shows "lane_fails ln' \<or> errs (rx_items rx') \<noteq> [] \<or> errs sch \<noteq> [] \<or> rx_closed rx"
  using act
proof cases
  case (stepped i)
  with fails do_step_fields [OF stepped(4)] show ?thesis by (auto simp: lane_fails_def)
next
  case (performed e es)
  show ?thesis
  proof (cases "is_error e")
    case False
    with fails performed perform_fields(1,7) [OF performed(3)] show ?thesis by (auto simp: lane_fails_def)
  next
    case True
    with performed show ?thesis
      by (auto simp: is_error_def is_failure_def perform_def channel_send_def split: effect.splits sum.splits if_splits)
  qed
next
  case (worked w)
  with fails lane_work_failing [OF worked(2)] lane_work_fields(2) [OF worked(2) closed(2)] show ?thesis
    by (auto simp: lane_fails_def)
qed (use fails closed in \<open>auto simp: lane_fails_def\<close>)

lemma lane_act_flag:
  assumes act: "lane_act P free rx ln ln' rx' sch" and "announces (ln_outbox ln)"
    and "rx_cancel_flag rx'" "\<not> rx_cancel_flag rx"
  shows "lane_fails ln'"
  using act
proof cases
  case (performed e es)
  with assms show ?thesis
    by (auto simp: lane_fails_def perform_def channel_send_def split: effect.splits if_splits)
next
  case (worked w)
  show ?thesis using worked(2)
  proof (cases rule: lane_work_cases)
    case (ran wk' sent)
    from worker_failing(2) [OF ran(2) assms(3,4)] obtain e where "wk' = Some (Failing e)" ..
    with ran have "Failing e \<in> set (ln_workers ln')" by (simp add: set_update_memI)
    then show ?thesis by (auto simp: lane_fails_def)
  qed (use assms in auto)
qed (use assms in auto)

section \<open>The invariant of the system\<close>

definition fresh_lane :: "lane \<Rightarrow> bool" where
  "fresh_lane ln \<longleftrightarrow> (\<exists>cfg ordered r es. ln = new_lane cfg ordered r es \<and> clean es)"

definition fresh_fallback :: "read_system \<Rightarrow> bool" where
  "fresh_fallback s \<longleftrightarrow> (\<forall>lanes. sy_fallback s = Some (Inr lanes) \<longrightarrow> list_all fresh_lane lanes)"

definition receiver_kept :: "receiver \<Rightarrow> bool" where
  "receiver_kept rx \<longleftrightarrow> (rx_closed rx \<longrightarrow> rx_cancel_flag rx) \<and> (rx_cancel_tx rx \<or> rx_cancel_flag rx)
     \<and> (rx_aborted rx \<noteq> [] \<longrightarrow> rx_closed rx)"

definition seen_and_sent :: "read_system \<Rightarrow> bool" where
  "seen_and_sent s \<longleftrightarrow>
     mset (oks (sy_got s @ rx_items (sy_rx s))) = (\<Sum>ln \<leftarrow> sy_lanes s. mset (ln_sent ln))"

definition sys_kept :: "read_system \<Rightarrow> bool" where
  "sys_kept s \<longleftrightarrow>
     list_all (\<lambda>ln. lane_kept (rx_cancel_flag (sy_rx s)) ln \<and> announces (ln_outbox ln)) (sy_lanes s)
     \<and> receiver_kept (sy_rx s) \<and> fresh_fallback s \<and> seen_and_sent s
     \<and> (rx_cancel_flag (sy_rx s) \<longrightarrow> rx_closed (sy_rx s) \<or> error_pending s)"

lemma fresh_lane_kept: "fresh_lane ln \<Longrightarrow> lane_kept flag ln \<and> announces (ln_outbox ln) \<and> ln_sent ln = []"
  using announces_clean [of _ "[]"] by (auto simp: fresh_lane_def lane_kept_new) (simp_all add: new_lane_def)

lemma stream_lane_fresh: "fresh_lane (stream_lane ipc gx now opt)"
  unfolding fresh_lane_def stream_lane_def
  by (intro exI conjI) (rule refl, simp)

lemma query_lane_fresh: "fresh_lane (query_lane ipc gx now opt)"
  unfolding fresh_lane_def query_lane_def
  by (intro exI conjI) (rule refl, simp)

lemma receiver_abort_fields [simp]:
  "rx_items (receiver_abort rx) = rx_items rx" "rx_closed (receiver_abort rx)"
  "rx_cancel_flag (receiver_abort rx) \<longleftrightarrow> rx_cancel_tx rx \<or> rx_cancel_flag rx"
  "\<not> rx_cancel_tx (receiver_abort rx)"
  by (auto simp: receiver_abort_def Let_def)

lemma receiver_abort_kept: "receiver_kept rx \<Longrightarrow> receiver_kept (receiver_abort rx)"
  by (auto simp: receiver_kept_def)

lemma sum_list_update_mset:
  "k < length xs \<Longrightarrow>
     (\<Sum>x \<leftarrow> xs[k := y]. mset (f x)) + mset (f (xs ! k)) = (\<Sum>x \<leftarrow> xs. mset (f x)) + mset (f y)"
proof (induction xs arbitrary: k)
  case (Cons a xs)
  then show ?case by (cases k) (auto simp: ac_simps)
qed simp

lemma list_all_update: "list_all P xs \<Longrightarrow> P y \<Longrightarrow> list_all P (xs[k := y])"
  by (auto simp: list_all_iff dest!: set_update_subset_insert [THEN subsetD])

lemma list_ex_update:
  "list_ex P xs \<Longrightarrow> k < length xs \<Longrightarrow> (P (xs ! k) \<Longrightarrow> P y \<or> Q) \<Longrightarrow> list_ex P (xs[k := y]) \<or> Q"
  by (auto simp: list_ex_iff) (metis set_update_memI update_others nth_list_update_eq)

lemma update_list_ex: "k < length xs \<Longrightarrow> P y \<Longrightarrow> list_ex P (xs[k := y])"
  by (auto simp: list_ex_iff intro: set_update_memI)

lemma kept_lane:
  assumes s: "sys_kept s" and k: "k < length (sy_lanes s)"
    and act: "lane_act P (slot_free s) (sy_rx s) (sy_lanes s ! k) ln' rx' sch"
    and s': "s' = s\<lparr>sy_lanes := (sy_lanes s)[k := ln'] @ extra, sy_rx := rx', sy_schema := sy_schema s @ sch,
         sy_fallback := fb\<rparr>"
    and fb: "fallback_act s (sy_lanes s ! k) ln' (rx' = sy_rx s \<and> sch = []) extra fb"
  shows "sys_kept s'"
proof -
  let ?ln = "sy_lanes s ! k" and ?rx = "sy_rx s"
  have rx: "rx_closed ?rx \<longrightarrow> rx_cancel_flag ?rx" "rx_aborted ?rx \<noteq> [] \<longrightarrow> rx_closed ?rx" and "receiver_kept ?rx"
    using s by (auto simp: sys_kept_def receiver_kept_def)
  have ln: "lane_kept (rx_cancel_flag ?rx) ?ln" "announces (ln_outbox ?ln)"
    using s k by (auto simp: sys_kept_def list_all_length)
  note fields = lane_act_fields [OF act rx(1)]
  have fresh: "list_all fresh_lane extra"
    using s fb by (auto simp: sys_kept_def fresh_fallback_def fallback_act_def)
  have lanes: "list_all (\<lambda>ln. lane_kept (rx_cancel_flag rx') ln \<and> announces (ln_outbox ln)) ((sy_lanes s)[k := ln'] @ extra)"
  proof -
    have "list_all (\<lambda>ln. lane_kept (rx_cancel_flag rx') ln \<and> announces (ln_outbox ln)) (sy_lanes s)"
      using s fields(4) by (auto simp: sys_kept_def list_all_iff intro: lane_kept_mono)
    with lane_act_kept [OF act rx(1) ln(1)] lane_act_announces [OF act ln(2) rx(1)] fresh show ?thesis
      by (auto simp: list_all_iff fresh_lane_kept dest!: set_update_subset_insert [THEN subsetD])
  qed
  obtain sent where sent: "ln_sent ln' = ln_sent ?ln @ sent" "oks (rx_items rx') = oks (rx_items ?rx) @ sent"
    using fields(7) by blast
  have "(\<Sum>ln \<leftarrow> (sy_lanes s)[k := ln'] @ extra. mset (ln_sent ln)) = (\<Sum>ln \<leftarrow> sy_lanes s. mset (ln_sent ln)) + mset sent"
  proof -
    have "(\<Sum>ln \<leftarrow> extra. mset (ln_sent ln)) = {#}"
      using fresh by (induction extra) (auto simp: fresh_lane_kept)
    moreover have "(\<Sum>ln \<leftarrow> (sy_lanes s)[k := ln']. mset (ln_sent ln)) = (\<Sum>ln \<leftarrow> sy_lanes s. mset (ln_sent ln)) + mset sent"
      using sum_list_update_mset [OF k, of ln_sent ln'] sent(1) by simp
    ultimately show ?thesis by simp
  qed
  moreover have "seen_and_sent s" using s by (simp add: sys_kept_def)
  ultimately have seen: "seen_and_sent s'"
    using sent(2) s' by (simp add: seen_and_sent_def)
  have "rx_closed ?rx \<or> error_pending s'" if flag: "rx_cancel_flag rx'"
  proof (cases "rx_cancel_flag ?rx")
    case False
    with lane_act_flag [OF act ln(2) flag False] k s' show ?thesis
      by (simp add: error_pending_def update_list_ex)
  next
    case True
    then have "rx_closed ?rx \<or> error_pending s" using s by (simp add: sys_kept_def)
    moreover have "rx_closed ?rx \<or> error_pending s'" if "list_ex lane_fails (sy_lanes s)"
      using list_ex_update [OF that k, of ln' "errs (rx_items rx') \<noteq> [] \<or> errs sch \<noteq> [] \<or> rx_closed ?rx"]
        lane_act_fails [OF act _ rx(2,1)] s'
      by (auto simp: error_pending_def)
    moreover have "errs (rx_items ?rx) \<noteq> [] \<Longrightarrow> errs (rx_items rx') \<noteq> []"
      using lane_act_items [OF act rx(1)] by auto
    ultimately show ?thesis using s' by (auto simp: error_pending_def)
  qed
  with lanes seen fields rx s fb s' show ?thesis
    by (auto simp: sys_kept_def receiver_kept_def fresh_fallback_def fallback_act_def)
qed

lemma kept_step:
  assumes kept: "sys_kept s" and stp: "sys_step a s = Some s'" and "inputs_ok P a"
  shows "sys_kept s'"
  using stp assms(3)
proof (cases rule: sys_step_cases)
  case (lane k ln' rx' sch extra fb)
  from kept_lane [OF kept lane(1,2,3,4)] show ?thesis .
next
  case (item r rest)
  show ?thesis
  proof (cases r)
    case (Inl e)
    with item kept show ?thesis
      by (auto simp: sys_kept_def Let_def receiver_kept_def fresh_fallback_def seen_and_sent_def
          elim!: list.pred_mono_strong intro: lane_kept_mono)
  next
    case (Inr b)
    with item kept show ?thesis
      by (auto simp: sys_kept_def Let_def receiver_kept_def fresh_fallback_def seen_and_sent_def error_pending_def)
  qed
next
  case end_seen
  with kept show ?thesis
    by (auto simp: sys_kept_def receiver_kept_def fresh_fallback_def seen_and_sent_def
        elim!: list.pred_mono_strong intro: lane_kept_mono)
next
  case gave_up
  with kept show ?thesis
    by (auto simp: sys_kept_def receiver_kept_def fresh_fallback_def seen_and_sent_def
        elim!: list.pred_mono_strong intro: lane_kept_mono)
qed

interpretation sys: guarded_invariant sys_step "inputs_ok P" sys_kept for P
  by unfold_locales (rule kept_step)

lemma kept_start:
  assumes "list_all fresh_lane lanes" "\<And>ls. fallback = Some (Inr ls) \<Longrightarrow> list_all fresh_lane ls"
  shows "sys_kept (start_system slots (receiver_new True hs) lanes fallback)"
proof -
  have "(\<Sum>ln \<leftarrow> lanes. mset (ln_sent ln)) = {#}"
    using assms(1) by (induction lanes) (auto simp: fresh_lane_kept)
  with assms show ?thesis
    by (auto simp: sys_kept_def start_system_def receiver_kept_def receiver_new_def fresh_fallback_def
        seen_and_sent_def fresh_lane_kept elim!: list.pred_mono_strong)
qed

text \<open>With a single ordered lane the order of the batches is kept, too.\<close>

definition ordered_kept :: "read_system \<Rightarrow> bool" where
  "ordered_kept s \<longleftrightarrow> sys_kept s \<and> sy_fallback s = None
     \<and> (\<exists>ln. sy_lanes s = [ln] \<and> ln_ordered ln \<and> oks (sy_got s @ rx_items (sy_rx s)) = ln_sent ln)"

lemma ordered_kept_step:
  assumes kept: "ordered_kept s" and stp: "sys_step a s = Some s'" and ok: "inputs_ok P a"
  shows "ordered_kept s'"
proof -
  obtain ln where ln: "sy_lanes s = [ln]" "ln_ordered ln" "oks (sy_got s @ rx_items (sy_rx s)) = ln_sent ln"
    and fb: "sy_fallback s = None" and sys: "sys_kept s"
    using kept by (auto simp: ordered_kept_def)
  have closed: "rx_closed (sy_rx s) \<longrightarrow> rx_cancel_flag (sy_rx s)"
    using sys by (simp add: sys_kept_def receiver_kept_def)
  from stp ok have "sy_fallback s' = None
      \<and> (\<exists>ln. sy_lanes s' = [ln] \<and> ln_ordered ln \<and> oks (sy_got s' @ rx_items (sy_rx s')) = ln_sent ln)"
  proof (cases rule: sys_step_cases)
    case (lane k ln' rx' sch extra fb)
    have "lane_act (P k) (slot_free s) (sy_rx s) ln ln' rx' sch" using lane(1,2) ln(1) by simp
    with lane_act_fields [OF this closed] lane ln fb show ?thesis by (auto simp: fallback_act_def)
  next
    case (item r rest)
    with ln fb show ?thesis by (cases r) (auto simp: Let_def)
  next
    case end_seen
    with ln fb show ?thesis by simp
  next
    case gave_up
    with ln fb show ?thesis by simp
  qed
  with kept_step [OF sys stp ok] show ?thesis by (simp add: ordered_kept_def)
qed

interpretation ordered_sys: guarded_invariant sys_step "inputs_ok P" ordered_kept for P
  by unfold_locales (rule ordered_kept_step)

lemma ordered_kept_start:
  assumes "fresh_lane ln" "ln_ordered ln"
  shows "ordered_kept (start_system slots (receiver_new True hs) [ln] None)"
  using kept_start [of "[ln]" None slots hs] assms
  by (simp add: ordered_kept_def start_system_def receiver_new_def fresh_lane_kept)

section \<open>The end of a read\<close>

text \<open>
  When the consumer sees the end and no error, nothing was cancelled, every task has returned and
  every job has run.
\<close>

definition quiet_lane :: "lane \<Rightarrow> bool" where
  "quiet_lane ln \<longleftrightarrow> \<not> ln_task ln \<and> ln_outbox ln = [] \<and> owed_by todo ln = [] \<and> oq_queue (ln_queue ln) = []"

lemma not_sends: "\<not> sends ln \<Longrightarrow> lane_shape ln \<Longrightarrow> quiet_lane ln \<and> \<not> lane_fails ln"
  by (auto simp: sends_def lane_shape_def quiet_lane_def lane_fails_def list_ex_iff)

lemma end_is_quiet:
  assumes kept: "sys_kept s" and open_end: "rx_items (sy_rx s) = []" "\<not> senders_alive s" "\<not> rx_closed (sy_rx s)"
    and no_errors: "errs (sy_got s) = []" "errs (sy_schema s) = []"
  shows "\<not> rx_cancel_flag (sy_rx s)" and "list_all quiet_lane (sy_lanes s)"
proof -
  have quiet: "list_all (\<lambda>ln. quiet_lane ln \<and> \<not> lane_fails ln) (sy_lanes s)"
    using kept open_end(2) not_sends
    by (auto simp: sys_kept_def senders_alive_def list_all_iff list_ex_iff lane_kept_def)
  then have "\<not> list_ex lane_fails (sy_lanes s)" by (auto simp: list_all_iff list_ex_iff)
  with kept open_end no_errors show "\<not> rx_cancel_flag (sy_rx s)"
    by (auto simp: sys_kept_def error_pending_def)
  from quiet show "list_all quiet_lane (sy_lanes s)" by (auto elim: list.pred_mono_strong)
qed

section \<open>The start of a read\<close>

lemma kept_start_read: "sys_kept (start_read w c log (receiver_new True hs) st)"
  by (cases st) (auto simp: start_read_def Let_def list_all_iff stream_lane_fresh query_lane_fresh map_sum_Inr
      intro!: kept_start)

lemma any_inputs_ok: "inputs_ok (\<lambda>k i. True) a"
  by (simp add: inputs_ok_def split: read_action.splits)

end
