(* ===== verification/Read_System_Rows.thy ===== *)
theory Read_System_Rows
  imports Read_System_Proofs
begin

text \<open>
  The rows the consumer of a read sees when the servers of its streams are honest: the history of
  each reader task, the lanes that are complete when the consumer sees the end, and from them the
  rows of the tables, in order for an ordered read and once for a parallel one.
\<close>

section \<open>The history of a reader task\<close>

text \<open>
  The invariants of the reader's runs hold of all effects so far, also when the task is refused a
  permit or cuts over; and what was queued is what the reader wanted to queue, except for what a
  cancellation made it drop.
\<close>

definition history ::
  "stream_metadata option \<Rightarrow> bool \<Rightarrow> first_page_check option \<Rightarrow> bool \<Rightarrow> lane \<Rightarrow> bool" where
  "history md tx chk flag ln \<longleftrightarrow>
     failure_inv (ln_reader ln, ln_log ln) \<and> schema_inv md tx (ln_reader ln, ln_log ln)
     \<and> check_inv chk (ln_reader ln, ln_log ln)
     \<and> prefix (ln_pushed ln) (jobs (ln_log ln))
     \<and> (\<not> flag \<longrightarrow> jobs (ln_log ln) = ln_pushed ln @ jobs (ln_outbox ln)
          \<and> (\<exists>done. ln_log ln = done @ ln_outbox ln \<and> CancelAll \<notin> set done))"

lemma history_mono: "history md tx chk flag ln \<Longrightarrow> flag \<longrightarrow> flag' \<Longrightarrow> history md tx chk flag' ln"
  by (auto simp: history_def)

lemma terminate_invs:
  assumes "failure_inv (r, es)" "schema_inv md tx (r, es)" "check_inv chk (r, es)"
  shows "failure_inv (r\<lparr>rd_state := Terminated Finished\<rparr>, es)"
    "schema_inv md tx (r\<lparr>rd_state := Terminated Finished\<rparr>, es)"
    "check_inv chk (r\<lparr>rd_state := Terminated Finished\<rparr>, es)"
  using assms
  by (auto simp: failure_inv_def check_inv_def is_terminated_def intro: schema_state [OF assms(2)])

lemma cutover_failed_invs:
  assumes "failure_inv (r, es)" "schema_inv md tx (r, es)" "rd_state r = Terminated SwitchToReadSession"
  shows "failure_inv (r\<lparr>rd_state := Terminated Finished\<rparr>, es @ [CancelAll, SendError err])"
    "schema_inv md tx (r\<lparr>rd_state := Terminated Finished\<rparr>, es @ [CancelAll, SendError err])"
    "check_inv chk (r\<lparr>rd_state := Terminated Finished\<rparr>, es @ [CancelAll, SendError err])"
proof -
  have "clean es" using assms(1,3) by (auto simp: failure_inv_def)
  then show "failure_inv (r\<lparr>rd_state := Terminated Finished\<rparr>, es @ [CancelAll, SendError err])"
    by (auto simp: failure_inv_def failure_last_def)
  show "schema_inv md tx (r\<lparr>rd_state := Terminated Finished\<rparr>, es @ [CancelAll, SendError err])"
    using assms(2,3) by (auto simp: schema_inv_def announced_append is_terminated_def)
  show "check_inv chk (r\<lparr>rd_state := Terminated Finished\<rparr>, es @ [CancelAll, SendError err])"
    by (auto simp: check_inv_def is_terminated_def)
qed

lemma jobs_error [simp]: "jobs [CancelAll, SendError err] = []"
  by simp

lemma history_act:
  assumes act: "lane_act P free rx ln ln' rx' sch" and hist: "history md tx chk (rx_cancel_flag rx) ln"
    and rx: "rx_closed rx \<longrightarrow> rx_cancel_flag rx" "rx_aborted rx \<noteq> [] \<longrightarrow> rx_closed rx"
  shows "history md tx chk (rx_cancel_flag rx') ln'"
  using act
proof cases
  case (stepped i)
  note f = do_step_fields [OF stepped(4)]
  have "failure_inv (ln_reader ln', ln_log ln')" "schema_inv md tx (ln_reader ln', ln_log ln')"
    "check_inv chk (ln_reader ln', ln_log ln')"
    using failure_step [OF f(14)] schema_step [OF f(14)] check_step [OF f(14)] hist f(10)
    by (auto simp: history_def)
  moreover have "ln_log ln = done \<and> CancelAll \<notin> set done \<Longrightarrow> CancelAll \<notin> set (ln_log ln)" for "done" by simp
  ultimately show ?thesis
    using hist f(4,9,10) stepped(1) by (auto simp: history_def prefix_def)
next
  case (performed e es)
  note f = perform_fields [OF performed(3)]
  have log: "ln_log ln' = ln_log ln" "ln_outbox ln' = es" using f(1,4) by simp_all
  show ?thesis
  proof (cases "\<exists>j. e = PushJob j")
    case True
    then obtain j where j: "e = PushJob j" ..
    show ?thesis
    proof (cases "rx_cancel_flag rx \<or> rx_closed rx")
      case True
      with j performed rx have "ln' = ln\<lparr>ln_outbox := es, ln_reader := (ln_reader ln)\<lparr>rd_state := Terminated Finished\<rparr>\<rparr>"
        "rx' = rx" "rx_cancel_flag rx"
        by (auto simp: perform_def)
      with hist show ?thesis by (auto simp: history_def intro: terminate_invs)
    next
      case False
      with j performed have new: "ln' = lane_push j (ln\<lparr>ln_outbox := es\<rparr>)" "rx' = rx"
        by (auto simp: perform_def split: if_splits)
      obtain before where "ln_log ln = before @ PushJob j # es" "CancelAll \<notin> set before"
        "jobs (ln_log ln) = ln_pushed ln @ j # jobs es"
        using hist False performed(2) j by (auto simp: history_def)
      then have "\<exists>before. ln_log ln = before @ es \<and> CancelAll \<notin> set before"
        by (intro exI [of _ "before @ [PushJob j]"]) simp
      with hist new \<open>jobs (ln_log ln) = ln_pushed ln @ j # jobs es\<close> show ?thesis
        by (auto simp: history_def prefix_def)
    qed
  next
    case False
    then have same: "ln_reader ln' = ln_reader ln" "ln_pushed ln' = ln_pushed ln"
      using performed(3) by (auto simp: perform_def split: effect.splits if_splits)
    have "jobs (ln_outbox ln) = jobs es" using performed(2) False by (auto split: effect.splits)
    moreover have "\<exists>before. ln_log ln = before @ es \<and> CancelAll \<notin> set before"
      if "\<not> rx_cancel_flag rx'"
    proof -
      have "e \<noteq> CancelAll" "\<not> rx_cancel_flag rx"
        using that performed(3) f(12) by (auto simp: perform_def)
      with hist performed(2) obtain before where "ln_log ln = before @ e # es" "CancelAll \<notin> set before"
        by (auto simp: history_def)
      with \<open>e \<noteq> CancelAll\<close> show ?thesis by (intro exI [of _ "before @ [e]"]) simp
    qed
    ultimately show ?thesis using hist same log f(12) by (auto simp: history_def)
  qed
next
  case (cutover_failed err)
  with hist show ?thesis
    by (auto simp: history_def prefix_def intro: cutover_failed_invs)
next
  case (worked w)
  have "history md tx chk (rx_cancel_flag rx) ln'"
    using hist lane_work_fields [OF worked(2) rx(1)] by (simp add: history_def)
  with lane_work_fields(12) [OF worked(2) rx(1)] show ?thesis by (auto intro: history_mono)
qed (use hist rx in \<open>auto simp: history_def\<close>)

section \<open>What an honest server supplies\<close>

text \<open>
  \<open>lane_source\<close> is what a lane reads: the payload of any slice, the number of rows and the first
  row of the lane. While nothing is cancelled a finished reader has queued everything.
\<close>

record lane_source =
  so_slice :: "int \<Rightarrow> int \<Rightarrow> bytes"
  so_rows :: int
  so_first :: int

definition honest_for :: "lane_source \<Rightarrow> step_in \<Rightarrow> bool" where
  "honest_for src = honest_server (so_slice src) (so_rows src)"

definition supplied :: "lane_source \<Rightarrow> bool \<Rightarrow> lane \<Rightarrow> bool" where
  "supplied src flag ln \<longleftrightarrow>
     delivery_inv False (so_slice src) (so_rows src) (so_first src) (ln_reader ln, ln_log ln)
     \<and> (\<not> flag \<longrightarrow> delivery_inv True (so_slice src) (so_rows src) (so_first src) (ln_reader ln, ln_log ln))"

lemma supplied_mono: "supplied src flag ln \<Longrightarrow> flag \<longrightarrow> flag' \<Longrightarrow> supplied src flag' ln"
  by (auto simp: supplied_def)

lemma supplied_same:
  "supplied src flag ln \<Longrightarrow> ln_reader ln' = ln_reader ln \<Longrightarrow> ln_log ln' = ln_log ln \<Longrightarrow> supplied src flag ln'"
  by (simp add: supplied_def)

lemma delivery_terminate:
  "delivery_inv False sl N k (r, es) \<Longrightarrow> delivery_inv False sl N k (r\<lparr>rd_state := Terminated Finished\<rparr>, es)"
  by (auto simp: delivery_inv_def split: option.splits)

lemma supplied_act:
  assumes act: "lane_act (honest_for src) free rx ln ln' rx' sch" and sup: "supplied src (rx_cancel_flag rx) ln"
    and rx: "rx_closed rx \<longrightarrow> rx_cancel_flag rx"
  shows "supplied src (rx_cancel_flag rx') ln'"
  using act
proof cases
  case (stepped i)
  note f = do_step_fields [OF stepped(4)]
  have "honest_server (so_slice src) (so_rows src) i" using stepped(3) by (simp add: honest_for_def)
  have next_inv: "delivery_inv c (so_slice src) (so_rows src) (so_first src) (ln_reader ln', ln_log ln @ ln_outbox ln')"
    if "delivery_inv c (so_slice src) (so_rows src) (so_first src) (ln_reader ln, ln_log ln)" "c \<longrightarrow> undisturbed i" for c
    by (rule delivery_step [OF f(14) that(1) \<open>honest_server (so_slice src) (so_rows src) i\<close> that(2)])
  have calm: "undisturbed i" if "\<not> rx_cancel_flag rx"
    using that f(12,13) by (simp add: undisturbed_def)
  show ?thesis
    unfolding supplied_def stepped(1) f(10)
  proof (intro conjI impI)
    show "delivery_inv False (so_slice src) (so_rows src) (so_first src) (ln_reader ln', ln_log ln @ ln_outbox ln')"
      using sup next_inv [of False] unfolding supplied_def by blast
    assume "\<not> rx_cancel_flag rx"
    then show "delivery_inv True (so_slice src) (so_rows src) (so_first src) (ln_reader ln', ln_log ln @ ln_outbox ln')"
      using sup next_inv [of True] calm unfolding supplied_def by blast
  qed
next
  case (performed e es)
  note f = perform_fields [OF performed(3)]
  have "ln_reader ln' = ln_reader ln
      \<or> ln_reader ln' = (ln_reader ln)\<lparr>rd_state := Terminated Finished\<rparr> \<and> rx_cancel_flag rx \<and> rx' = rx"
    using perform_reader [OF performed(3) rx] by simp
  then consider "ln_reader ln' = ln_reader ln"
    | "ln_reader ln' = (ln_reader ln)\<lparr>rd_state := Terminated Finished\<rparr>" "rx_cancel_flag rx" "rx' = rx"
    by blast
  then show ?thesis
  proof cases
    case 1
    then have "supplied src (rx_cancel_flag rx) ln'" using supplied_same [OF sup] f(4) by simp
    with f(12) show ?thesis by (auto intro: supplied_mono)
  next
    case 2
    with sup f(4) show ?thesis by (auto simp: supplied_def intro: delivery_terminate)
  qed
next
  case (cutover_failed err)
  with sup show ?thesis by (auto simp: supplied_def delivery_inv_def)
next
  case (worked w)
  have "supplied src (rx_cancel_flag rx) ln'"
    using supplied_same [OF sup] lane_work_fields [OF worked(2) rx] by simp
  with lane_work_fields(12) [OF worked(2) rx] show ?thesis by (auto intro: supplied_mono)
qed (use sup in \<open>simp_all add: supplied_def\<close>)

text \<open>A lane whose tasks have all returned.\<close>

lemma lane_act_over:
  assumes "lane_act P free rx ln ln' rx' sch" "\<not> sends ln" "lane_shape ln"
  shows "\<not> sends ln' \<and> ln_pushed ln' = ln_pushed ln \<and> ln_sent ln' = ln_sent ln \<and> rx' = rx \<and> sch = []
    \<and> ln_cfg ln' = ln_cfg ln \<and> ln_reader ln' = ln_reader ln"
  using assms(1)
proof cases
  case (worked w)
  show ?thesis using worked(2)
  proof (cases rule: lane_work_cases)
    case (ran wk' sent)
    then have "ln_workers ln ! w = AtHead" using assms(2) by (auto simp: sends_def list_ex_iff)
    with ran show ?thesis by simp
  next
    case (taken j q)
    with assms(2) show ?thesis by (simp add: sends_def)
  next
    case returned
    with assms(2) worked set_without [of w "ln_workers ln"] show ?thesis
      by (auto simp: sends_def list_ex_iff)
  qed
next
  case (stepped i)
  with assms(2) show ?thesis by (auto simp: sends_def do_step_def split: if_splits)
qed (use assms in \<open>auto simp: sends_def lane_shape_def\<close>)

section \<open>Lanes served to the end\<close>

definition lane_served :: "ipc \<Rightarrow> stream_metadata \<Rightarrow> lane_source \<Rightarrow> bool \<Rightarrow> lane \<Rightarrow> bool" where
  "lane_served ipc md src flag ln \<longleftrightarrow> lane_ipc ln = ipc \<and>
     (\<exists>tx. history (Some md) tx None flag ln) \<and> supplied src flag ln
     \<and> (\<not> flag \<and> \<not> ln_task ln \<longrightarrow> is_terminated (ln_reader ln))"

definition lane_complete :: "lane_source \<Rightarrow> lane \<Rightarrow> bool" where
  "lane_complete src ln \<longleftrightarrow> \<not> sends ln
     \<and> tiles (so_slice src) (so_first src) (ln_pushed ln) (so_rows src)
     \<and> mset (ln_sent ln) = mset (owed (lane_ipc ln) (ln_pushed ln))
     \<and> (ln_ordered ln \<longrightarrow> ln_sent ln = owed (lane_ipc ln) (ln_pushed ln))"

lemma lane_served_mono: "lane_served ipc md src flag ln \<Longrightarrow> flag \<longrightarrow> flag' \<Longrightarrow> lane_served ipc md src flag' ln"
  by (auto simp: lane_served_def intro: history_mono supplied_mono)

lemma lane_served_act:
  assumes act: "lane_act (honest_for src) free rx ln ln' rx' sch" and served: "lane_served ipc md src (rx_cancel_flag rx) ln"
    and rx: "rx_closed rx \<longrightarrow> rx_cancel_flag rx" "rx_aborted rx \<noteq> [] \<longrightarrow> rx_closed rx"
  shows "lane_served ipc md src (rx_cancel_flag rx') ln'"
proof -
  obtain tx where "history (Some md) tx None (rx_cancel_flag rx) ln" "supplied src (rx_cancel_flag rx) ln"
    using served by (auto simp: lane_served_def)
  with history_act [OF act _ rx] supplied_act [OF act _ rx(1)]
  have "history (Some md) tx None (rx_cancel_flag rx') ln'" "supplied src (rx_cancel_flag rx') ln'" by blast+
  moreover have "is_terminated (ln_reader ln')" if flag': "\<not> rx_cancel_flag rx'" and returned: "\<not> ln_task ln'"
  proof -
    have flag: "\<not> rx_cancel_flag rx" using flag' lane_act_fields(4) [OF act rx(1)] by blast
    from act show ?thesis
    proof cases
      case (stepped i)
      with returned do_step_fields(1,3) [OF stepped(4)] show ?thesis by simp
    next
      case (performed e es)
      note f = perform_fields(2) [OF performed(3)] perform_reader [OF performed(3) rx(1)]
      have "is_terminated (ln_reader ln)" using f(1) returned flag served by (simp add: lane_served_def)
      with f(2) flag show ?thesis by auto
    next
      case (worked w)
      with returned flag served lane_work_fields(1,3) [OF worked(2) rx(1)] show ?thesis
        by (simp add: lane_served_def)
    qed (use returned flag rx in auto)
  qed
  moreover have "lane_ipc ln' = ipc" using lane_act_fields(5) [OF act rx(1)] served by (simp add: lane_served_def)
  ultimately show ?thesis by (auto simp: lane_served_def)
qed

lemma lane_served_complete:
  assumes served: "lane_served ipc md src False ln" and kept: "lane_kept False ln" and over: "\<not> sends ln"
  shows "lane_complete src ln"
proof -
  have quiet: "quiet_lane ln" using not_sends [OF over] kept by (simp add: lane_kept_def)
  obtain tx where hist: "history (Some md) tx None False ln" using served by (auto simp: lane_served_def)
  have log: "jobs (ln_log ln) = ln_pushed ln" "CancelAll \<notin> set (ln_log ln)"
    using hist quiet by (auto simp: history_def quiet_lane_def)
  have "\<not> failure_last (ln_log ln)" using log(2) by (auto simp: failure_last_def)
  then have clean: "clean (ln_log ln)" using hist by (auto simp: history_def failure_inv_def)
  have "is_terminated (ln_reader ln)" using served quiet by (simp add: lane_served_def quiet_lane_def)
  moreover have "rd_state (ln_reader ln) \<noteq> Terminated SwitchToReadSession"
    using hist by (auto simp: history_def check_inv_def)
  ultimately have "rd_state (ln_reader ln) = Terminated Finished"
    by (auto simp: is_terminated_def split: read_state.splits) (metis termination_reason.exhaust)
  with served clean log(1)
  have "tiles (so_slice src) (so_first src) (ln_pushed ln) (so_rows src)"
    by (simp add: lane_served_def supplied_def delivery_inv_def)
  moreover have "owed_by todo ln = []" "oq_queue (ln_queue ln) = []"
    using quiet unfolding quiet_lane_def by blast+
  ultimately show ?thesis
    using over kept
    by (cases "ln_ordered ln") (simp_all add: lane_complete_def lane_kept_def sent_in_order_def sent_once_def
        del: concat_eq_Nil_conv)
qed

lemma lane_complete_act:
  assumes "lane_act P free rx ln ln' rx' sch" "lane_complete src ln" "lane_shape ln" "rx_closed rx \<longrightarrow> rx_cancel_flag rx"
  shows "lane_complete src ln' \<and> rx' = rx \<and> sch = []"
  using lane_act_over [OF assms(1) _ assms(3)] assms(2) lane_act_fields(6) [OF assms(1,4)]
  by (auto simp: lane_complete_def)

section \<open>Reads without a cutover\<close>

definition all_complete :: "lane_source list \<Rightarrow> read_system \<Rightarrow> bool" where
  "all_complete srcs s \<longleftrightarrow> rx_items (sy_rx s) = [] \<and> list_all2 lane_complete srcs (sy_lanes s)"

definition served :: "ipc \<Rightarrow> stream_metadata \<Rightarrow> lane_source list \<Rightarrow> read_system \<Rightarrow> bool" where
  "served ipc md srcs s \<longleftrightarrow> sys_kept s \<and> sy_fallback s = None
     \<and> list_all2 (\<lambda>src ln. lane_served ipc md src (rx_cancel_flag (sy_rx s)) ln) srcs (sy_lanes s)
     \<and> (rx_closed (sy_rx s) \<longrightarrow> sy_ended s \<or> sy_dropped s \<or> errs (sy_got s) \<noteq> [])
     \<and> (sy_ended s \<longrightarrow> rx_closed (sy_rx s))
     \<and> (clean_end s \<longrightarrow> all_complete srcs s)"

text \<open>The inputs of the readers come from the servers of their streams.\<close>

definition honest_inputs :: "lane_source list \<Rightarrow> nat \<Rightarrow> step_in \<Rightarrow> bool" where
  "honest_inputs srcs k i \<longleftrightarrow> (k < length srcs \<longrightarrow> honest_for (srcs ! k) i)"

lemma lane_act_P_mono: "lane_act P free rx ln ln' rx' sch \<Longrightarrow> (\<And>i. P i \<Longrightarrow> Q i) \<Longrightarrow> lane_act Q free rx ln ln' rx' sch"
  by (induction rule: lane_act.induct) (auto intro: lane_act.intros)

lemma list_all2_update:
  "list_all2 R xs ys \<Longrightarrow> k < length ys \<Longrightarrow> R (xs ! k) y \<Longrightarrow> list_all2 R xs (ys[k := y])"
  by (auto simp: list_all2_conv_all_nth nth_list_update)

lemma served_step:
  assumes srv: "served ipc md srcs s" and stp: "sys_step a s = Some s'" and ok: "inputs_ok (honest_inputs srcs) a"
  shows "served ipc md srcs s'"
proof -
  have sys: "sys_kept s" and fb: "sy_fallback s = None"
    and lanes: "list_all2 (\<lambda>src ln. lane_served ipc md src (rx_cancel_flag (sy_rx s)) ln) srcs (sy_lanes s)"
    and why: "rx_closed (sy_rx s) \<longrightarrow> sy_ended s \<or> sy_dropped s \<or> errs (sy_got s) \<noteq> []"
    and closed: "sy_ended s \<longrightarrow> rx_closed (sy_rx s)"
    and fin: "clean_end s \<longrightarrow> all_complete srcs s"
    using srv by (auto simp: served_def)
  have rx: "rx_closed (sy_rx s) \<longrightarrow> rx_cancel_flag (sy_rx s)" "rx_aborted (sy_rx s) \<noteq> [] \<longrightarrow> rx_closed (sy_rx s)"
    using sys by (auto simp: sys_kept_def receiver_kept_def)
  have abort_flag: "rx_cancel_tx (sy_rx s) \<or> rx_cancel_flag (sy_rx s)"
    using sys by (simp add: sys_kept_def receiver_kept_def)
  have kept: "sys_kept s'" using kept_step [OF sys stp ok] .
  have weaker: "list_all2 (\<lambda>src ln. lane_served ipc md src True ln) srcs (sy_lanes s)"
    using lanes by (auto elim!: list_all2_mono intro: lane_served_mono)
  from stp ok show ?thesis
  proof (cases rule: sys_step_cases)
    case (lane k ln' rx' sch extra fb')
    have extra: "extra = []" "fb' = None" using lane(4) fb by (auto simp: fallback_act_def)
    have "k < length srcs" using lane(1) lanes by (simp add: list_all2_lengthD)
    then have act: "lane_act (honest_for (srcs ! k)) (slot_free s) (sy_rx s) (sy_lanes s ! k) ln' rx' sch"
      using lane_act_P_mono [OF lane(2)] by (simp add: honest_inputs_def)
    note f = lane_act_fields [OF act rx(1)]
    have "lane_served ipc md (srcs ! k) (rx_cancel_flag rx') ln'"
      using lane_served_act [OF act list_all2_nthD [OF lanes \<open>k < length srcs\<close>] rx] .
    moreover have "list_all2 (\<lambda>src ln. lane_served ipc md src (rx_cancel_flag rx') ln) srcs (sy_lanes s)"
      using lanes f(4) by (auto elim!: list_all2_mono intro: lane_served_mono)
    ultimately have "list_all2 (\<lambda>src ln. lane_served ipc md src (rx_cancel_flag rx') ln) srcs ((sy_lanes s)[k := ln'])"
      by (intro list_all2_update) (use lane(1) in simp_all)
    moreover have "all_complete srcs s'" if "clean_end s'"
    proof -
      have "clean_end s" using that lane(3) by (simp add: clean_end_def)
      with fin have ac: "all_complete srcs s" by simp
      have "lane_shape (sy_lanes s ! k)" "lane_complete (srcs ! k) (sy_lanes s ! k)"
        using sys lane(1) ac \<open>k < length srcs\<close>
        by (auto simp: sys_kept_def list_all_length lane_kept_def all_complete_def list_all2_nthD)
      from lane_complete_act [OF act this(2,1) rx(1)] ac lane(1,3) extra show ?thesis
        by (auto simp: all_complete_def intro: list_all2_update)
    qed
    ultimately show ?thesis using kept lane(3) extra f(1) why closed by (simp add: served_def)
  next
    case (item r rest)
    have "\<not> clean_end s'"
      using item fin by (cases r) (auto simp: clean_end_def all_complete_def)
    moreover have "list_all2 (\<lambda>src ln. lane_served ipc md src (rx_cancel_flag (sy_rx s')) ln) srcs (sy_lanes s')"
      using item lanes weaker by (cases "\<exists>e. r = Inl e") (auto elim!: list_all2_mono intro: lane_served_mono)
    ultimately show ?thesis
      using kept item fb why closed by (cases r) (auto simp: served_def Let_def)
  next
    case end_seen
    have "all_complete srcs s'" if "clean_end s'"
    proof (cases "rx_closed (sy_rx s)")
      case True
      with why that end_seen(3) have "clean_end s" by (auto simp: clean_end_def)
      with fin end_seen(3) show ?thesis by (simp add: all_complete_def)
    next
      case False
      with end_seen(2) have alive: "\<not> senders_alive s" by simp
      have "errs (sy_got s) = []" "errs (sy_schema s) = []" using that end_seen(3) by (simp_all add: clean_end_def)
      from end_is_quiet(1) [OF sys end_seen(1) alive False this] have flag: "\<not> rx_cancel_flag (sy_rx s)" .
      have "lane_complete (srcs ! k) (sy_lanes s ! k)" if "k < length srcs" for k
      proof (rule lane_served_complete)
        show "lane_served ipc md (srcs ! k) False (sy_lanes s ! k)"
          using list_all2_nthD [OF lanes that] flag by simp
        have k: "k < length (sy_lanes s)" using that lanes by (simp add: list_all2_lengthD)
        with sys flag show "lane_kept False (sy_lanes s ! k)" by (auto simp: sys_kept_def list_all_length)
        from alive k show "\<not> sends (sy_lanes s ! k)" by (auto simp: senders_alive_def list_ex_length)
      qed
      then have "list_all2 lane_complete srcs (sy_lanes s)"
        using lanes by (simp add: list_all2_conv_all_nth)
      with end_seen show ?thesis by (simp add: all_complete_def)
    qed
    moreover have "rx_cancel_flag (sy_rx s')" using end_seen(3) abort_flag by simp
    ultimately show ?thesis using kept end_seen(3) fb weaker by (simp add: served_def)
  next
    case gave_up
    then have "rx_cancel_flag (sy_rx s')" using abort_flag by simp
    with kept gave_up fb weaker show ?thesis by (simp add: served_def clean_end_def)
  qed
qed

interpretation served_sys: guarded_invariant sys_step "inputs_ok (honest_inputs srcs)" "served ipc md srcs" for ipc md srcs
  by unfold_locales (rule served_step)

section \<open>The tasks of a read and their sources\<close>

text \<open>
  A stream task whose metadata is known reads its source from the requested offset on; the task of
  a query reads it from row 0, beginning with the page that came inside the response.
\<close>

definition stream_opens :: "stream_metadata \<Rightarrow> lane_source \<Rightarrow> read_stream_options \<Rightarrow> bool" where
  "stream_opens md src opt \<longleftrightarrow> ro_metadata opt = Some md \<and> ro_first_page_check opt = None
     \<and> sint (ro_current_offset opt) = so_first src \<and> 0 \<le> so_first src \<and> so_first src \<le> so_rows src"

definition query_opens :: "stream_metadata \<Rightarrow> lane_source \<Rightarrow> read_query_stream_options \<Rightarrow> bool" where
  "query_opens md src opt \<longleftrightarrow> qo_metadata opt = md \<and> so_first src = 0
     \<and> 0 < sint (qo_page_row_count opt) \<and> sint (qo_page_row_count opt) \<le> so_rows src
     \<and> qo_first_page_bytes opt = so_slice src 0 (sint (qo_page_row_count opt))
     \<and> (qo_read_rows opt = None \<longrightarrow> sint (qo_page_row_count opt) = so_rows src)"

fun reads_sources :: "stream_metadata \<Rightarrow> started \<Rightarrow> lane_source list \<Rightarrow> bool" where
  "reads_sources md NothingStarted srcs = (srcs = [])"
| "reads_sources md (TableReaders opts) srcs = list_all2 (stream_opens md) srcs opts"
| "reads_sources md (QueryReader opt) srcs = (length srcs = 1 \<and> query_opens md (hd srcs) opt)"
| "reads_sources md (JobStream task) srcs =
     (length srcs = 1 \<and> stream_opens md (hd srcs) (jt_options task) \<and> jt_fallback task = None)"

fun keeps_order :: "started \<Rightarrow> bool" where
  "keeps_order NothingStarted = True"
| "keeps_order (TableReaders opts) = (list_all ro_maintain_order opts \<and> length opts \<le> 1)"
| "keeps_order (QueryReader opt) = qo_maintain_order opt"
| "keeps_order (JobStream task) = ro_maintain_order (jt_options task)"

lemma lane_orders [simp]:
  "ln_ordered (stream_lane ipc gx now opt) = ro_maintain_order opt"
  "ln_ordered (query_lane ipc gx now qopt) = qo_maintain_order qopt"
  by (simp_all add: stream_lane_def query_lane_def new_lane_def)

lemma stream_lane_served:
  assumes "stream_opens md src opt"
  shows "lane_served ipc md src False (stream_lane ipc gx now opt)"
proof -
  have "history (Some md) (ro_schema_tx opt) None False (stream_lane ipc gx now opt)"
    using assms by (simp add: history_def stream_lane_def new_lane_def stream_opens_def failure_inv_def
        schema_inv_def check_inv_def reader_of_def new_reader_def)
  with assms show ?thesis
    by (auto simp: lane_served_def supplied_def stream_lane_def new_lane_def reader_cfg_of_def stream_opens_def delivery_inv_def
        reader_of_def new_reader_def)
qed

lemma query_lane_served:
  assumes "query_opens md src opt"
  shows "lane_served ipc md src False (query_lane ipc gx now opt)"
proof -
  have "history (Some md) False None False (query_lane ipc gx now opt)"
    using assms by (auto simp: history_def query_lane_def new_lane_def query_opens_def failure_inv_def
        schema_inv_def schema_messages_def is_schema_message_def check_inv_def new_reader_def first_page_job_def
        split: option.splits)
  with assms show ?thesis
    by (auto simp: lane_served_def supplied_def query_lane_def new_lane_def reader_cfg_of_def query_opens_def delivery_inv_def
        new_reader_def first_page_job_def Let_def split: option.splits)
qed

lemma served_start:
  assumes "list_all fresh_lane lanes" "list_all2 (\<lambda>src ln. lane_served ipc md src False ln) srcs lanes"
  shows "served ipc md srcs (start_system slots (receiver_new True hs) lanes None)"
  using kept_start [OF assms(1), of None slots hs] assms(2)
  by (simp add: served_def start_system_def receiver_new_def clean_end_def)

lemma served_start_read:
  assumes "reads_sources md st srcs"
  shows "served (wd_ipc w) md srcs (start_read w c log (receiver_new True hs) st)"
proof (cases st)
  case NothingStarted
  with assms show ?thesis by (auto simp: start_read_def intro!: served_start)
next
  case (TableReaders opts)
  have "list_all2 (\<lambda>src ln. lane_served (wd_ipc w) md src False ln) srcs (map (stream_lane (wd_ipc w) gx now) opts)" for gx now
    using assms TableReaders by (auto simp: list_all2_map2 elim!: list_all2_mono intro: stream_lane_served)
  with TableReaders show ?thesis
    by (auto simp: start_read_def Let_def list_all_iff stream_lane_fresh intro!: served_start)
next
  case (QueryReader opt)
  with assms obtain src where "srcs = [src]" "query_opens md src opt" by (auto simp: length_Suc_conv)
  with QueryReader show ?thesis
    by (auto simp: start_read_def query_lane_fresh intro!: served_start query_lane_served)
next
  case (JobStream task)
  with assms obtain src where "srcs = [src]" "stream_opens md src (jt_options task)" "jt_fallback task = None"
    by (auto simp: length_Suc_conv)
  with JobStream show ?thesis
    by (auto simp: start_read_def Let_def stream_lane_fresh intro!: served_start stream_lane_served)
qed

section \<open>The rows the consumer sees\<close>

lemma calm_sends: "sent_batches (decode_job_run ipc Decode.calm j) = job_batches ipc j"
  by (cases "decode_arrow_record_batches ipc (dj_bytes j) (dj_expected_row_count j) (dj_metadata j)")
    (simp_all add: job_batches_def calm_job, simp add: decode_job_run_def Decode.calm_def sent_batches_def)

lemma owed_rows: "concat (map rows (owed ipc js)) = delivered ipc rows js"
  by (induction js) (simp_all add: delivered_def job_rows_def calm_sends)

definition rows_seen :: "(record_batch \<Rightarrow> 'row list) \<Rightarrow> read_system \<Rightarrow> 'row list" where
  "rows_seen rows s = concat (map rows (oks (sy_got s)))"

definition rows_of_source :: "lane_source \<Rightarrow> 'row list \<Rightarrow> 'row list" where
  "rows_of_source src tbl = drop (nat (so_first src)) tbl"

text \<open>The payloads of a source decode to the slices of a table.\<close>

definition source_of_table ::
  "ipc \<Rightarrow> stream_metadata \<Rightarrow> (record_batch \<Rightarrow> 'row list) \<Rightarrow> lane_source \<Rightarrow> 'row list \<Rightarrow> bool" where
  "source_of_table ipc md rows src tbl \<longleftrightarrow> serves_table ipc md (so_slice src) rows tbl
     \<and> so_rows src = int (length tbl) \<and> 0 \<le> so_first src"

lemma tiles_prefix: "tiles sl k js n \<Longrightarrow> prefix js' js \<Longrightarrow> \<exists>m \<le> n. tiles sl k js' m"
  by (auto simp: prefix_def tiles_append) (use tiles_bounds in blast)

lemma lane_rows:
  assumes served: "lane_served ipc md src flag ln" and tbl: "source_of_table ipc md rows src tbl"
  shows "prefix (concat (map rows (owed (lane_ipc ln) (ln_pushed ln)))) (rows_of_source src tbl)"
    and "lane_complete src ln \<Longrightarrow>
      concat (map rows (owed (lane_ipc ln) (ln_pushed ln))) = rows_of_source src tbl"
proof -
  obtain tx where hist: "history (Some md) tx None flag ln" using served by (auto simp: lane_served_def)
  have ipc: "lane_ipc ln = ipc" using served by (simp add: lane_served_def)
  have "\<exists>n \<le> so_rows src. tiles (so_slice src) (so_first src) (jobs (ln_log ln)) n"
    using served by (auto simp: lane_served_def supplied_def delivery_inv_def split: option.splits)
  with hist obtain m where m: "tiles (so_slice src) (so_first src) (ln_pushed ln) m" "m \<le> so_rows src"
    using tiles_prefix by (metis history_def order_trans)
  have "set (ln_pushed ln) \<subseteq> set (jobs (ln_log ln))"
    using hist by (auto simp: history_def prefix_def)
  then have md: "\<forall>j \<in> set (ln_pushed ln). dj_metadata j = md"
    using hist by (auto simp: history_def schema_inv_def set_jobs)
  have rows: "concat (map rows (owed (lane_ipc ln) (ln_pushed ln))) = take (nat (n - so_first src)) (rows_of_source src tbl)"
    if "tiles (so_slice src) (so_first src) (ln_pushed ln) n" "n \<le> so_rows src" for n
    using tiles_delivered [OF _ that(1) _ _ md, of ipc rows tbl] that(2) tbl
    by (simp add: owed_rows ipc source_of_table_def rows_of_source_def)
  from rows [OF m] show "prefix (concat (map rows (owed (lane_ipc ln) (ln_pushed ln)))) (rows_of_source src tbl)"
    by (simp add: take_is_prefix)
  assume "lane_complete src ln"
  with rows [of "so_rows src"] tbl
  show "concat (map rows (owed (lane_ipc ln) (ln_pushed ln))) = rows_of_source src tbl"
    by (simp add: lane_complete_def rows_of_source_def source_of_table_def nat_diff_distrib')
qed

lemma prefix_concat_map: "prefix xs ys \<Longrightarrow> prefix (concat (map f xs)) (concat (map f ys))"
  by (auto simp: prefix_def)

text \<open>C1: An ordered read shows its consumer the table: under every interleaving of the reader, its
  reconnections, the decode jobs, the bounded channel, cancellations and errors, the rows received so
  far are a prefix of the rows of the table from the first requested one on, in order; and if the
  consumer sees the end of the read without an error, they are all of these rows.\<close>

theorem ordered_consumer_sees_table:
  assumes start: "reads_sources md st [src]" "keeps_order st"
    and run: "sys_run as (start_read w c log (receiver_new True hs) st) = Some s"
    and honest: "\<forall>a \<in> set as. inputs_ok (honest_inputs [src]) a"
    and tbl: "source_of_table (wd_ipc w) md rows src tbl"
  shows "prefix (rows_seen rows s) (rows_of_source src tbl)
    \<and> (clean_end s \<longrightarrow> rows_seen rows s = rows_of_source src tbl)"
proof -
  let ?s0 = "start_read w c log (receiver_new True hs) st"
  have "ordered_kept ?s0"
    using start
    by (cases st) (auto simp: start_read_def Let_def list_all2_Cons1 stream_lane_fresh query_lane_fresh
        intro!: ordered_kept_start)
  from ordered_sys.inv_actions [OF honest this] run have ok: "ordered_kept s" by (simp add: sys_run_def)
  from served_sys.inv_actions [OF honest served_start_read [OF start(1)]] run
  have srv: "served (wd_ipc w) md [src] s" by (simp add: sys_run_def)
  obtain ln where ln: "sy_lanes s = [ln]" "ln_ordered ln" "oks (sy_got s @ rx_items (sy_rx s)) = ln_sent ln"
    using ok by (auto simp: ordered_kept_def)
  have kept: "sent_in_order (rx_cancel_flag (sy_rx s)) ln"
    using ok ln(1,2) by (auto simp: ordered_kept_def sys_kept_def lane_kept_def)
  have served: "lane_served (wd_ipc w) md src (rx_cancel_flag (sy_rx s)) ln"
    using srv ln(1) by (simp add: served_def)
  note rows = lane_rows [OF served tbl]
  have "prefix (oks (sy_got s)) (ln_sent ln)" using ln(3) by (metis oks_simps(4) prefixI)
  moreover have "prefix (ln_sent ln) (owed (lane_ipc ln) (ln_pushed ln))"
    using kept by (auto simp: sent_in_order_def prefix_def)
  ultimately have "prefix (rows_seen rows s) (concat (map rows (owed (lane_ipc ln) (ln_pushed ln))))"
    unfolding rows_seen_def by (meson prefix_concat_map prefix_order.trans)
  moreover have "rows_seen rows s = rows_of_source src tbl" if "clean_end s"
  proof -
    have "lane_complete src ln" "rx_items (sy_rx s) = []"
      using srv that ln(1) by (auto simp: served_def all_complete_def)
    with ln rows(2) show ?thesis by (simp add: rows_seen_def lane_complete_def)
  qed
  ultimately show ?thesis using rows(1) prefix_order.trans by blast
qed

section \<open>Several streams\<close>

lemma mset_concat_map: "mset (concat (map f xs)) = (\<Sum>x \<in># mset xs. mset (f x))"
  by (induction xs) simp_all

lemma mset_concat_mono: "mset xs \<subseteq># mset ys \<Longrightarrow> mset (concat (map f xs)) \<subseteq># mset (concat (map f ys))"
  by (auto simp: mset_concat_map dest!: mset_subset_eq_exists_conv [THEN iffD1])

lemma sent_within:
  assumes "lane_kept flag ln"
  shows "mset (ln_sent ln) \<subseteq># mset (owed (lane_ipc ln) (ln_pushed ln))"
proof (cases "ln_ordered ln")
  case True
  with assms obtain rest where "owed (lane_ipc ln) (ln_pushed ln) = ln_sent ln @ owed_by committed ln @ rest"
    by (auto simp: lane_kept_def sent_in_order_def prefix_def)
  then show ?thesis by simp
next
  case False
  with assms have "mset (ln_sent ln) + mset (owed_by committed ln) \<subseteq># mset (owed (lane_ipc ln) (ln_pushed ln))"
    by (simp add: lane_kept_def sent_once_def)
  with mset_subset_eq_add_left show ?thesis by (rule subset_mset.order_trans)
qed

definition owed_by_all :: "lane list \<Rightarrow> record_batch list" where
  "owed_by_all lanes = concat (map (\<lambda>ln. owed (lane_ipc ln) (ln_pushed ln)) lanes)"

lemma owed_by_all_simps [simp]:
  "owed_by_all [] = []" "owed_by_all (ln # lanes) = owed (lane_ipc ln) (ln_pushed ln) @ owed_by_all lanes"
  by (simp_all add: owed_by_all_def)

lemma seen_within:
  assumes "sys_kept s"
  shows "mset (oks (sy_got s)) \<subseteq># mset (owed_by_all (sy_lanes s))"
proof -
  have "(\<Sum>ln \<leftarrow> lanes. mset (ln_sent ln)) \<subseteq># mset (owed_by_all lanes)"
    if "list_all (lane_kept flag) lanes" for flag lanes
    using that by (induction lanes) (auto intro: subset_mset.add_mono sent_within)
  moreover have "list_all (lane_kept (rx_cancel_flag (sy_rx s))) (sy_lanes s)"
    using assms by (auto simp: sys_kept_def list_all_iff)
  ultimately have "(\<Sum>ln \<leftarrow> sy_lanes s. mset (ln_sent ln)) \<subseteq># mset (owed_by_all (sy_lanes s))" by blast
  moreover have "(\<Sum>ln \<leftarrow> sy_lanes s. mset (ln_sent ln)) = mset (oks (sy_got s)) + mset (oks (rx_items (sy_rx s)))"
    using assms by (simp add: sys_kept_def seen_and_sent_def)
  then have "mset (oks (sy_got s)) \<subseteq># (\<Sum>ln \<leftarrow> sy_lanes s. mset (ln_sent ln))" by simp
  ultimately show ?thesis using subset_mset.order_trans by blast
qed

lemma sources_rows:
  assumes "list_all2 (\<lambda>src ln. lane_served ipc md src flag ln) srcs lanes"
    and "list_all2 (source_of_table ipc md rows) srcs tbls"
  shows "mset (concat (map rows (owed_by_all lanes))) \<subseteq># mset (concat (map2 rows_of_source srcs tbls))"
    and "list_all2 lane_complete srcs lanes \<Longrightarrow>
      concat (map rows (owed_by_all lanes)) = concat (map2 rows_of_source srcs tbls)"
proof -
  have *: "mset (concat (map rows (owed_by_all lanes))) \<subseteq># mset (concat (map2 rows_of_source srcs tbls))
      \<and> (list_all2 lane_complete srcs lanes \<longrightarrow>
           concat (map rows (owed_by_all lanes)) = concat (map2 rows_of_source srcs tbls))"
    using assms
  proof (induction arbitrary: tbls rule: list_all2_induct)
    case (Cons src srcs ln lanes)
    from Cons.prems obtain tbl tbls' where tbls: "tbls = tbl # tbls'" "source_of_table ipc md rows src tbl"
      "list_all2 (source_of_table ipc md rows) srcs tbls'"
      by (auto simp: list_all2_Cons1)
    note rows = lane_rows [OF Cons.hyps(1) tbls(2)]
    from rows(1) have "mset (concat (map rows (owed (lane_ipc ln) (ln_pushed ln)))) \<subseteq># mset (rows_of_source src tbl)"
      by (auto simp: prefix_def)
    with Cons.IH [OF tbls(3)] rows(2) tbls(1) show ?case
      by (auto intro: subset_mset.add_mono)
  qed simp
  then show "mset (concat (map rows (owed_by_all lanes))) \<subseteq># mset (concat (map2 rows_of_source srcs tbls))"
    and "list_all2 lane_complete srcs lanes \<Longrightarrow>
      concat (map rows (owed_by_all lanes)) = concat (map2 rows_of_source srcs tbls)"
    by blast+
qed

lemma complete_seen:
  assumes "sys_kept s" "all_complete srcs s"
  shows "mset (oks (sy_got s)) = mset (owed_by_all (sy_lanes s))"
proof -
  have "(\<Sum>ln \<leftarrow> lanes. mset (ln_sent ln)) = mset (owed_by_all lanes)" if "list_all2 lane_complete srcs lanes" for srcs lanes
    using that by (induction rule: list_all2_induct) (simp_all add: lane_complete_def)
  from this [of srcs "sy_lanes s"] assms show ?thesis
    by (simp add: sys_kept_def seen_and_sent_def all_complete_def)
qed

text \<open>C3: However many streams are read in parallel, and under every interleaving of their readers,
  decode jobs and reconnections, the consumer receives no row twice and none that is not in its
  streams; and if it sees the end without an error it has received every row of every stream.\<close>

theorem parallel_consumer_sees_rows_once:
  assumes start: "reads_sources md st srcs"
    and run: "sys_run as (start_read w c log (receiver_new True hs) st) = Some s"
    and honest: "\<forall>a \<in> set as. inputs_ok (honest_inputs srcs) a"
    and tbls: "list_all2 (source_of_table (wd_ipc w) md rows) srcs tbls"
  shows "mset (rows_seen rows s) \<subseteq># mset (concat (map2 rows_of_source srcs tbls))
    \<and> (clean_end s \<longrightarrow> mset (rows_seen rows s) = mset (concat (map2 rows_of_source srcs tbls)))"
proof -
  from served_sys.inv_actions [OF honest served_start_read [OF start]] run
  have srv: "served (wd_ipc w) md srcs s" by (simp add: sys_run_def)
  then have sys: "sys_kept s"
    and lanes: "list_all2 (\<lambda>src ln. lane_served (wd_ipc w) md src (rx_cancel_flag (sy_rx s)) ln) srcs (sy_lanes s)"
    by (auto simp: served_def)
  note rows = sources_rows [OF lanes tbls]
  from mset_concat_mono [OF seen_within [OF sys], of rows] rows(1)
  have "mset (rows_seen rows s) \<subseteq># mset (concat (map2 rows_of_source srcs tbls))"
    unfolding rows_seen_def by (rule subset_mset.order_trans)
  moreover have "mset (rows_seen rows s) = mset (concat (map2 rows_of_source srcs tbls))" if "clean_end s"
  proof -
    from srv that have "all_complete srcs s" by (simp add: served_def)
    with rows(2) have "concat (map rows (owed_by_all (sy_lanes s))) = concat (map2 rows_of_source srcs tbls)"
      by (simp add: all_complete_def)
    moreover have "mset (rows_seen rows s) = mset (concat (map rows (owed_by_all (sy_lanes s))))"
      unfolding rows_seen_def mset_concat_map complete_seen [OF sys \<open>all_complete srcs s\<close>] ..
    ultimately show ?thesis by simp
  qed
  ultimately show ?thesis by blast
qed

end
