(* ===== verification/Read_System_Progress.thy ===== *)
theory Read_System_Progress
  imports Read_System_Proofs
begin

text \<open>
  When a read can get stuck and when it cannot: with one record batch per payload the consumer never
  waits while nothing else can act; with several batches per payload all slots of the channel may
  be held by jobs that wait behind a job that waits for a slot; and a receiver that is dropped stops
  every task within a bounded number of actions.
\<close>

section \<open>One batch per payload\<close>

definition single_batch :: "ipc \<Rightarrow> bool" where
  "single_batch ipc \<longleftrightarrow>
     (\<forall>bs n md batches. decode_arrow_record_batches ipc bs n md = Inr batches \<longrightarrow> length batches \<le> 1)"

fun short_worker :: "worker \<Rightarrow> bool" where
  "short_worker (Holding r) = (case r of Inr bs \<Rightarrow> length bs \<le> 1 | Inl e \<Rightarrow> True)"
| "short_worker (Sending bs) = (bs = [])"
| "short_worker (Blocked b bs) = False"
| "short_worker _ = True"

definition short_lane :: "lane \<Rightarrow> bool" where
  "short_lane ln \<longleftrightarrow> single_batch (lane_ipc ln) \<and> list_all short_worker (ln_workers ln)"

lemma short_worker_step:
  assumes "worker_step ipc free rx wk = Some (Some wk', rx', sent)" "single_batch ipc" "short_worker wk"
  shows "short_worker wk'"
  using assms
  by (cases "(ipc, free, rx, wk)" rule: worker_step.cases)
    (auto simp: single_batch_def split: if_splits sum.splits)

lemma list_all_without: "list_all P ws \<Longrightarrow> list_all P (without w ws)"
  using set_without [of w ws] by (auto simp: list_all_iff)

lemma short_lane_act:
  assumes act: "lane_act P free rx ln ln' rx' sch" and short: "short_lane ln"
  shows "short_lane ln'"
  using act
proof cases
  case (stepped i)
  with short do_step_fields [OF stepped(4)] show ?thesis by (simp add: short_lane_def)
next
  case (performed e es)
  have "ln_cfg ln' = ln_cfg ln" using perform_fields(3) [OF performed(3)] by simp
  moreover have "list_all short_worker (ln_workers ln')"
    using short performed(3)
    by (auto simp: short_lane_def perform_def lane_push_def oq_push_def Let_def split: effect.splits if_splits)
  ultimately show ?thesis using short by (simp add: short_lane_def)
next
  case (worked w)
  show ?thesis using worked(2)
  proof (cases rule: lane_work_cases)
    case (ran wk' sent)
    have "short_worker (ln_workers ln ! w)" using short ran(1) by (simp add: short_lane_def list_all_length)
    with ran short short_worker_step show ?thesis
      by (cases wk') (auto simp: short_lane_def list_all_update list_all_without)
  qed (use short in \<open>auto simp: short_lane_def list_all_update list_all_without\<close>)
qed (use short in \<open>auto simp: short_lane_def\<close>)

definition short_system :: "read_system \<Rightarrow> bool" where
  "short_system s \<longleftrightarrow> sys_kept s \<and> list_all short_lane (sy_lanes s) \<and> 0 < sy_slots s
     \<and> (\<forall>lanes. sy_fallback s = Some (Inr lanes) \<longrightarrow> list_all short_lane lanes)"

lemma short_step:
  assumes short: "short_system s" and stp: "sys_step a s = Some s'" and ok: "inputs_ok P a"
  shows "short_system s'"
proof -
  have "sys_kept s'" using kept_step [OF _ stp ok] short by (simp add: short_system_def)
  moreover from stp ok have "list_all short_lane (sy_lanes s') \<and> 0 < sy_slots s'
     \<and> (\<forall>lanes. sy_fallback s' = Some (Inr lanes) \<longrightarrow> list_all short_lane lanes)"
  proof (cases rule: sys_step_cases)
    case (lane k ln' rx' sch extra fb)
    have "short_lane ln'"
      using short_lane_act [OF lane(2)] short lane(1) by (simp add: short_system_def list_all_length)
    with lane(3,4) short show ?thesis
      by (auto simp: short_system_def list_all_update fallback_act_def)
  qed (use short in \<open>auto simp: short_system_def Let_def\<close>)
  ultimately show ?thesis by (simp add: short_system_def)
qed

interpretation short_sys: guarded_invariant sys_step "inputs_ok P" short_system for P
  by unfold_locales (rule short_step)

section \<open>Progress\<close>

definition task_action :: "read_action \<Rightarrow> bool" where
  "task_action a \<longleftrightarrow> a \<noteq> Recv \<and> a \<noteq> Abort"

definition stuck :: "read_system \<Rightarrow> bool" where
  "stuck s \<longleftrightarrow> (\<forall>a. task_action a \<longrightarrow> sys_step a s = None)"

lemma task_action_simps [simp]:
  "task_action (ReaderStep k i)" "task_action (Perform k)" "task_action (TaskEnds k)"
  "task_action (TaskAborted k)" "task_action (Work k w)" "\<not> task_action Recv" "\<not> task_action Abort"
  by (simp_all add: task_action_def)

lemma not_stuckI: "sys_step a s \<noteq> None \<Longrightarrow> task_action a \<Longrightarrow> \<not> stuck s"
  by (auto simp: stuck_def)

lemma worker_can_step: "short_worker wk \<Longrightarrow> wk \<noteq> AtHead \<Longrightarrow> worker_step ipc free rx wk \<noteq> None"
  by (cases "(ipc, free, rx, wk)" rule: worker_step.cases) auto

lemma lane_work_enabled:
  assumes "w < length (ln_workers ln)"
    and "ln_workers ln ! w \<noteq> AtHead \<Longrightarrow> worker_step (lane_ipc ln) free rx (ln_workers ln ! w) \<noteq> None"
  shows "lane_work free rx w ln \<noteq> None"
proof (cases "ln_workers ln ! w = AtHead")
  case True
  with assms(1) show ?thesis by (cases "oq_queue (ln_queue ln)") (auto simp: lane_work_def oq_pop_def)
next
  case False
  with assms obtain x where "worker_step (lane_ipc ln) free rx (ln_workers ln ! w) = Some x" by blast
  with assms(1) False show ?thesis
    by (cases "ln_workers ln ! w") (auto simp: lane_work_def simp del: worker_step.simps split: prod.splits)
qed

lemma lane_can_work:
  assumes "short_lane ln" "ln_workers ln \<noteq> []"
  shows "lane_work free rx 0 ln \<noteq> None"
  by (rule lane_work_enabled) (use assms worker_can_step in \<open>auto simp: short_lane_def list_all_length\<close>)

text \<open>The server answers a request in some way.\<close>

definition any_input :: "bool \<Rightarrow> step_in" where
  "any_input flag = \<lparr>in_cancelled = flag, in_select_cancelled = False, in_send = (\<lambda>req. Inr []),
     in_reserve = Reserved, in_throttled = False, in_now = 0\<rparr>"

lemma task_can_act:
  assumes k: "k < length (sy_lanes s)" and task: "ln_task (sy_lanes s ! k)" and free: "slot_free s"
  shows "\<not> stuck s"
proof -
  let ?ln = "sy_lanes s ! k"
  consider (out) e es where "ln_outbox ?ln = e # es" | (ends) "ln_outbox ?ln = []" "is_terminated (ln_reader ?ln)"
    | (step) "ln_outbox ?ln = []" "\<not> is_terminated (ln_reader ?ln)"
    by (cases "ln_outbox ?ln") auto
  then show ?thesis
  proof cases
    case out
    have "perform True rx e ln \<noteq> None" for rx ln
      by (auto simp: perform_def split: effect.splits)
    with k out free have "sys_step (Perform k) s \<noteq> None" by (simp add: do_perform_def)
    then show ?thesis by (rule not_stuckI) simp
  next
    case ends
    then have "sys_step (TaskEnds k) s \<noteq> None"
      using k task by (auto simp: do_end_def Let_def split: read_state.splits termination_reason.splits
          option.splits sum.splits)
    then show ?thesis by (rule not_stuckI) simp
  next
    case step
    then have "sys_step (ReaderStep k (any_input (rx_cancel_flag (sy_rx s)))) s \<noteq> None"
      using k task by (auto simp: do_step_def any_input_def split: prod.splits)
    then show ?thesis by (rule not_stuckI) simp
  qed
qed

lemma short_not_stuck:
  assumes short: "short_system s" and waits: "sys_step Recv s = None"
  shows "\<not> stuck s"
proof (cases "\<exists>ln \<in> set (sy_lanes s). ln_workers ln \<noteq> []")
  case True
  then obtain k where k: "k < length (sy_lanes s)" "ln_workers (sy_lanes s ! k) \<noteq> []"
    by (auto simp: in_set_conv_nth)
  have "short_lane (sy_lanes s ! k)" using short k(1) by (simp add: short_system_def list_all_length)
  from lane_can_work [OF this k(2)] k(1) have "sys_step (Work k 0) s \<noteq> None" by simp
  then show ?thesis by (rule not_stuckI) simp
next
  case False
  have idle: "ln_workers ln = [] \<and> oq_queue (ln_queue ln) = []" if "ln \<in> set (sy_lanes s)" for ln
  proof -
    have "lane_shape ln" using short that by (auto simp: short_system_def sys_kept_def list_all_iff lane_kept_def)
    with False that show ?thesis by (auto simp: lane_shape_def split: if_splits)
  qed
  then have "permits ln = 0" if "ln \<in> set (sy_lanes s)" for ln using that by (simp add: permits_def)
  then have no_permits: "sum_list (map permits (sy_lanes s)) = 0" by (simp add: sum_list_eq_0_iff)
  have empty: "rx_items (sy_rx s) = []"
    using waits by (cases "rx_items (sy_rx s)") (auto simp: do_recv_def receiver_recv_def channel_recv_def)
  with no_permits have used: "slots_used s = 0" by (simp add: slots_used_def)
  with waits empty have "senders_alive s"
    by (auto simp: do_recv_def receiver_recv_def channel_recv_def split: if_splits)
  then obtain k where "k < length (sy_lanes s)" "ln_task (sy_lanes s ! k)"
    using idle by (auto simp: senders_alive_def sends_def list_ex_iff in_set_conv_nth)
  moreover have "slot_free s" using used short by (simp add: slot_free_def short_system_def)
  ultimately show ?thesis by (rule task_can_act)
qed

lemma short_start_read:
  assumes "single_batch (wd_ipc w)"
  shows "short_system (start_read w c log (receiver_new True hs) st)"
proof -
  have lanes: "short_lane (stream_lane (wd_ipc w) gx now opt)" "short_lane (query_lane (wd_ipc w) gx now qopt)" for gx now opt qopt
    using assms by (simp_all add: short_lane_def stream_lane_def query_lane_def new_lane_def reader_cfg_of_def)
  have slots: "0 < channel_size pf" for pf by (simp add: channel_size_def)
  show ?thesis
    using kept_start_read [of w c log hs st] lanes slots
    by (cases st) (auto simp: short_system_def start_read_def start_system_def Let_def list_all_iff map_sum_Inr)
qed

text \<open>C7: No read gets stuck when a payload holds at most one record batch: whenever the consumer
  waits, whatever happened before, some reader task or decode job can act.\<close>

theorem consumer_never_stuck:
  assumes "single_batch (wd_ipc w)"
    and run: "sys_run as (start_read w c log (receiver_new True hs) st) = Some s"
    and waits: "sys_step Recv s = None"
  shows "\<exists>a. task_action a \<and> sys_step a s \<noteq> None"
proof -
  have "\<forall>a \<in> set as. inputs_ok (\<lambda>k i. True) a" using any_inputs_ok by blast
  from short_sys.inv_actions [OF this short_start_read [OF assms(1)]] run
  have "short_system s" by (simp add: sys_run_def)
  from short_not_stuck [OF this waits] show ?thesis by (simp add: stuck_def)
qed

section \<open>Several batches per payload\<close>

text \<open>
  A machine with one rayon thread, hence a channel of two slots, and a server that sends three
  payloads of two batches. The consumer receives the first batch while the job that sent it has not
  yet sent the second; the slot goes to the third payload.
\<close>

definition two_batch_page :: response where
  "two_batch_page = \<lparr>rsp_schema = None, rsp_rows = Some (ArrowRecordBatch [1, 1]), rsp_row_count = 2,
     rsp_total_estimated_row_count = None\<rparr>"

definition two_batch_in :: step_in where
  "two_batch_in = \<lparr>in_cancelled = False, in_select_cancelled = False,
     in_send = (\<lambda>req. Inr [Inr two_batch_page, Inr two_batch_page, Inr two_batch_page]),
     in_reserve = Reserved, in_throttled = False, in_now = 0\<rparr>"

definition narrow_world :: world where
  "narrow_world =
     \<lparr>wd_platform = \<lparr>pf_clamp = (\<lambda>s n. (s, n)), pf_parallelism = Some 1, pf_rayon_threads = 1\<rparr>,
      wd_ipc = toy_ipc, wd_gax = gax_ref,
      wd_codec = \<lparr>ca_from_value = V2UnknownValue, ca_from_name = V2UnknownName\<rparr>,
      wd_services = \<lparr>sv_create_read_session = (\<lambda>log req. Inl lost_connection),
        sv_get_job = (\<lambda>log req. Inl lost_connection), sv_query = (\<lambda>log req. Inl lost_connection)\<rparr>,
      wd_uuid = ''0'', wd_inputs = [], wd_now = 0\<rparr>"

definition narrow_options :: read_stream_options where
  "narrow_options = \<lparr>ro_read_rows = rows_request, ro_current_offset = 0, ro_metadata = Some toy_metadata,
     ro_schema_tx = False, ro_first_page_check = None, ro_retry_config = rc_retry flaky_cfg,
     ro_maintain_order = True\<rparr>"

definition narrow_client :: client where
  "narrow_client = \<lparr>cl_quota_project_id = ''quota'', cl_user_agent = None, cl_retry_throttler = 0,
     cl_retry_config = rc_retry flaky_cfg\<rparr>"

definition narrow_read :: read_system where
  "narrow_read = start_read narrow_world narrow_client [] (receiver_new True [0]) (TableReaders [narrow_options])"

abbreviation narrow_page :: "read_action list" where
  "narrow_page \<equiv> [ReaderStep 0 two_batch_in, Perform 0, Perform 0]"

definition fill_actions :: "read_action list" where
  "fill_actions = [ReaderStep 0 two_batch_in, Perform 0] @ narrow_page @ narrow_page"

definition block_actions :: "read_action list" where
  "block_actions = [Work 0 0, Work 0 0, Work 0 0, Work 0 0, Recv] @ narrow_page
     @ [Work 0 0, ReaderStep 0 two_batch_in, Perform 0, TaskEnds 0]"

definition two_batch_job :: decode_job where
  "two_batch_job = \<lparr>dj_bytes = [1, 1], dj_expected_row_count = 2, dj_metadata = toy_metadata\<rparr>"

definition narrow_lane :: "read_state \<Rightarrow> bool \<Rightarrow> decode_job list \<Rightarrow> worker list \<Rightarrow> effect list \<Rightarrow> decode_job list
    \<Rightarrow> record_batch list \<Rightarrow> lane" where
  "narrow_lane st task queue workers log pushed sent =
     \<lparr>ln_cfg = reader_cfg_of toy_ipc gax_ref (rc_retry flaky_cfg), ln_ordered = True,
      ln_reader = (reader_of narrow_options 0)\<lparr>rd_state := st\<rparr>, ln_outbox = [], ln_task = task,
      ln_queue = \<lparr>oq_queue = queue, oq_running = True\<rparr>, ln_workers = workers, ln_log = log,
      ln_pushed = pushed, ln_sent = sent\<rparr>"

definition narrow_system :: "record_batch list \<Rightarrow> bool \<Rightarrow> lane \<Rightarrow> read_system" where
  "narrow_system got senders ln =
     (start_system 2 ((receiver_new True [0])\<lparr>rx_senders := senders\<rparr>) [ln] None)\<lparr>sy_got := map Inr got\<rparr>"

definition page_log :: "effect list" where "page_log = [ThrottlerSuccess, PushJob two_batch_job]"

definition filled :: read_system where
  "filled = narrow_system [] True
     (narrow_lane (Reading 4 None [Inr two_batch_page]) True [two_batch_job, two_batch_job] [AtHead]
        (Connect rows_request # page_log @ page_log) [two_batch_job, two_batch_job] [])"

definition deadlocked :: read_system where
  "deadlocked = narrow_system [toy_batch 1] True
     (narrow_lane (Terminated Finished) False [two_batch_job, two_batch_job] [Blocked (toy_batch 1) []]
        (Connect rows_request # page_log @ page_log @ page_log @ [ThrottlerSuccess])
        [two_batch_job, two_batch_job, two_batch_job] [toy_batch 1])"

lemmas narrow_defs =
  narrow_read_def narrow_world_def narrow_options_def start_read_def start_system_def channel_size_def
  stream_lane_def new_lane_def reader_cfg_of_def reader_of_def new_reader_def new_retry_state_def oq_new_def
  narrow_system_def narrow_lane_def receiver_new_def

lemmas system_step_defs =
  do_step_def do_perform_def do_end_def do_recv_def perform_def lane_push_def lane_work_def set_lane_def
  oq_push_def oq_pop_def slot_free_def slots_used_def permits_def senders_alive_def sends_def without_def
  permit_send_def channel_send_def receiver_recv_def channel_recv_def is_terminated_def Let_def

lemma two_batch_decode:
  "decode_arrow_record_batches toy_ipc [1, 1] 2 toy_metadata = Inr [toy_batch 1, toy_batch 1]"
  by (simp add: decode_arrow_record_batches_def toy_ipc_def toy_batch_def checked_add_i64_def)

lemma fill_run: "sys_run fill_actions narrow_read = Some filled"
  by (simp add: sys_run_def fill_actions_def filled_def page_log_def narrow_defs system_step_defs
      two_batch_in_def two_batch_page_def two_batch_job_def
      step_def step_connecting_def step_reading_def read_response_def read_page_def response_metadata_def
      extract_response_arrow_bytes_def validate_non_empty_arrow_bytes_def check_first_page_def checked_add_i64_def
      rows_request_def)

lemma block_run: "sys_run block_actions filled = Some deadlocked"
  by (simp add: sys_run_def block_actions_def filled_def deadlocked_def page_log_def narrow_defs system_step_defs
      two_batch_in_def two_batch_page_def two_batch_job_def two_batch_decode
      step_def step_connecting_def step_reading_def read_response_def read_page_def response_metadata_def
      extract_response_arrow_bytes_def validate_non_empty_arrow_bytes_def check_first_page_def checked_add_i64_def)

lemma deadlocked_fields:
  "sy_lanes deadlocked = [narrow_lane (Terminated Finished) False [two_batch_job, two_batch_job]
     [Blocked (toy_batch 1) []] (Connect rows_request # page_log @ page_log @ page_log @ [ThrottlerSuccess])
        [two_batch_job, two_batch_job, two_batch_job] [toy_batch 1]]"
  "\<not> slot_free deadlocked" "sy_rx deadlocked = (receiver_new True [0])\<lparr>rx_senders := True\<rparr>"
  "oks (sy_got deadlocked) = [toy_batch 1]" "errs (sy_got deadlocked) = []" "\<not> sy_ended deadlocked"
  by (simp_all add: deadlocked_def narrow_defs system_step_defs)

lemma deadlocked_stuck:
  assumes "a \<noteq> Abort"
  shows "sys_step a deadlocked = None"
proof (cases a)
  case (Work k w)
  then show ?thesis
    by (cases w) (simp_all add: deadlocked_fields lane_work_def narrow_lane_def receiver_new_def)
next
  case Recv
  then show ?thesis
    by (simp add: do_recv_def deadlocked_fields receiver_new_def receiver_recv_def channel_recv_def
        senders_alive_def sends_def narrow_lane_def)
qed (use assms in \<open>simp_all add: deadlocked_fields do_step_def do_perform_def do_end_def narrow_lane_def
      receiver_new_def Let_def\<close>)

text \<open>
  The restriction to one batch per payload is needed. BigQuery keeps to it: the design documents of
  the repository say that a response never has more than one record batch, and call the loop over
  further batches a fallback that never runs. On other payloads that fallback is no safe one: with one
  rayon thread and three payloads of two batches each there is a run after which the consumer has
  received one of the six batches, no error was reported and nothing cancelled, and nobody can act
  any more.
\<close>

lemma several_batches_deadlock:
  "\<exists>s. sys_run (fill_actions @ block_actions) narrow_read = Some s
     \<and> oks (sy_got s) = [toy_batch 1] \<and> errs (sy_got s) = [] \<and> \<not> rx_cancel_flag (sy_rx s) \<and> \<not> sy_ended s
     \<and> {a. sys_step a s \<noteq> None} \<subseteq> {Abort}"
proof (rule exI [of _ deadlocked], intro conjI)
  show "sys_run (fill_actions @ block_actions) narrow_read = Some deadlocked"
    using fill_run block_run by (simp add: sys_run_def run_actions_append)
  show "{a. sys_step a deadlocked \<noteq> None} \<subseteq> {Abort}"
  proof
    fix a assume "a \<in> {a. sys_step a deadlocked \<noteq> None}"
    then show "a \<in> {Abort}" using deadlocked_stuck [of a] by (cases "a = Abort") auto
  qed
qed (simp_all add: deadlocked_fields receiver_new_def)

section \<open>Dropping the receiver\<close>

text \<open>How many actions a worker, a lane and the system can still take once the receiver is gone.\<close>

fun worker_rank :: "worker \<Rightarrow> nat" where
  "worker_rank AtHead = 1"
| "worker_rank (Taken j) = 2"
| "worker_rank (Decoding j) = 2"
| "worker_rank (Holding r) = 3"
| "worker_rank (Failing e) = 2"
| "worker_rank (Sending bs) = 2"
| "worker_rank (Blocked b bs) = 2"

definition lane_rank :: "lane \<Rightarrow> nat" where
  "lane_rank ln = of_bool (ln_task ln) * (4 + length (ln_outbox ln))
     + (if is_terminated (ln_reader ln) then 0 else 1)
     + 2 * length (oq_queue (ln_queue ln)) + sum_list (map worker_rank (ln_workers ln))"

definition sys_rank :: "read_system \<Rightarrow> nat" where
  "sys_rank s = sum_list (map lane_rank (sy_lanes s))
     + (case sy_fallback s of Some (Inr lanes) \<Rightarrow> sum_list (map lane_rank lanes) | Some (Inl e) \<Rightarrow> 3 | None \<Rightarrow> 0)"

definition gone :: "read_system \<Rightarrow> bool" where
  "gone s \<longleftrightarrow> sys_kept s \<and> rx_closed (sy_rx s)"

lemma sum_list_update_nat:
  "k < length xs \<Longrightarrow> sum_list (map f (xs[k := y])) + f (xs ! k) = sum_list (map f xs) + (f y :: nat)"
proof (induction xs arbitrary: k)
  case (Cons a xs)
  then show ?case by (cases k) auto
qed simp

lemma sum_list_without_nat:
  "k < length xs \<Longrightarrow> sum_list (map f (without k xs)) + f (xs ! k) = (sum_list (map f xs) :: nat)"
proof (induction xs arbitrary: k)
  case (Cons a xs)
  then show ?case by (cases k) (auto simp: without_def add.commute add.left_commute)
qed simp

lemma worker_rank_step:
  assumes "worker_step ipc free rx wk = Some (wk', rx', sent)" "rx_cancel_flag rx" "rx_closed rx"
  shows "(case wk' of Some w \<Rightarrow> worker_rank w | None \<Rightarrow> 1) < worker_rank wk"
  using assms by (cases "(ipc, free, rx, wk)" rule: worker_step.cases) auto

lemma lane_work_rank:
  assumes "lane_work free rx w ln = Some (ln', rx')" "rx_cancel_flag rx" "rx_closed rx"
  shows "lane_rank ln' < lane_rank ln"
  using assms(1)
proof (cases rule: lane_work_cases)
  case (taken j q)
  with sum_list_update_nat [OF taken(1), of worker_rank "Taken j"] show ?thesis
    by (simp add: lane_rank_def)
next
  case returned
  with sum_list_without_nat [OF returned(1), of worker_rank] show ?thesis by (simp add: lane_rank_def)
next
  case (ran wk' sent)
  define ws where "ws = (case wk' of Some wk' \<Rightarrow> (ln_workers ln)[w := wk']
      | None \<Rightarrow> if ln_ordered ln then (ln_workers ln)[w := AtHead] else without w (ln_workers ln))"
  have "sum_list (map worker_rank ws) < sum_list (map worker_rank (ln_workers ln))"
    using worker_rank_step [OF ran(2) assms(2,3)] sum_list_without_nat [OF ran(1), of worker_rank]
      sum_list_update_nat [OF ran(1), of worker_rank AtHead]
      sum_list_update_nat [OF ran(1), of worker_rank "the wk'"]
    by (cases wk') (simp_all add: ws_def)
  moreover have "ln' = ln\<lparr>ln_workers := ws, ln_sent := ln_sent ln @ sent\<rparr>" using ran(3) by (simp add: ws_def)
  ultimately show ?thesis by (simp add: lane_rank_def)
qed

lemma cancelled_step:
  assumes "rstep i r r' es" "in_cancelled i \<or> in_select_cancelled i" "\<not> is_terminated r"
    "step cfg i r = (r', es)"
  shows "es = [] \<and> is_terminated r'"
proof (cases "rd_state r")
  case (Terminated x)
  with assms(3) show ?thesis by (simp add: is_terminated_def)
qed (use assms(2,4) in \<open>auto simp: step_def step_connecting_def step_backoff_def step_reading_def is_terminated_def
      split: if_splits\<close>)

text \<open>A task action after the receiver is gone: every one brings the end nearer.\<close>

lemma lane_act_rank:
  assumes act: "lane_act P free rx ln ln' rx' sch" and shape: "lane_shape ln"
    and rx: "rx_cancel_flag rx" "rx_closed rx"
  shows "lane_rank ln' < lane_rank ln
    \<or> rd_state (ln_reader ln) = Terminated SwitchToReadSession \<and> ln_outbox ln = [] \<and> ln_outbox ln' \<noteq> []
      \<and> lane_rank ln' = lane_rank ln + 2"
  using act
proof cases
  case (stepped i)
  note f = do_step_fields [OF stepped(4)]
  have "ln_outbox ln' = [] \<and> is_terminated (ln_reader ln')"
    using stepped(4) f(11,12) rx(1) cancelled_step [OF f(14)] by (auto simp: do_step_def split: if_splits prod.splits)
  with f show ?thesis by (simp add: lane_rank_def)
next
  case (performed e es)
  have "ln_task ln" using performed(2) shape by (auto simp: lane_shape_def)
  moreover have "is_terminated (ln_reader ln) \<Longrightarrow> is_terminated (ln_reader ln')"
    using perform_reader [OF performed(3)] rx by (auto simp: is_terminated_def)
  moreover have "ln_queue ln' = ln_queue ln" "ln_workers ln' = ln_workers ln"
    using performed(3) rx by (auto simp: perform_def split: effect.splits if_splits)
  ultimately show ?thesis
    using perform_fields(1,2) [OF performed(3)] performed(2) by (simp add: lane_rank_def)
next
  case (cutover_failed err)
  then show ?thesis by (simp add: lane_rank_def is_terminated_def)
next
  case (worked w)
  then show ?thesis using lane_work_rank rx by blast
qed (auto simp: lane_rank_def)

lemma gone_step:
  assumes gone: "gone s" and stp: "sys_step a s = Some s'" and ok: "task_action a \<and> inputs_ok P a"
  shows "gone s'" and "sys_rank s' < sys_rank s"
proof -
  have kept: "sys_kept s" and closed: "rx_closed (sy_rx s)" using gone by (auto simp: gone_def)
  have rx: "rx_closed (sy_rx s) \<longrightarrow> rx_cancel_flag (sy_rx s)" "rx_cancel_flag (sy_rx s)"
    using kept closed by (auto simp: sys_kept_def receiver_kept_def)
  have "sys_kept s'" using kept_step [OF kept stp] ok by blast
  have not_consumer: "a \<noteq> Recv" "a \<noteq> Abort" and "inputs_ok P a" using ok by (auto simp: task_action_def)
  from stp \<open>inputs_ok P a\<close> not_consumer have "rx_closed (sy_rx s') \<and> sys_rank s' < sys_rank s"
  proof (cases rule: lane_step_cases)
    case (lane k ln' rx' sch extra fb)
    let ?ln = "sy_lanes s ! k"
    have "lane_shape ?ln" using kept lane(1) by (auto simp: sys_kept_def list_all_length lane_kept_def)
    note rank = lane_act_rank [OF lane(2) this rx(2) closed]
    note total_rank = sum_list_update_nat [OF lane(1), of lane_rank ln']
    from lane(4) have "sys_rank s' < sys_rank s"
      unfolding fallback_act_def
    proof (elim disjE conjE exE)
      assume "fb = sy_fallback s" "extra = []"
        "rd_state (ln_reader ?ln) = Terminated SwitchToReadSession \<longrightarrow> ln_outbox ?ln = [] \<longrightarrow> ln_outbox ln' = []"
      with rank total_rank lane(3) show ?thesis by (auto simp: sys_rank_def)
    next
      assume "fb = None" "sy_fallback s = Some (Inr extra)" "ln' = ?ln\<lparr>ln_task := False\<rparr>" "ln_task ?ln"
      with total_rank lane(3) show ?thesis by (simp add: sys_rank_def lane_rank_def)
    next
      fix err assume "fb = None" "extra = []" "sy_fallback s = Some (Inl err)"
      with rank total_rank lane(3) show ?thesis by (auto simp: sys_rank_def)
    qed
    then show ?thesis using lane_act_fields(1) [OF lane(2) rx(1)] lane(3) closed by simp
  qed
  with \<open>sys_kept s'\<close> show "gone s'" "sys_rank s' < sys_rank s" by (simp_all add: gone_def)
qed

interpretation after_drop: guarded_rank sys_step "\<lambda>a. task_action a \<and> inputs_ok P a" gone sys_rank for P
  by unfold_locales (rule gone_step; simp)+

lemma closed_worker_can_step: "rx_closed rx \<Longrightarrow> wk \<noteq> AtHead \<Longrightarrow> worker_step ipc free rx wk \<noteq> None"
  by (cases "(ipc, free, rx, wk)" rule: worker_step.cases) auto

lemma gone_stuck:
  assumes gone: "gone s" and "stuck s"
  shows "\<not> senders_alive s"
proof
  assume "senders_alive s"
  then obtain k where k: "k < length (sy_lanes s)" "sends (sy_lanes s ! k)"
    by (auto simp: senders_alive_def list_ex_length)
  let ?ln = "sy_lanes s ! k"
  have closed: "rx_closed (sy_rx s)" "rx_cancel_flag (sy_rx s)" and shape: "lane_shape ?ln"
    using gone k(1) by (auto simp: gone_def sys_kept_def receiver_kept_def list_all_length lane_kept_def)
  have no_workers: "ln_workers ?ln = []"
  proof (rule ccontr)
    assume "ln_workers ?ln \<noteq> []"
    then have "lane_work (slot_free s) (sy_rx s) 0 ?ln \<noteq> None"
      using closed_worker_can_step [OF closed(1)] by (intro lane_work_enabled) auto
    with k(1) have "sys_step (Work k 0) s \<noteq> None" by simp
    from not_stuckI [OF this] \<open>stuck s\<close> show False by simp
  qed
  with shape have "oq_queue (ln_queue ?ln) = []" by (auto simp: lane_shape_def split: if_splits)
  with k(2) no_workers have task: "ln_task ?ln" by (simp add: sends_def)
  consider (out) e es where "ln_outbox ?ln = e # es" | (ends) "ln_outbox ?ln = []" "is_terminated (ln_reader ?ln)"
    | (step) "ln_outbox ?ln = []" "\<not> is_terminated (ln_reader ?ln)"
    by (cases "ln_outbox ?ln") auto
  then show False
  proof cases
    case out
    have "perform free (sy_rx s) e ln \<noteq> None" for free ln
      using closed by (auto simp: perform_def split: effect.splits)
    with k out have "sys_step (Perform k) s \<noteq> None" by (simp add: do_perform_def)
    from not_stuckI [OF this] \<open>stuck s\<close> show False by simp
  next
    case ends
    then have "sys_step (TaskEnds k) s \<noteq> None"
      using k task by (auto simp: do_end_def Let_def split: read_state.splits termination_reason.splits
          option.splits sum.splits)
    from not_stuckI [OF this] \<open>stuck s\<close> show False by simp
  next
    case step
    then have "sys_step (ReaderStep k (any_input (rx_cancel_flag (sy_rx s)))) s \<noteq> None"
      using k task by (auto simp: do_step_def any_input_def split: prod.splits)
    from not_stuckI [OF this] \<open>stuck s\<close> show False by simp
  qed
qed

text \<open>C9: A read whose receiver is dropped, or has seen the end or an error, leaves nothing behind: from
  then on its tasks take at most as many actions as their rank says, whatever the servers answer, and
  when none of them can act any more no task is alive and no job is queued or running.\<close>

theorem dropped_read_stops:
  assumes run: "sys_run as (start_read w c log (receiver_new True hs) st) = Some s"
    and closed: "rx_closed (sy_rx s)"
    and tasks: "\<forall>a \<in> set bs. task_action a" "sys_run bs s = Some s'"
  shows "length bs \<le> sys_rank s \<and> (stuck s' \<longrightarrow> \<not> senders_alive s')"
proof -
  have "\<forall>a \<in> set as. inputs_ok (\<lambda>k i. True) a" using any_inputs_ok by blast
  from sys.inv_actions [OF this kept_start_read] run have "sys_kept s" by (simp add: sys_run_def)
  with closed have gone: "gone s" by (simp add: gone_def)
  have ok: "\<forall>a \<in> set bs. task_action a \<and> inputs_ok (\<lambda>k i. True) a" using tasks(1) any_inputs_ok by blast
  from after_drop.bounded_actions [OF ok gone] after_drop.inv_actions [OF ok gone] tasks(2) gone_stuck
  show ?thesis by (auto simp: sys_run_def)
qed

end
