(* ===== verification/Query_Proofs.thy ===== *)
theory Query_Proofs
  imports Query_Read
begin

text \<open>
  Properties of queries: which remote calls a read makes, that an ordered read stays on one
  stream, that job failures reach the caller, and the translation of errors and references.
\<close>

section \<open>Calls\<close>

text \<open>
  \<open>makes A k m\<close>: whatever was called before, \<open>m\<close> makes at most \<open>k\<close> further calls, all in \<open>A\<close>.
\<close>

definition makes :: "(rpc \<Rightarrow> bool) \<Rightarrow> nat \<Rightarrow> 'a io \<Rightarrow> bool" where
  "makes A k m \<longleftrightarrow> (\<forall>log. \<exists>new. snd (m log) = log @ new \<and> list_all A new \<and> length new \<le> k)"

named_theorems makes_intros "rules for the calls of composed operations"

lemma makes_return [makes_intros]: "makes A 0 (io_return a)"
  by (simp add: makes_def)

lemma makes_lift [makes_intros]: "makes A 0 (io_lift r)"
  by (simp add: makes_def)

lemma makes_call:
  "A (kind req options) \<Longrightarrow> makes A 1 (call kind service err req options)"
  by (simp add: makes_def call_def)

lemma makes_mono: "makes A k m \<Longrightarrow> k \<le> l \<Longrightarrow> makes A l m"
  unfolding makes_def by (meson le_trans)

lemma makes_bind:
  assumes m: "makes A k m" and f: "\<And>a. makes A l (f a)"
  shows "makes A (k + l) (io_bind m f)"
  unfolding makes_def
proof
  fix log
  obtain new where new: "snd (m log) = log @ new" "list_all A new" "length new \<le> k"
    using m unfolding makes_def by blast
  show "\<exists>new. snd (io_bind m f log) = log @ new \<and> list_all A new \<and> length new \<le> k + l"
  proof (cases "fst (m log)")
    case (Inl e)
    with new show ?thesis by (auto simp: io_bind_def split: prod.splits)
  next
    case (Inr a)
    obtain more where "snd (f a (log @ new)) = (log @ new) @ more" "list_all A more" "length more \<le> l"
      using f unfolding makes_def by blast
    with new Inr show ?thesis
      by (intro exI [of _ "new @ more"]) (auto simp: io_bind_def split: prod.splits)
  qed
qed

lemma makes_lift_bind [makes_intros]:
  "(\<And>a. r = Inr a \<Longrightarrow> makes A k (f a)) \<Longrightarrow> makes A k (io_bind (io_lift r) f)"
  by (cases r) (auto intro: makes_mono [OF makes_lift])

text \<open>The options every call of a client carries.\<close>

definition carries :: "client \<Rightarrow> call_options \<Rightarrow> bool" where
  "carries c options \<longleftrightarrow> co_quota_project options = Some (cl_quota_project_id c)
     \<and> co_user_agent options = cl_user_agent c \<and> co_idempotent options = Some True"

fun lookup_call :: "client \<Rightarrow> rpc \<Rightarrow> bool" where
  "lookup_call c (CreateReadSession req options) = carries c options"
| "lookup_call c (GetJob req options) = carries c options"
| "lookup_call c (RunQuery project req options) = False"

lemma carries_options [simp]:
  "carries c ((apply_request_options c no_options)\<lparr>co_idempotent := Some True\<rparr>)"
  "co_idempotent b = Some True \<Longrightarrow> co_user_agent b = None \<Longrightarrow> carries c (apply_request_options c b)"
  by (auto simp: carries_def apply_request_options_def no_options_def Let_def split: option.splits)

lemma makes_fetch_job: "makes (lookup_call c) 1 (fetch_job svc c p j l)"
  unfolding fetch_job_def by (rule makes_call) simp

lemma makes_create_session: "makes (lookup_call c) 1 (create_table_read_session pf gx svc c t options)"
proof -
  have "makes (lookup_call c) (1 + 0) (create_table_read_session pf gx svc c t options)"
    unfolding create_table_read_session_def Let_def
    by (rule makes_bind, rule makes_call)
      (auto simp: no_options_def intro: makes_intros split: option.splits schema_payload.splits)
  then show ?thesis by simp
qed

lemma makes_resolve: "makes (lookup_call c) 1 (resolve svc c d)"
proof -
  have "makes (lookup_call c) (1 + 0) (resolve svc c d)"
    unfolding resolve_def by (rule makes_bind, rule makes_fetch_job) (intro makes_intros)
  then show ?thesis by simp
qed

lemma makes_read_table: "makes (lookup_call c) 1 (read_table pf ipc gx svc c t options)"
proof -
  have "makes (lookup_call c) ((1 + 0) + 0) (read_table pf ipc gx svc c t options)"
    unfolding read_table_def prepare_table_read_session_def Let_def
    by (rule makes_bind, rule makes_bind, rule makes_create_session)
      (auto intro!: makes_intros split: prod.splits)
  then show ?thesis by simp
qed

lemma makes_destination_read: "makes (lookup_call c) 2 (destination_read pf ipc gx svc c d)"
proof -
  have "makes (lookup_call c) (1 + 1) (destination_read pf ipc gx svc c d)"
    unfolding destination_read_def
    by (rule makes_bind, rule makes_resolve, simp only: case_prod_beta, rule makes_read_table)
  then show ?thesis by (simp add: numeral_2_eq_2)
qed

lemma makes_ret [makes_intros]: "makes A k (io_return a)" "makes A k (io_lift r)"
  by (simp_all add: makes_def)

lemma makes_session_schema:
  "makes (lookup_call c) 1 (io_bind (create_table_read_session pf gx svc c t options)
      (\<lambda>(schema, streams). io_bind (io_lift (parse_arrow_schema ipc schema))
        (\<lambda>metadata. io_return (f metadata))))"
proof -
  have "makes (lookup_call c) (1 + 0) (io_bind (create_table_read_session pf gx svc c t options)
      (\<lambda>(schema, streams). io_bind (io_lift (parse_arrow_schema ipc schema))
        (\<lambda>metadata. io_return (f metadata))))"
    by (rule makes_bind, rule makes_create_session, simp only: case_prod_beta) (intro makes_intros)
  then show ?thesis by simp
qed

lemma makes_option:
  "makes A k n \<Longrightarrow> (\<And>x. makes A k (s x)) \<Longrightarrow> makes A k (case z of None \<Rightarrow> n | Some x \<Rightarrow> s x)"
  by (cases z) auto

lemma makes_if: "(b \<Longrightarrow> makes A k m) \<Longrightarrow> (\<not> b \<Longrightarrow> makes A k n) \<Longrightarrow> makes A k (if b then m else n)"
  by auto

lemma makes_job:
  assumes "\<And>job. makes (lookup_call c) 1 (f job)"
  shows "makes (lookup_call c) 2 (io_bind (fetch_job svc c p j l) f)"
  using makes_bind [OF makes_fetch_job assms] by (simp add: numeral_2_eq_2)

lemma makes_resolve_empty: "makes (lookup_call c) 2 (resolve_empty_job_stream w c q response)"
  unfolding resolve_empty_job_stream_def Let_def
  by (rule makes_lift_bind, simp only: case_prod_beta, rule makes_job)
    (intro makes_lift_bind makes_if makes_option makes_ret makes_session_schema)

lemma makes_resolve_error:
  "\<exists>new. snd (resolve_job_error w c response err log) = log @ new
     \<and> list_all (lookup_call c) new \<and> length new \<le> 1"
proof (cases "\<exists>e p j l. err = Grpc e \<and> extract_job_reference response = (Some p, Some j, l)")
  case True
  then obtain e p j l where eq: "err = Grpc e" "extract_job_reference response = (Some p, Some j, l)"
    by blast
  obtain new where "snd (fetch_job (wd_services w) c p j l log) = log @ new"
    "list_all (lookup_call c) new" "length new \<le> 1"
    using makes_fetch_job [of c "wd_services w" p j l] unfolding makes_def by blast
  moreover have "snd (resolve_job_error w c response err log) = snd (fetch_job (wd_services w) c p j l log)"
    by (auto simp: resolve_job_error_def eq split: prod.splits sum.splits unit.splits)
  ultimately show ?thesis by metis
next
  case False
  then have "resolve_job_error w c response err log = (err, log)"
    by (auto simp: resolve_job_error_def split: bq_error.splits prod.splits option.splits)
  then show ?thesis by simp
qed

lemma makes_bind_return: "makes A k m \<Longrightarrow> makes A k (io_bind m (\<lambda>r. io_return (g r)))"
  using makes_bind [of A k m 0 "\<lambda>r. io_return (g r)", OF _ makes_ret(1)] by simp

lemma makes_job_stream: "makes (lookup_call c) 2 (read_job_stream_or_table w c q response name schema)"
  unfolding read_job_stream_or_table_def
proof (rule makes_lift_bind)
  fix check
  let ?call = "read_stream_with_first_page_check w c name
    \<lparr>so_maintain_order = q_maintain_order q, so_offset = 0, so_schema = schema,
     so_arrow_buffer_compression = Some (arrow_buffer_compression q)\<rparr> check"
  consider "?call = None" | err where "?call = Some (Inl err)"
    | schema recv task where "?call = Some (Inr (schema, recv, task))"
    by (metis option.exhaust sum.exhaust prod_cases3)
  then show "makes (lookup_call c) 2 (case ?call of None \<Rightarrow> io_return None
      | Some (Inr (Some schema_ref, receiver, task)) \<Rightarrow> io_return (Some (schema_ref, receiver, JobStream task))
      | Some (Inr (None, _, _)) \<Rightarrow> io_bind (resolve_empty_job_stream w c q response) (\<lambda>r. io_return (Some r))
      | Some (Inl err) \<Rightarrow> (\<lambda>log. case resolve_job_error w c response err log of (e, log') \<Rightarrow> (Inl e, log')))"
  proof cases
    case 2
    have "makes (lookup_call c) 2 (\<lambda>log. case resolve_job_error w c response err log of (e, log') \<Rightarrow> (Inl e, log'))"
      unfolding makes_def
    proof
      fix log
      show "\<exists>new. snd (case resolve_job_error w c response err log of (e, log') \<Rightarrow> (Inl e, log')) = log @ new
          \<and> list_all (lookup_call c) new \<and> length new \<le> 2"
        using makes_resolve_error [of w c response err log] by (auto split: prod.splits)
    qed
    with 2 show ?thesis by simp
  next
    case 3
    then show ?thesis
      by (cases schema) (auto intro: makes_ret makes_bind_return makes_resolve_empty)
  qed (auto intro: makes_ret)
qed

lemma makes_read_completed:
  "makes (lookup_call c) 2 (read_completed w c q response schema page name)"
  unfolding read_completed_def spawn_query_stream_def Let_def
  by (cases page; cases name; cases schema)
    (auto intro!: makes_lift_bind makes_ret makes_if makes_job_stream makes_bind_return makes_resolve_empty)

definition the_query_call :: "world \<Rightarrow> client \<Rightarrow> query \<Rightarrow> rpc" where
  "the_query_call w c q =
     RunQuery (cl_quota_project_id c)
       ((build_read_request (wd_codec w) (wd_uuid w) q)\<lparr>qq_query := q_sql q, qq_use_legacy_sql := Some False\<rparr>)
       ((apply_request_options c no_options)\<lparr>co_idempotent := Some True\<rparr>)"

lemma io_bind_call:
  "io_bind (call kind service err req options) f log =
     (case service log req of
        Inl e \<Rightarrow> (Inl (err e), log @ [kind req options])
      | Inr a \<Rightarrow> f a (log @ [kind req options]))"
  by (cases "service log req") (simp_all add: io_bind_def call_def)

lemma makes_bind_pure: "makes A k m \<Longrightarrow> (\<And>a. makes A 0 (f a)) \<Longrightarrow> makes A k (io_bind m f)"
  using makes_bind [of A k m 0 f] by simp

lemma makes_routed: "makes (lookup_call c) 2 (route_response w c q response)"
  unfolding route_response_def
  by (intro makes_if makes_lift_bind makes_job_stream makes_read_completed makes_bind_pure
      makes_destination_read) (simp add: makes_ret split: prod.splits)

text \<open>C12: A read executes the SQL exactly once: whatever the services answer and whichever route
  is taken, it makes one query call and after it at most two lookups of the job or its table,
  and every call carries the client's quota project and user agent and is marked idempotent.\<close>

theorem query_runs_once:
  "\<exists>new. snd (query_read w c q log) = log @ the_query_call w c q # new
     \<and> list_all (lookup_call c) new \<and> length new \<le> 2"
proof (cases "sv_query (wd_services w) log
    ((build_read_request (wd_codec w) (wd_uuid w) q)\<lparr>qq_query := q_sql q, qq_use_legacy_sql := Some False\<rparr>)")
  case (Inl e)
  then show ?thesis
    by (simp add: query_read_def run_query_def io_bind_call the_query_call_def)
next
  case (Inr response)
  obtain new where "snd (route_response w c q response (log @ [the_query_call w c q])) =
      (log @ [the_query_call w c q]) @ new" "list_all (lookup_call c) new" "length new \<le> 2"
    using makes_routed unfolding makes_def by blast
  with Inr show ?thesis
    by (simp add: query_read_def run_query_def io_bind_call the_query_call_def)
qed

section \<open>Routes\<close>

lemma io_bind_Inr:
  "fst (io_bind m f log) = Inr x \<longleftrightarrow> (\<exists>a log'. m log = (Inr a, log') \<and> fst (f a log') = Inr x)"
  by (auto simp: io_bind_def split: prod.splits sum.splits)

lemma io_lift_bind_Inr: "fst (io_bind (io_lift r) f log) = Inr x \<longleftrightarrow> (\<exists>a. r = Inr a \<and> fst (f a log) = Inr x)"
  by (auto simp: io_bind_Inr)

lemma io_bind_pair:
  "io_bind m f log = (Inr x, log') \<longleftrightarrow> (\<exists>a log1. m log = (Inr a, log1) \<and> f a log1 = (Inr x, log'))"
  by (auto simp: io_bind_def split: prod.splits sum.splits)

lemmas io_Inr = io_lift_bind_Inr io_bind_Inr io_bind_pair

text \<open>The readers of a session start at row 0, know the metadata and never cut over.\<close>

definition session_reader :: "arrow_schema \<Rightarrow> read_stream_options \<Rightarrow> bool" where
  "session_reader schema t \<longleftrightarrow> ro_current_offset t = 0 \<and> rr_offset (ro_read_rows t) = 0
     \<and> ro_first_page_check t = None \<and> (\<exists>m. ro_metadata t = Some m \<and> md_schema m = schema)"

lemma prepared_readers:
  "prepare_table_read_session pf ipc gx svc c table options log = (Inr (schema, readers), log') \<Longrightarrow>
     \<forall>t \<in> set readers. session_reader schema t \<and> ro_maintain_order t = rd_maintain_order options"
  by (auto simp: prepare_table_read_session_def io_bind_pair io_lift_def session_reader_def
      prepare_read_rows_def Let_def split: prod.splits)

text \<open>What may run after a read that keeps the order.\<close>

definition single_ordered_stream :: "started \<Rightarrow> bool" where
  "single_ordered_stream st \<longleftrightarrow>
     (case st of
        NothingStarted \<Rightarrow> True
      | TableReaders readers \<Rightarrow> False
      | QueryReader t \<Rightarrow> qo_maintain_order t
      | JobStream t \<Rightarrow> ro_maintain_order (jt_options t) \<and> jt_fallback t = None
          \<and> ro_first_page_check (jt_options t) = None)"

lemma resolve_empty_starts_nothing:
  "fst (resolve_empty_job_stream w c q response log) = Inr (schema, recv, st) \<Longrightarrow>
     st = NothingStarted \<and> recv = empty_receiver"
  unfolding resolve_empty_job_stream_def Let_def
  by (auto simp: io_Inr split: if_splits option.splits)

lemma check_task_eq:
  assumes "read_stream_with_first_page_check w c name options check = Some (Inr (schema, recv, task))"
  obtains md tx where
    "task = \<lparr>jt_options =
       \<lparr>ro_read_rows = prepare_read_rows c name (so_offset options) (so_arrow_buffer_compression options),
        ro_current_offset = so_offset options, ro_metadata = md, ro_schema_tx = tx,
        ro_first_page_check = map_option fst check, ro_retry_config = client_retry_config c,
        ro_maintain_order = so_maintain_order options\<rparr>, jt_fallback = map_option snd check\<rparr>"
    and "recv = receiver_new True [0]"
    and "case md of
           Some m \<Rightarrow> \<not> tx \<and> schema = Some (md_schema m)
         | None \<Rightarrow> tx \<and> (case read_stream (wd_ipc w) (wd_gax w) (wd_inputs w) (wd_now w) (jt_options task) of
             (es, reason) \<Rightarrow> awaited_schema es reason = Some (Inr schema))"
proof (cases "so_schema options")
  case None
  let ?t = "\<lparr>jt_options =
       \<lparr>ro_read_rows = prepare_read_rows c name (so_offset options) (so_arrow_buffer_compression options),
        ro_current_offset = so_offset options, ro_metadata = None, ro_schema_tx = True,
        ro_first_page_check = map_option fst check, ro_retry_config = client_retry_config c,
        ro_maintain_order = so_maintain_order options\<rparr>, jt_fallback = map_option snd check\<rparr>"
  obtain es reason where run: "read_stream (wd_ipc w) (wd_gax w) (wd_inputs w) (wd_now w) (jt_options ?t)
      = (es, reason)" by fastforce
  obtain z where "awaited_schema es reason = Some z"
    "map_sum id (\<lambda>s. (s, receiver_new True [0], ?t)) z = Inr (schema, recv, task)"
    using assms None run by (auto simp: read_stream_with_first_page_check_def Let_def)
  then have "awaited_schema es reason = Some (Inr schema)" "task = ?t" "recv = receiver_new True [0]"
    by (cases z; simp)+
  with run show ?thesis by (intro that [of None True]) simp_all
next
  case (Some bs)
  with assms show ?thesis
    by (auto simp: read_stream_with_first_page_check_def Let_def map_sum_def
        split: sum.splits intro!: that [of "Some _" False])
qed

lemma check_task:
  assumes "read_stream_with_first_page_check w c name options check = Some (Inr (schema, recv, task))"
  shows "jt_fallback task = map_option snd check"
    "ro_first_page_check (jt_options task) = map_option fst check"
    "ro_maintain_order (jt_options task) = so_maintain_order options"
    "ro_current_offset (jt_options task) = so_offset options"
    "rr_offset (ro_read_rows (jt_options task)) = so_offset options"
    "rr_read_stream (ro_read_rows (jt_options task)) = name"
  by (rule check_task_eq [OF assms], simp add: prepare_read_rows_def Let_def)+

lemma resolve_empty_started:
  "resolve_empty_job_stream w c q response log = (Inr (schema, recv, st), log') \<Longrightarrow> st = NothingStarted"
  using resolve_empty_starts_nothing [of w c q response log] by simp

lemma job_stream_result:
  assumes "fst (read_job_stream_or_table w c q response name schema log) = Inr (Some (s, recv, st))"
  shows "st = NothingStarted \<or> (\<exists>task check. st = JobStream task
    \<and> jt_fallback task = map_option snd check
    \<and> ro_first_page_check (jt_options task) = map_option fst check
    \<and> ro_maintain_order (jt_options task) = q_maintain_order q
    \<and> ro_current_offset (jt_options task) = 0
    \<and> (check = None \<longleftrightarrow> \<not> can_read_destination_table q response))"
proof -
  from assms obtain check where check: "check = None \<longleftrightarrow> \<not> can_read_destination_table q response"
    and body: "fst ((case read_stream_with_first_page_check w c name
        \<lparr>so_maintain_order = q_maintain_order q, so_offset = 0, so_schema = schema,
         so_arrow_buffer_compression = Some (arrow_buffer_compression q)\<rparr> check of
        None \<Rightarrow> io_return None
      | Some (Inr (Some schema_ref, receiver, task)) \<Rightarrow>
          io_return (Some (schema_ref, receiver, JobStream task))
      | Some (Inr (None, _, _)) \<Rightarrow>
          io_bind (resolve_empty_job_stream w c q response) (\<lambda>r. io_return (Some r))
      | Some (Inl err) \<Rightarrow>
          (\<lambda>log. case resolve_job_error w c response err log of (e, log') \<Rightarrow> (Inl e, log'))) log)
      = Inr (Some (s, recv, st))"
    unfolding read_job_stream_or_table_def io_lift_bind_Inr
    by (auto simp: rbind_Inr_iff split: if_splits)
  let ?call = "read_stream_with_first_page_check w c name
    \<lparr>so_maintain_order = q_maintain_order q, so_offset = 0, so_schema = schema,
     so_arrow_buffer_compression = Some (arrow_buffer_compression q)\<rparr> check"
  consider "?call = None" | err where "?call = Some (Inl err)"
    | recv' task where "?call = Some (Inr (None, recv', task))"
    | s' recv' task where "?call = Some (Inr (Some s', recv', task))"
    by (metis option.exhaust sum.exhaust prod_cases3)
  then show ?thesis
  proof cases
    case 3
    with body show ?thesis by (auto simp: io_Inr dest: resolve_empty_started)
  next
    case 4
    with body have "st = JobStream task" by simp
    with check_task [OF 4] check show ?thesis by auto
  qed (use body in \<open>auto split: prod.splits\<close>)
qed

text \<open>The cases of a routed response that returned a reader.\<close>

lemma route_cases:
  assumes "fst (route_response w c q response log) = Inr (Some (schema, recv, st))"
  obtains (stream) log' name bs where
      "fst (read_job_stream_or_table w c q response name bs log') = Inr (Some (schema, recv, st))"
    | (nothing) "st = NothingStarted"
    | (table) d log' log'' readers where "can_read_destination_table q response" "st = TableReaders readers"
      "\<exists>n. qr_total_rows response = Some n \<and> MULTI_STREAM_THRESHOLD_ROWS \<le> n"
      "destination_table_read q response = Inr d"
      "destination_read (wd_platform w) (wd_ipc w) (wd_gax w) (wd_services w) c d log'
         = (Inr (schema, recv, readers), log'')"
    | (page) page name metadata where
      "inline_page response = Inr (Some page)" "0 \<le> sint (qr_page_row_count response)"
      "if has_remaining_rows response (qr_page_row_count response)
         then \<exists>n. name = Some n \<and> default_job_stream_path response = Inr n else name = None"
      "schema = md_schema metadata"
      "st = QueryReader \<lparr>qo_first_page_bytes = page, qo_page_row_count = qr_page_row_count response,
         qo_read_rows = map_option (\<lambda>name. prepare_read_rows c name (qr_page_row_count response)
           (Some (arrow_buffer_compression q))) name,
         qo_metadata = metadata, qo_retry_config = client_retry_config c,
         qo_maintain_order = q_maintain_order q\<rparr>"
proof (cases "qr_job_complete response = Some False")
  case True
  with assms show ?thesis by (auto simp: route_response_def io_lift_bind_Inr intro: stream)
next
  case False
  with assms obtain bs n page where n: "u64_try_from (qr_page_row_count response) = Some n"
    and pg: "inline_page response = Inr page"
    and body: "fst ((if can_read_destination_table q response
             \<and> (case qr_total_rows response of
                  Some total_rows \<Rightarrow> MULTI_STREAM_THRESHOLD_ROWS \<le> total_rows | None \<Rightarrow> False)
          then io_bind (io_lift (destination_table_read q response)) (\<lambda>d.
               io_bind (destination_read (wd_platform w) (wd_ipc w) (wd_gax w) (wd_services w) c d)
                 (\<lambda>(schema_ref, receiver, readers).
                   io_return (Some (schema_ref, receiver, TableReaders readers))))
          else
            io_bind (io_lift (if has_remaining_rows response n
                              then map_sum id Some (default_job_stream_path response) else Inr None))
              (\<lambda>stream_name. read_completed w c q response bs page stream_name)) log)
      = Inr (Some (schema, recv, st))"
    by (auto simp: route_response_def io_lift_bind_Inr)
  have n': "n = qr_page_row_count response" "0 \<le> sint (qr_page_row_count response)"
    using u64_try_from_Some [OF n] n by (auto simp: u64_try_from_def split: if_splits)
  show ?thesis
  proof (cases "can_read_destination_table q response \<and> (case qr_total_rows response of
      Some total_rows \<Rightarrow> MULTI_STREAM_THRESHOLD_ROWS \<le> total_rows | None \<Rightarrow> False)")
    case True
    with body show ?thesis
      by (auto simp: io_Inr split: option.splits intro: table)
  next
    case False
    with body obtain name where rest: "fst (read_completed w c q response bs page name log)
        = Inr (Some (schema, recv, st))"
      and name: "if has_remaining_rows response n
         then \<exists>m. name = Some m \<and> default_job_stream_path response = Inr m else name = None"
      by (auto simp: io_lift_bind_Inr map_sum_def split: if_splits sum.splits)
    show ?thesis
    proof (cases page)
      case None
      show ?thesis
      proof (cases name)
        case (Some m)
        with rest None show ?thesis by (auto simp: read_completed_def intro: stream)
      next
        case nm: None
        with rest None have "st = NothingStarted"
          by (auto simp: read_completed_def io_Inr split: option.splits if_splits
              dest!: resolve_empty_started)
        then show ?thesis by (rule nothing)
      qed
    next
      case (Some p)
      with rest show ?thesis
        using pg [unfolded Some] name n'
        by (auto simp: read_completed_def io_lift_bind_Inr spawn_query_stream_def Let_def intro!: page)
    qed
  qed
qed

lemma query_read_routed:
  assumes "fst (query_read w c q log) = Inr x"
  obtains response log' where "fst (route_response w c q response log') = Inr x"
    "sv_query (wd_services w) log ((build_read_request (wd_codec w) (wd_uuid w) q)
       \<lparr>qq_query := q_sql q, qq_use_legacy_sql := Some False\<rparr>) = Inr response"
  using assms
  by (auto simp: query_read_def run_query_def io_bind_call split: sum.splits)

text \<open>C14: A query that keeps its order (the default) is read from one stream only: it never opens
  a read session on the destination table, neither at once nor by a later cutover, and the one
  reader it starts decodes in order.\<close>

theorem ordered_query_one_stream:
  assumes ordered: "q_maintain_order q"
    and read: "fst (query_read w c q log) = Inr (Some (schema, recv, st))"
  shows "single_ordered_stream st"
proof -
  from query_read_routed [OF read] obtain response log'
    where "fst (route_response w c q response log') = Inr (Some (schema, recv, st))" by metis
  then show ?thesis
  proof (cases rule: route_cases)
    case (stream log'' name bs)
    from job_stream_result [OF this] ordered show ?thesis
      by (auto simp: single_ordered_stream_def can_read_destination_table_def)
  qed (use ordered in \<open>auto simp: single_ordered_stream_def can_read_destination_table_def\<close>)
qed

text \<open>C19: The table behind a query is only read in parallel when the order does not matter, the
  statement is no script, and the response announced at least 32,768,000 rows; then every
  reader starts at row 0 with the session's schema, so together they read the table and not a
  part of the inline page.\<close>

theorem table_readers_only_when_large:
  assumes read: "fst (query_read w c q log) = Inr (Some (schema, recv, TableReaders readers))"
  shows "\<not> q_maintain_order q
    \<and> (\<exists>response n. qr_statement_type response \<noteq> ''SCRIPT'' \<and> qr_total_rows response = Some n
         \<and> 32768000 \<le> unat n
         \<and> sv_query (wd_services w) log ((build_read_request (wd_codec w) (wd_uuid w) q)
             \<lparr>qq_query := q_sql q, qq_use_legacy_sql := Some False\<rparr>) = Inr response)
    \<and> (\<forall>t \<in> set readers. session_reader schema t)"
proof -
  from query_read_routed [OF read] obtain response log'
    where route: "fst (route_response w c q response log') = Inr (Some (schema, recv, TableReaders readers))"
    and resp: "sv_query (wd_services w) log ((build_read_request (wd_codec w) (wd_uuid w) q)
             \<lparr>qq_query := q_sql q, qq_use_legacy_sql := Some False\<rparr>) = Inr response" by metis
  from route show ?thesis
  proof (cases rule: route_cases)
    case (stream log2 name bs)
    from job_stream_result [OF this] show ?thesis by auto
  next
    case (table d log2 log3 readers')
    then obtain n where n: "qr_total_rows response = Some n" "MULTI_STREAM_THRESHOLD_ROWS \<le> n" by auto
    then have "32768000 \<le> unat n"
      by (simp add: MULTI_STREAM_THRESHOLD_ROWS_def MULTI_STREAM_THRESHOLD_BYTES_def
          MEDIAN_ROW_SIZE_BYTES_def word_le_nat_alt)
    moreover have "\<forall>t \<in> set readers. session_reader schema t"
      using table(2,5) prepared_readers
      by (fastforce simp: destination_read_def read_table_def io_bind_pair split: prod.splits)
    ultimately show ?thesis
      using n resp table(1) by (auto simp: can_read_destination_table_def)
  qed simp_all
qed

lemma has_remaining_rows_iff:
  assumes "0 \<le> sint n"
  shows "has_remaining_rows response n \<longleftrightarrow>
    (\<exists>all_rows. qr_total_rows response = Some all_rows \<and> sint n < uint all_rows) \<or> qr_page_token response \<noteq> []"
  using uint_eq_sint_nonneg [OF assms]
  by (auto simp: has_remaining_rows_def word_less_def split: option.split)

text \<open>C20: When a read starts from the page inside the response, it takes exactly that page with
  its row count, and a stream for the rest is opened exactly when rows remain, that is, when the
  response counts more rows than the page has or names a further page: on the default stream of the
  response's job, at the offset equal to the page's row count.\<close>

theorem inline_page_then_rest:
  assumes read: "fst (query_read w c q log) = Inr (Some (schema, recv, QueryReader t))"
  shows "\<exists>response. sv_query (wd_services w) log ((build_read_request (wd_codec w) (wd_uuid w) q)
             \<lparr>qq_query := q_sql q, qq_use_legacy_sql := Some False\<rparr>) = Inr response
    \<and> qr_results response = Some (ArrowRecordBatch (qo_first_page_bytes t))
    \<and> qo_page_row_count t = qr_page_row_count response \<and> 0 \<le> sint (qo_page_row_count t)
    \<and> md_schema (qo_metadata t) = schema
    \<and> (if (\<exists>all_rows. qr_total_rows response = Some all_rows
              \<and> sint (qr_page_row_count response) < uint all_rows) \<or> qr_page_token response \<noteq> []
       then \<exists>rr. qo_read_rows t = Some rr \<and> rr_offset rr = qo_page_row_count t
              \<and> default_job_stream_path response = Inr (rr_read_stream rr)
       else qo_read_rows t = None)"
proof -
  from query_read_routed [OF read] obtain response log'
    where route: "fst (route_response w c q response log') = Inr (Some (schema, recv, QueryReader t))"
    and resp: "sv_query (wd_services w) log ((build_read_request (wd_codec w) (wd_uuid w) q)
             \<lparr>qq_query := q_sql q, qq_use_legacy_sql := Some False\<rparr>) = Inr response" by metis
  from route show ?thesis
  proof (cases rule: route_cases)
    case (stream log'' name bs)
    from job_stream_result [OF this] show ?thesis by auto
  next
    case (page p name metadata)
    from page(1) have "qr_results response = Some (ArrowRecordBatch p)"
      by (auto simp: inline_page_def validate_non_empty_arrow_bytes_def rbind_Inr_iff
          split: option.splits rows_payload.splits if_splits)
    with page resp show ?thesis
      by (intro exI [of _ response])
        (auto simp: prepare_read_rows_def Let_def has_remaining_rows_iff split: if_splits)
  qed simp_all
qed

end
