(* ===== verification/Query_Errors.thy ===== *)
theory Query_Errors
  imports Query_Read Read_Stream_Scenario
begin

text \<open>
  The error paths and the small translations of queries: job references, failed jobs, failed
  requests, the size check that leads to a cutover, the wait, and the dry run.
\<close>

section \<open>References\<close>

lemma non_empty_str_iff [simp]:
  "non_empty_str s = Some t \<longleftrightarrow> s = t \<and> t \<noteq> []"
  "non_empty_str s = None \<longleftrightarrow> s = []"
  by (auto simp: non_empty_str_def then_some_def)

text \<open>The path of the default stream exists exactly when the response names project, job and
  location (of the job or of the response itself) and none of them is empty; then it is made of
  these three, and otherwise the error names a part that is missing.\<close>

lemma default_path_spec:
  "default_job_stream_path response =
     (case extract_job_reference response of
        (Some p, Some j, Some l) \<Rightarrow>
          Inr (''projects/'' @ p @ ''/locations/'' @ l @ ''/jobs/'' @ j @ ''/streams/_default'')
      | (None, _, _) \<Rightarrow> Inl (Protocol
          ''QueryResponse requires a job reference, but job_reference.project_id is missing'')
      | (Some p, _, None) \<Rightarrow> Inl (Protocol
          ''QueryResponse requires a job reference, but job location is missing'')
      | (Some p, None, Some l) \<Rightarrow> Inl (Protocol
          ''QueryResponse requires a job reference, but job_reference.job_id is missing''))
   \<and> (\<forall>p j l. extract_job_reference response = (Some p, Some j, Some l) \<longleftrightarrow>
        p \<noteq> [] \<and> j \<noteq> [] \<and> l \<noteq> []
        \<and> (\<exists>r. qr_job_reference response = Some r \<and> jr_project_id r = p \<and> jr_job_id r = j
             \<and> (jr_location r = Some l
                \<or> (jr_location r = None \<or> jr_location r = Some []) \<and> qr_location response = l)))"
proof -
  have "extract_job_reference response = (Some p, Some j, Some l) \<longleftrightarrow>
        p \<noteq> [] \<and> j \<noteq> [] \<and> l \<noteq> []
        \<and> (\<exists>r. qr_job_reference response = Some r \<and> jr_project_id r = p \<and> jr_job_id r = j
             \<and> (jr_location r = Some l
                \<or> (jr_location r = None \<or> jr_location r = Some []) \<and> qr_location response = l))" for p j l
  proof (cases "qr_job_reference response")
    case (Some r)
    have "opt_or (Option.bind (jr_location r) non_empty_str) (non_empty_str (qr_location response)) = Some l
        \<longleftrightarrow> l \<noteq> [] \<and> (jr_location r = Some l
             \<or> (jr_location r = None \<or> jr_location r = Some []) \<and> qr_location response = l)"
      by (cases "jr_location r") (auto simp: non_empty_str_def then_some_def)
    with Some show ?thesis by (auto simp: extract_job_reference_def Let_def)
  qed (simp add: extract_job_reference_def Let_def)
  moreover obtain p j l where "extract_job_reference response = (p, j, l)" by (cases "extract_job_reference response")
  then have "default_job_stream_path response =
     (case extract_job_reference response of
        (Some p, Some j, Some l) \<Rightarrow>
          Inr (''projects/'' @ p @ ''/locations/'' @ l @ ''/jobs/'' @ j @ ''/streams/_default'')
      | (None, _, _) \<Rightarrow> Inl (Protocol
          ''QueryResponse requires a job reference, but job_reference.project_id is missing'')
      | (Some p, _, None) \<Rightarrow> Inl (Protocol
          ''QueryResponse requires a job reference, but job location is missing'')
      | (Some p, None, Some l) \<Rightarrow> Inl (Protocol
          ''QueryResponse requires a job reference, but job_reference.job_id is missing''))"
    by (cases p; cases l; cases j)
      (simp_all add: default_job_stream_path_def extract_required_job_reference_def)
  ultimately show ?thesis by blast
qed

section \<open>Failed jobs\<close>

text \<open>The error a failed job is reported as.\<close>

definition job_failure :: "string \<Rightarrow> string \<Rightarrow> string option \<Rightarrow> error_proto \<Rightarrow> error_proto list \<Rightarrow> bq_error" where
  "job_failure project job_id location e es =
     JobFailed \<lparr>jf_project_id = Some project, jf_location = location, jf_job_id = Some job_id,
       jf_error = job_error_from e, jf_errors = map job_error_from es\<rparr>"

text \<open>What looking up the job of a read makes of an error: the failure the job reports, else the error
  itself.\<close>

lemma resolve_job_error_result:
  "resolve_job_error w c response err log =
     (case (err, extract_job_reference response) of
        (Grpc e, (Some p, Some j, l)) \<Rightarrow>
          (case sv_get_job (wd_services w) log \<lparr>gj_project_id = p, gj_job_id = j, gj_location = l\<rparr> of
             Inr job \<Rightarrow>
               (case Option.bind (jb_status job) js_error_result of
                  Some first \<Rightarrow> job_failure p j l first (js_errors (the (jb_status job)))
                | None \<Rightarrow> err)
           | Inl _ \<Rightarrow> err,
           log @ [GetJob \<lparr>gj_project_id = p, gj_job_id = j, gj_location = l\<rparr>
                    ((apply_request_options c no_options)\<lparr>co_idempotent := Some True\<rparr>)])
      | _ \<Rightarrow> (err, log))"
proof (cases err)
  case (Grpc e)
  obtain p j l where ref: "extract_job_reference response = (p, j, l)"
    by (cases "extract_job_reference response")
  show ?thesis
  proof (cases "p = None \<or> j = None")
    case True
    with Grpc ref show ?thesis by (cases p; cases j) (auto simp: resolve_job_error_def)
  next
    case False
    then obtain p' j' where eq: "p = Some p'" "j = Some j'" by auto
    have run: "resolve_job_error w c response err log =
      (case fetch_job (wd_services w) c p' j' l log of
         (Inr job, log') \<Rightarrow>
           (case check_job_status_error (jb_status job) p' l j' of
              Inl job_err \<Rightarrow> (job_err, log')
            | Inr _ \<Rightarrow> (err, log'))
       | (Inl _, log') \<Rightarrow> (err, log'))"
      unfolding resolve_job_error_def Grpc ref eq by simp
    show ?thesis
    proof (cases "sv_get_job (wd_services w) log \<lparr>gj_project_id = p', gj_job_id = j', gj_location = l\<rparr>")
      case (Inl e')
      then show ?thesis unfolding run by (simp add: fetch_job_def call_def Grpc ref eq)
    next
      case (Inr job)
      then show ?thesis unfolding run
        by (cases "jb_status job"; cases "js_error_result (the (jb_status job))")
          (simp_all add: fetch_job_def call_def Grpc ref eq check_job_status_error_def job_failure_def)
    qed
  qed
qed (simp_all add: resolve_job_error_def)

text \<open>C24: An error before the schema is never swallowed. When opening the stream of a query's job fails,
  the read fails: if the error came from gRPC and the response names a project and a job, that job is
  looked up, once, and the caller gets the failure the job reports, with its identity and all its
  errors, and the original error when the job reports none or the lookup fails; any other error
  reaches the caller as it is, without a further request.\<close>

theorem job_error_resolution:
  assumes check: "if can_read_destination_table q response
      then \<exists>d. destination_table_read q response = Inr d
        \<and> check = Some (\<lparr>fp_threshold_bytes = MULTI_STREAM_THRESHOLD_BYTES,
                        fp_fallback_total_rows = qr_total_rows response\<rparr>, d)
      else check = None"
    and failed: "read_stream_with_first_page_check w c name
      \<lparr>so_maintain_order = q_maintain_order q, so_offset = 0, so_schema = serialized_schema,
       so_arrow_buffer_compression = Some (arrow_buffer_compression q)\<rparr> check = Some (Inl err)"
  shows "read_job_stream_or_table w c q response name serialized_schema log =
     (case (err, extract_job_reference response) of
        (Grpc e, (Some p, Some j, l)) \<Rightarrow>
          (Inl (case sv_get_job (wd_services w) log \<lparr>gj_project_id = p, gj_job_id = j, gj_location = l\<rparr> of
             Inr job \<Rightarrow>
               (case Option.bind (jb_status job) js_error_result of
                  Some first \<Rightarrow> job_failure p j l first (js_errors (the (jb_status job)))
                | None \<Rightarrow> err)
           | Inl _ \<Rightarrow> err),
           log @ [GetJob \<lparr>gj_project_id = p, gj_job_id = j, gj_location = l\<rparr>
                    ((apply_request_options c no_options)\<lparr>co_idempotent := Some True\<rparr>)])
      | _ \<Rightarrow> (Inl err, log))"
proof -
  have "(if can_read_destination_table q response
        then rbind (destination_table_read q response) (\<lambda>d.
               Inr (Some (\<lparr>fp_threshold_bytes = MULTI_STREAM_THRESHOLD_BYTES,
                           fp_fallback_total_rows = qr_total_rows response\<rparr>, d)))
        else Inr None) = (Inr check :: (bq_error, _) res)"
    using check by (auto split: if_splits)
  then have "read_job_stream_or_table w c q response name serialized_schema log =
      (case resolve_job_error w c response err log of (e, log') \<Rightarrow> (Inl e, log'))"
    by (simp add: read_job_stream_or_table_def failed)
  then show ?thesis
    by (simp add: resolve_job_error_result split: bq_error.split prod.split option.split)
qed

section \<open>Failed requests\<close>

definition error_infos :: "rpc_status \<Rightarrow> nat" where
  "error_infos status = length (filter (\<lambda>d. case d of ErrorInfo _ _ \<Rightarrow> True | _ \<Rightarrow> False) (st_details status))"

lemma status_job_errors_length:
  "length (status_job_errors s d ds) = length (filter (\<lambda>d. case d of ErrorInfo _ _ \<Rightarrow> True | _ \<Rightarrow> False) ds)"
  by (induction s d ds rule: status_job_errors.induct) auto

lemma status_job_errors_debug:
  "e \<in> set (status_job_errors s (Some d) ds) \<Longrightarrow> je_debug_info e \<noteq> None"
  by (induction s "Some d" ds rule: status_job_errors.induct)
    (auto simp: status_job_error_def opt_or_def split: option.splits)

text \<open>C25: A failed request with a status becomes a job failure that lists one job error per error
  info of the status, and at least one; its primary error agrees with the first listed one in
  reason and location and speaks with the message of the status when there is one; and debug
  information found anywhere in the status reaches every listed error.\<close>

theorem status_becomes_job_failure:
  "case map_query_error err of
     JobFailed f \<Rightarrow> (\<exists>status. ge_status err = Some status
       \<and> length (jf_errors f) = max 1 (error_infos status)
       \<and> je_reason (jf_error f) = je_reason (hd (jf_errors f))
       \<and> je_location (jf_error f) = je_location (hd (jf_errors f))
       \<and> (st_message status \<noteq> [] \<longrightarrow> je_message (jf_error f) = st_message status)
       \<and> (first_debug_info (st_details status) \<noteq> None \<longrightarrow>
            je_debug_info (jf_error f) = first_debug_info (st_details status)
            \<and> (\<forall>e \<in> set (jf_errors f). je_debug_info e \<noteq> None)))
   | e \<Rightarrow> ge_status err = None \<and> e = Grpc err"
proof (cases "ge_status err")
  case None
  then show ?thesis by (simp add: map_query_error_def)
next
  case (Some status)
  let ?debug = "first_debug_info (st_details status)"
  let ?errors = "status_job_errors status ?debug (st_details status)"
  have len: "length ?errors = error_infos status"
    by (simp add: status_job_errors_length error_infos_def)
  show ?thesis
  proof (cases ?errors)
    case Nil
    with len Some show ?thesis
      by (simp add: map_query_error_def job_failed_from_gax_status_def Let_def)
  next
    case (Cons first rest)
    have "\<forall>e \<in> set ?errors. je_debug_info e \<noteq> None" if "?debug = Some d" for d
      unfolding that using status_job_errors_debug by blast
    with len Some Cons show ?thesis
      by (auto simp: map_query_error_def job_failed_from_gax_status_def Let_def)
  qed
qed

text \<open>A status without messages of its own whose details name two errors and carry debug
  information.\<close>

definition example_status :: rpc_status where
  "example_status = \<lparr>st_code = InvalidArgument, st_message = ''bad query'',
     st_details = [ErrorInfo ''invalidQuery'' [(''location'', ''q'')], DebugInfo ''stack'']\<rparr>"

definition example_status_error :: gax_error where
  "example_status_error = \<lparr>ge_transient_before_rpc = False, ge_io = False, ge_timeout = False,
     ge_connect = False, ge_transport = False, ge_http_status = None,
     ge_status = Some example_status, ge_std = StdError ''bad query'' None None\<rparr>"

lemma status_becomes_job_failure_witness:
  "\<exists>f. map_query_error example_status_error = JobFailed f \<and> je_message (jf_error f) = ''bad query''
     \<and> je_debug_info (jf_error f) = Some ''stack''"
  using status_becomes_job_failure [of example_status_error]
  by (auto simp: map_query_error_def example_status_error_def example_status_def split: bq_error.splits)

section \<open>The wait\<close>

text \<open>C31: The requested wait is the number of milliseconds modulo \<open>2 ^ 32\<close>: it is exact for waits
  from 0 to 4,294,967,295 ms, and no other wait is represented.\<close>

theorem initial_wait_wraps:
  "uint (q_initial_wait_ms (with_initial_wait q ms)) = sint ms mod 2 ^ 32
   \<and> (uint (q_initial_wait_ms (with_initial_wait q ms)) = sint ms \<longleftrightarrow> 0 \<le> sint ms \<and> sint ms < 2 ^ 32)"
proof -
  have "uint (ucast ms :: u32) = take_bit 32 (uint ms)"
    by (simp add: unsigned_ucast_eq)
  also have "\<dots> = take_bit 32 (sint ms)"
    by (simp add: uint_sint)
  finally have eq: "uint (q_initial_wait_ms (with_initial_wait q ms)) = sint ms mod 2 ^ 32"
    by (simp add: with_initial_wait_def take_bit_eq_mod)
  have "sint ms mod 2 ^ 32 = sint ms \<longleftrightarrow> 0 \<le> sint ms \<and> sint ms < 2 ^ 32"
    by (metis mod_pos_pos_trivial pos_mod_bound pos_mod_sign zero_less_numeral zero_less_power)
  with eq show ?thesis by simp
qed

section \<open>The size check\<close>

text \<open>The total the check works with: the positive estimate of the page, else the positive count of
  the query response.\<close>

definition known_total :: "first_page_check \<Rightarrow> i64 option \<Rightarrow> u64 option" where
  "known_total c estimate =
     opt_or (opt_filter (\<lambda>n. 0 < n) (Option.bind estimate u64_try_from))
            (opt_filter (\<lambda>n. 0 < n) (fp_fallback_total_rows c))"

lemma check_first_page_known:
  assumes "0 \<le> sint n"
  shows "check_first_page (Some c) bs n estimate =
     (if f64_ge (estimate_remaining_bytes bs n (known_total c estimate)) (fp_threshold_bytes c)
      then PageSwitch else PageKeep)"
  using assms by (simp add: check_first_page_def known_total_def u64_try_from_def)

lemma threshold_reals: "MULTI_STREAM_THRESHOLD_BYTES = (262144000, 1)"
  by (simp add: MULTI_STREAM_THRESHOLD_BYTES_def)

text \<open>C23: The floating point size check decides exactly: with a known total of \<open>m\<close> rows, more than the
  \<open>n\<close> rows of the page, the reader switches when the page's bytes per row times the \<open>m - n\<close> rows that
  remain are at least 250 MiB, and keeps the page when they are not (all quantities and the product of
  bytes and remaining rows below \<open>2 ^ 53\<close>; no rounding changes the decision). Without a total, on an
  empty page, or with no rows beyond the page, it keeps the page.\<close>

theorem size_check_decides:
  assumes threshold: "fp_threshold_bytes c = MULTI_STREAM_THRESHOLD_BYTES" and n: "0 \<le> sint n"
  shows "case known_total c estimate of
      None \<Rightarrow> check_first_page (Some c) bs n estimate = PageKeep
    | Some m \<Rightarrow>
        (unat n = 0 \<or> unat m \<le> unat n \<longrightarrow> check_first_page (Some c) bs n estimate = PageKeep)
        \<and> (0 < unat n \<and> unat n < unat m \<and> unat m < 2 ^ 53 \<and> length bs < 2 ^ 53
             \<and> length bs * (unat m - unat n) < 2 ^ 53
           \<longrightarrow> check_first_page (Some c) bs n estimate =
                 (if 250 * 1024 * 1024 * unat n \<le> length bs * (unat m - unat n) then PageSwitch else PageKeep))"
proof -
  have zero: "\<not> f64_ge (0, 1) MULTI_STREAM_THRESHOLD_BYTES"
    by (simp add: f64_ge_def threshold_reals)
  show ?thesis
  proof (cases "known_total c estimate")
    case None
    with zero show ?thesis
      by (simp add: check_first_page_known [OF n] threshold estimate_remaining_bytes_def del: One_nat_def)
  next
    case (Some m)
    have "estimate_remaining_bytes bs n (Some m) = (0, 1)" if "unat n = 0 \<or> unat m \<le> unat n"
      using that by (auto simp: estimate_remaining_bytes_def word_le_nat_alt unsigned_eq_0_iff)
    with zero Some estimate_exact [of n m 262144000 bs] show ?thesis
      by (auto simp: check_first_page_known [OF n] threshold threshold_reals simp del: One_nat_def)
  qed
qed

section \<open>The dry run\<close>

text \<open>\<open>RecordBatch::try_new\<close> as documented: it accepts columns that fit the schema and the length.\<close>

definition accepts_fitting :: "batch_maker \<Rightarrow> bool" where
  "accepts_fitting try_new \<longleftrightarrow> (\<forall>n schema cols. fits (unat n) schema cols \<longrightarrow>
     try_new n schema cols = Inr \<lparr>rb_len = n, rb_schema = schema, rb_arrays = cols\<rparr>)"

text \<open>The column a batch holds under a name.\<close>

definition column_named :: "record_batch \<Rightarrow> string \<Rightarrow> column option" where
  "column_named b name = map_of (zip (map f_name (rb_schema b)) (rb_arrays b)) name"

lemma dry_run_columns:
  assumes "rb_schema b = dry_run_schema" "rb_arrays b = [c0, c1, c2, c3, c4, c5, c6, c7]"
  shows "column_named b ''bigquerySchema'' = Some c0" "column_named b ''projectId'' = Some c1"
    "column_named b ''jobId'' = Some c2" "column_named b ''location'' = Some c3"
    "column_named b ''totalBytesProcessed'' = Some c4" "column_named b ''cacheHit'' = Some c5"
    "column_named b ''statementType'' = Some c6" "column_named b ''creationTime'' = Some c7"
  using assms by (simp_all add: column_named_def dry_run_schema_def)

text \<open>The one request of a dry run: the text of the query in standard SQL, nothing else set.\<close>

definition dry_run_request :: "query \<Rightarrow> query_request" where
  "dry_run_request q =
     \<lparr>qq_query = q_sql q, qq_use_legacy_sql = Some False, qq_request_id = [], qq_dry_run = True,
      qq_job_creation_optional = False, qq_arrow_results = False, qq_arrow_compression = None,
      qq_use_query_cache = None, qq_timeout_ms = None\<rparr>"

text \<open>C30: A dry run makes one request, a dry run of the query's text, and gives its error or one batch of
  exactly one row of the announced schema, whose named columns hold what the response says: the
  serialized schema, project, job and location of the job reference (the response's own location when
  the reference has none), the bytes processed (0 when not given), the cache hit, the statement type
  and a positive creation time; an empty text or a time that is not positive is null. A schema that does
  not serialize is the only other error.\<close>

theorem dry_run_batch:
  assumes accepts: "accepts_fitting try_new"
  shows "snd (dry_run try_new svc c q log) = log @ [RunQuery (cl_quota_project_id c) (dry_run_request q)
        ((apply_request_options c no_options)\<lparr>co_idempotent := Some True\<rparr>)]
    \<and> (case sv_query svc log (dry_run_request q) of
         Inl err \<Rightarrow> fst (dry_run try_new svc c q log) = Inl (map_query_error err)
       | Inr r \<Rightarrow>
           (case qr_schema r of
              Some (Inl err) \<Rightarrow> fst (dry_run try_new svc c q log) = Inl (Other err)
            | schema \<Rightarrow>
                (\<exists>b. fst (dry_run try_new svc c q log) = Inr b \<and> rb_len b = 1 \<and> rb_schema b = dry_run_schema
                   \<and> fits 1 dry_run_schema (rb_arrays b)
                   \<and> column_named b ''bigquerySchema'' = Some (Utf8Array [map_option projr schema])
                   \<and> column_named b ''projectId'' = Some (Utf8Array
                       [Option.bind (map_option jr_project_id (qr_job_reference r)) non_empty_str])
                   \<and> column_named b ''jobId'' = Some (Utf8Array
                       [Option.bind (map_option jr_job_id (qr_job_reference r)) non_empty_str])
                   \<and> column_named b ''location'' = Some (Utf8Array
                       [case Option.bind (Option.bind (qr_job_reference r) jr_location) non_empty_str of
                          Some l \<Rightarrow> Some l | None \<Rightarrow> non_empty_str (qr_location r)])
                   \<and> column_named b ''totalBytesProcessed'' = Some (Int64Array
                       [Some (case qr_total_bytes_processed r of Some n \<Rightarrow> n | None \<Rightarrow> 0)])
                   \<and> column_named b ''cacheHit'' = Some (BooleanArray [qr_cache_hit r])
                   \<and> column_named b ''statementType'' = Some (Utf8Array [non_empty_str (qr_statement_type r)])
                   \<and> column_named b ''creationTime'' = Some (TimestampArray
                       [case qr_creation_time r of Some t \<Rightarrow> if 0 < sint t then Some t else None | None \<Rightarrow> None]
                       Millisecond (Some ''UTC'')))))"
proof -
  have run: "dry_run try_new svc c q log =
      (rbind (rmap_err map_query_error (sv_query svc log (dry_run_request q))) (query_response_to_record_batch try_new),
       log @ [RunQuery (cl_quota_project_id c) (dry_run_request q)
         ((apply_request_options c no_options)\<lparr>co_idempotent := Some True\<rparr>)])"
    by (cases "sv_query svc log (dry_run_request q)")
      (simp_all add: dry_run_def run_query_def io_bind_def call_def dry_run_request_def new_query_request_def io_lift_def)
  show ?thesis
  proof (cases "sv_query svc log (dry_run_request q)")
    case (Inl err)
    with run show ?thesis by simp
  next
    case (Inr r)
    show ?thesis
    proof (cases "\<exists>e. qr_schema r = Some (Inl e)")
      case True
      with run Inr show ?thesis by (auto simp: query_response_to_record_batch_def)
    next
      case False
      obtain s where s: "map_option projr (qr_schema r) = s" by simp
      let ?cols = "[Utf8Array [s], Utf8Array [Option.bind (map_option jr_project_id (qr_job_reference r)) non_empty_str],
        Utf8Array [Option.bind (map_option jr_job_id (qr_job_reference r)) non_empty_str],
        Utf8Array [case Option.bind (Option.bind (qr_job_reference r) jr_location) non_empty_str of
          Some l \<Rightarrow> Some l | None \<Rightarrow> non_empty_str (qr_location r)],
        Int64Array [Some (case qr_total_bytes_processed r of Some n \<Rightarrow> n | None \<Rightarrow> 0)],
        BooleanArray [qr_cache_hit r], Utf8Array [non_empty_str (qr_statement_type r)],
        TimestampArray [case qr_creation_time r of Some t \<Rightarrow> if 0 < sint t then Some t else None | None \<Rightarrow> None]
          Millisecond (Some ''UTC'')]"
      let ?b = "\<lparr>rb_len = 1, rb_schema = dry_run_schema, rb_arrays = ?cols\<rparr>"
      have fits: "fits 1 dry_run_schema ?cols"
        by (simp add: fits_def dry_run_schema_def creation_time_dtype_def)
      with accepts have made: "try_new 1 dry_run_schema ?cols = Inr ?b"
        by (auto simp: accepts_fitting_def)
      have "query_response_to_record_batch try_new r = rmap_err Arrow (try_new 1 dry_run_schema ?cols)"
        using False s
        by (auto simp: query_response_to_record_batch_def extract_job_reference_def Let_def unwrap_or_def opt_filter_def
            opt_or_def bind_map_option comp_def split: option.splits sum.splits)
      with run Inr made have result: "fst (dry_run try_new svc c q log) = Inr ?b" by simp
      note columns = dry_run_columns [of ?b, OF record_batch.select_convs(2) record_batch.select_convs(3)]
      show ?thesis
      proof (cases "qr_schema r")
        case None
        with s run Inr result fits columns show ?thesis by simp
      next
        case (Some x)
        with False obtain serialized where "x = Inr serialized" by (cases x) auto
        with Some s run Inr result fits columns show ?thesis by simp
      qed
    qed
  qed
qed

definition strict_try_new :: batch_maker where
  "strict_try_new n schema cols =
     (if fits (unat n) schema cols then Inr \<lparr>rb_len = n, rb_schema = schema, rb_arrays = cols\<rparr>
      else Inl (StdError ''column mismatch'' None None))"

definition small_response :: query_response where
  "small_response =
     \<lparr>qr_job_complete = Some True, qr_results_schema = Some (ArrowSchema [1]),
      qr_results = Some (ArrowRecordBatch [0]), qr_page_row_count = 1, qr_total_rows = Some 3,
      qr_page_token = [], qr_statement_type = ''SELECT'',
      qr_job_reference = Some \<lparr>jr_project_id = ''p'', jr_job_id = ''j'', jr_location = Some ''us''\<rparr>,
      qr_location = [], qr_schema = Some (Inr ''{}''), qr_total_bytes_processed = Some 8,
      qr_cache_hit = Some False, qr_creation_time = Some 5\<rparr>"

definition dry_run_services :: services where
  "dry_run_services = \<lparr>sv_create_read_session = (\<lambda>log req. Inl lost_connection), sv_get_job = (\<lambda>log req. Inl lost_connection),
     sv_query = (\<lambda>log req. if qq_dry_run req then Inr small_response else Inl lost_connection)\<rparr>"

theorem dry_run_batch_witness:
  "\<forall>c q. \<exists>b. fst (dry_run strict_try_new dry_run_services c q []) = Inr b \<and> rb_len b = 1
     \<and> column_named b ''jobId'' = Some (Utf8Array [Some ''j''])
     \<and> column_named b ''location'' = Some (Utf8Array [Some ''us''])"
proof (intro allI)
  fix c q
  have "accepts_fitting strict_try_new" by (simp add: accepts_fitting_def strict_try_new_def)
  moreover have "sv_query dry_run_services [] (dry_run_request q) = Inr small_response"
    by (simp add: dry_run_services_def dry_run_request_def)
  ultimately show "\<exists>b. fst (dry_run strict_try_new dry_run_services c q []) = Inr b \<and> rb_len b = 1
     \<and> column_named b ''jobId'' = Some (Utf8Array [Some ''j''])
     \<and> column_named b ''location'' = Some (Utf8Array [Some ''us''])"
    using dry_run_batch [of strict_try_new dry_run_services c q "[]"]
    by (auto simp: small_response_def non_empty_str_def then_some_def)
qed

text \<open>A page of 1,000 bytes and one row in a table of a million rows, and in one of 262,144 rows,
  1,000 bytes short of the threshold.\<close>

theorem size_check_decides_witness:
  "check_first_page (Some \<lparr>fp_threshold_bytes = MULTI_STREAM_THRESHOLD_BYTES, fp_fallback_total_rows = Some 1000000\<rparr>)
     (replicate 1000 0) 1 None = PageSwitch
   \<and> check_first_page (Some \<lparr>fp_threshold_bytes = MULTI_STREAM_THRESHOLD_BYTES, fp_fallback_total_rows = Some 262144\<rparr>)
     (replicate 1000 0) 1 None = PageKeep"
  using size_check_decides
    [of "\<lparr>fp_threshold_bytes = MULTI_STREAM_THRESHOLD_BYTES, fp_fallback_total_rows = Some 1000000\<rparr>" 1
      "replicate 1000 0" None]
    size_check_decides
    [of "\<lparr>fp_threshold_bytes = MULTI_STREAM_THRESHOLD_BYTES, fp_fallback_total_rows = Some 262144\<rparr>" 1
      "replicate 1000 0" None]
  by (simp add: known_total_def)

end
