(* ===== verification/Query_Stream_Proofs.thy ===== *)
theory Query_Stream_Proofs
  imports Query_Proofs Query_Errors Read_Stream_Delivery
begin

text \<open>
  Queries with the readers they start: the cutover to a read session, the schema a caller is
  given, and the delivery of a result that begins inside the response.
\<close>

section \<open>The schema of a single stream\<close>

lemma awaited_schema_sent:
  "awaited_schema es reason = Some (Inr s) \<Longrightarrow> SendSchema (Inr s) \<in> set es"
  by (induction es reason rule: awaited_schema.induct) auto

lemma announced_mem:
  "announced seen es \<Longrightarrow> PushJob j \<in> set es \<Longrightarrow> md_schema (dj_metadata j) \<in> seen \<union> announcements es"
  by (induction seen es rule: announced.induct) (auto simp: announcements_def)

lemma one_announcement:
  assumes "length (schema_messages es) \<le> 1" "SendSchema (Inr (Some s)) \<in> set es"
    "s' \<in> announcements es"
  shows "s' = s"
proof -
  have "SendSchema (Inr (Some s)) \<in> set (schema_messages es)"
    "SendSchema (Inr (Some s')) \<in> set (schema_messages es)"
    using assms(2,3) by (auto simp: schema_messages_def announcements_def)
  with assms(1) show ?thesis
    by (cases "schema_messages es") auto
qed

text \<open>The schema that opening a single stream returns is the schema of every payload its task
  ever queues, whether it was given beforehand or read from the stream.\<close>

lemma schema_of_every_payload:
  assumes opened: "read_stream_with_first_page_check w c name options check = Some (Inr (Some s, recv, task))"
    and run: "read_stream (wd_ipc w) (wd_gax w) (wd_inputs w) (wd_now w) (jt_options task) = (es, reason)"
    and job: "PushJob j \<in> set es"
  shows "md_schema (dj_metadata j) = s"
proof -
  obtain md tx where meta: "ro_metadata (jt_options task) = md" "ro_schema_tx (jt_options task) = tx"
    and cond: "case md of Some m \<Rightarrow> \<not> tx \<and> Some s = Some (md_schema m)
      | None \<Rightarrow> tx \<and> awaited_schema es reason = Some (Inr (Some s))"
    by (rule check_task_eq [OF opened]) (use run in \<open>auto split: option.splits\<close>)
  from run meta obtain cfg r where "run cfg (wd_inputs w) (new_reader (ro_read_rows (jt_options task))
      (ro_current_offset (jt_options task)) md tx (ro_first_page_check (jt_options task)) (wd_now w))
      = (r, es, reason)"
    by (auto simp: read_stream_def reader_of_def split: prod.splits)
  from schema_run [OF this] have inv: "schema_inv md tx (r, es)" .
  show ?thesis
  proof (cases md)
    case (Some m)
    with inv job have "rd_metadata r = Some m" "rd_metadata r = Some (dj_metadata j)"
      by (auto simp: schema_inv_def)
    with Some cond show ?thesis by simp
  next
    case None
    with cond have tx: tx and sent: "SendSchema (Inr (Some s)) \<in> set es"
      using awaited_schema_sent by auto
    with inv None have "length (schema_messages es) \<le> 1" "announced {} es"
      by (cases "rd_schema_tx r"; simp add: schema_inv_def)+
    with announced_mem [OF _ job] one_announcement sent show ?thesis by fastforce
  qed
qed

section \<open>The cutover\<close>

lemma resolve_options:
  "resolve svc c d log = (Inr (t, options), log') \<Longrightarrow> options = dt_read_options d"
  by (auto simp: resolve_def io_bind_pair)

lemma switch_readers:
  "switch_to_read_session w c d log = (Inr readers, log') \<Longrightarrow>
     \<exists>schema. \<forall>t \<in> set readers. session_reader schema t
       \<and> ro_maintain_order t = rd_maintain_order (dt_read_options d)"
  by (auto simp: switch_to_read_session_def io_bind_pair dest!: resolve_options prepared_readers)

text \<open>C5: A cutover loses and repeats nothing: when the reader of the default stream switches, the
  task has queued no row of it. If the session opens, exactly its readers run, all starting at row 0
  with the metadata of the session, unordered and without a check that could switch again, and no
  error is sent; if it does not, no reader runs, and the consumer is sent that error last, right after
  the siblings were cancelled.\<close>

theorem cutover_reads_table_once:
  assumes task: "run_job_stream_task w c task log = ((es, Some SwitchToReadSession, readers), log')"
    and fallback: "jt_fallback task = Some d" "\<not> rd_maintain_order (dt_read_options d)"
  shows "queued_rows es = 0 \<and> (\<forall>j. PushJob j \<notin> set es)
    \<and> (case switch_to_read_session w c d log of
         (Inr opened, _) \<Rightarrow> readers = opened \<and> clean es
           \<and> (\<exists>schema. \<forall>t \<in> set readers. session_reader schema t \<and> \<not> ro_maintain_order t)
       | (Inl err, _) \<Rightarrow> readers = [] \<and> (\<exists>pre. es = pre @ [CancelAll, SendError err] \<and> clean pre))"
proof -
  obtain es0 where run: "read_stream (wd_ipc w) (wd_gax w) (wd_inputs w) (wd_now w) (jt_options task)
      = (es0, Some SwitchToReadSession)"
    using task by (auto simp: run_job_stream_task_def split: prod.splits option.splits sum.splits if_splits)
  then obtain cfg r where "run cfg (wd_inputs w) (new_reader (ro_read_rows (jt_options task))
      (ro_current_offset (jt_options task)) (ro_metadata (jt_options task)) (ro_schema_tx (jt_options task))
      (ro_first_page_check (jt_options task)) (wd_now w)) = (r, es0, Some SwitchToReadSession)"
    by (auto simp: read_stream_def reader_of_def split: prod.splits)
  note switched = switch_clean [OF this]
  obtain result log1 where session: "switch_to_read_session w c d log = (result, log1)" by fastforce
  have outcome: "case result of
      Inr opened \<Rightarrow> readers = opened \<and> clean es
        \<and> (\<exists>schema. \<forall>t \<in> set readers. session_reader schema t \<and> \<not> ro_maintain_order t)
    | Inl err \<Rightarrow> readers = [] \<and> (\<exists>pre. es = pre @ [CancelAll, SendError err] \<and> clean pre)"
  proof (cases result)
    case (Inl err)
    with task run session fallback switched(3) show ?thesis
      by (auto simp: run_job_stream_task_def)
  next
    case (Inr rs)
    with task run session fallback switched(3) switch_readers [of w c d log rs log1] show ?thesis
      by (auto simp: run_job_stream_task_def)
  qed
  have pushes: "\<forall>j. PushJob j \<notin> set es"
    using task run session fallback switched(2)
    by (auto simp: run_job_stream_task_def split: sum.splits)
  moreover have "queued_rows es = 0"
    using pushes by (induction es) (auto split: effect.splits)
  ultimately show ?thesis
    using outcome by (simp add: session split: sum.splits)
qed

section \<open>A result that begins inside the response\<close>

text \<open>C13: A query whose first page came inside the response delivers the rest exactly once: with an
  honest stream behind it, the payloads queued are consecutive slices of the result from row 0
  on, the inline page first, and they cover the whole result when nobody interferes and no
  error is reported.\<close>

theorem inline_page_and_stream_cover_result:
  assumes run: "read_query_stream ipc gx Reserved is now t = (es, True)"
    and honest: "\<forall>i \<in> set is. honest_server sl N i"
    and page: "qo_first_page_bytes t = sl 0 (sint (qo_page_row_count t))"
      "0 < sint (qo_page_row_count t)" "sint (qo_page_row_count t) \<le> N"
    and all: "qo_read_rows t = None \<longrightarrow> sint (qo_page_row_count t) = N"
  shows "(\<exists>m \<le> N. tiles sl 0 (jobs es) m)
    \<and> ((\<forall>i \<in> set is. undisturbed i) \<and> clean es \<longrightarrow> tiles sl 0 (jobs es) N)"
proof (cases "qo_read_rows t")
  case None
  with run page all show ?thesis by (auto simp: read_query_stream_def)
next
  case (Some rr)
  let ?first = "PushJob \<lparr>dj_bytes = qo_first_page_bytes t, dj_expected_row_count = qo_page_row_count t,
    dj_metadata = qo_metadata t\<rparr>"
  from run Some obtain cfg r es' reason where rest:
    "run cfg is (new_reader rr (qo_page_row_count t) (Some (qo_metadata t)) False None now) = (r, es', reason)"
    and es: "es = ?first # es'" and ended: "reason \<noteq> None"
    by (auto simp: read_query_stream_def read_stream_def reader_of_def split: prod.splits)
  have "reason = Some Finished"
    using ended switch_clean(1) [of cfg "is" rr "qo_page_row_count t" "Some (qo_metadata t)" False None now r es'] rest
    by (cases reason; cases "the reason") auto
  with delivery_run [OF rest honest page(3)] page(1,2) es show ?thesis by (auto simp: Let_def)
qed

end
