(* ===== verification/Read_System_Schema.thy ===== *)
theory Read_System_Schema
  imports Read_System_Rows Query_Stream_Proofs
begin

text \<open>
  The type of a read: until it cuts over, every batch the consumer receives has the schema the caller
  was given, whether it came with the response, with the session or with the stream; once it has cut
  over, every batch has the schema of the session it opened; and this whatever the interleaving.
\<close>

section \<open>Lanes that know their schema and the lane that learns it\<close>

text \<open>
  A lane that knows its schema never sends one. The lane that learns it has sent every schema the
  caller received. What a lane has still to carry out is in its log.
\<close>

definition knows :: "arrow_schema \<Rightarrow> bool \<Rightarrow> lane \<Rightarrow> bool" where
  "knows sch flag ln \<longleftrightarrow> (\<exists>m chk. md_schema m = sch \<and> history (Some m) False chk flag ln)"

definition learns_schema :: "(bq_error, arrow_schema option) res list \<Rightarrow> bool \<Rightarrow> lane \<Rightarrow> bool" where
  "learns_schema msgs flag ln \<longleftrightarrow>
     (\<exists>chk. history None True chk flag ln) \<and> (\<forall>x \<in> set msgs. SendSchema x \<in> set (ln_log ln))"

definition logged :: "ipc \<Rightarrow> lane \<Rightarrow> bool" where
  "logged ipc ln \<longleftrightarrow> lane_ipc ln = ipc \<and> set (ln_outbox ln) \<subseteq> set (ln_log ln)"

lemma knows_mono: "knows sch flag ln \<Longrightarrow> flag \<longrightarrow> flag' \<Longrightarrow> knows sch flag' ln"
  by (auto simp: knows_def intro: history_mono)

lemma learns_mono: "learns_schema msgs flag ln \<Longrightarrow> flag \<longrightarrow> flag' \<Longrightarrow> learns_schema msgs flag' ln"
  by (auto simp: learns_schema_def intro: history_mono)

lemma logged_act:
  assumes act: "lane_act P free rx ln ln' rx' sch" and rx: "rx_closed rx \<longrightarrow> rx_cancel_flag rx" and "logged ipc ln"
  shows "logged ipc ln'" and "set (ln_log ln) \<subseteq> set (ln_log ln')"
    and "\<forall>x \<in> set sch. SendSchema x \<in> set (ln_log ln)"
proof -
  have "lane_ipc ln' = lane_ipc ln" using lane_act_fields(5) [OF act rx] by simp
  moreover from act have "set (ln_log ln) \<subseteq> set (ln_log ln')
      \<and> set (ln_outbox ln') \<subseteq> set (ln_outbox ln) \<union> set (ln_log ln')
      \<and> (\<forall>x \<in> set sch. SendSchema x \<in> set (ln_outbox ln))"
  proof cases
    case (stepped i)
    with do_step_fields(10) [OF stepped(4)] show ?thesis by auto
  next
    case (performed e es)
    with perform_fields(1,4) [OF performed(3)] show ?thesis by (auto split: effect.splits)
  next
    case (worked w)
    with lane_work_fields(2,5) [OF worked(2) rx] show ?thesis by simp
  qed auto
  ultimately show "logged ipc ln'" "set (ln_log ln) \<subseteq> set (ln_log ln')"
    "\<forall>x \<in> set sch. SendSchema x \<in> set (ln_log ln)"
    using assms(3) by (auto simp: logged_def)
qed

lemma knows_silent: "knows sch flag ln \<Longrightarrow> SendSchema x \<notin> set (ln_log ln)"
  by (auto simp: knows_def history_def schema_inv_def schema_messages_def filter_empty_conv is_schema_message_def)

lemma knows_act:
  assumes act: "lane_act P free rx ln ln' rx' msgs" and knows: "knows sch (rx_cancel_flag rx) ln" and "logged ipc ln"
    and rx: "rx_closed rx \<longrightarrow> rx_cancel_flag rx" "rx_aborted rx \<noteq> [] \<longrightarrow> rx_closed rx"
  shows "knows sch (rx_cancel_flag rx') ln' \<and> msgs = []"
proof
  show "knows sch (rx_cancel_flag rx') ln'" using knows history_act [OF act _ rx] by (auto simp: knows_def) blast
  show "msgs = []" using logged_act(3) [OF act rx(1) assms(3)] knows_silent [OF knows] by (cases msgs) auto
qed

lemma learns_act:
  assumes act: "lane_act P free rx ln ln' rx' msgs'" and learns: "learns_schema msgs (rx_cancel_flag rx) ln"
    and log: "logged ipc ln" and rx: "rx_closed rx \<longrightarrow> rx_cancel_flag rx" "rx_aborted rx \<noteq> [] \<longrightarrow> rx_closed rx"
  shows "learns_schema (msgs @ msgs') (rx_cancel_flag rx') ln'"
  using learns history_act [OF act _ rx] logged_act(2,3) [OF act rx(1) log]
  by (fastforce simp: learns_schema_def)

section \<open>The lane that cut over\<close>

text \<open>A reader that switched has queued nothing, and its lane queues nothing any more.\<close>

definition idle :: "lane \<Rightarrow> bool" where
  "idle ln \<longleftrightarrow> is_terminated (ln_reader ln) \<and> (\<forall>j. PushJob j \<notin> set (ln_log ln))"

lemma switched_idle:
  "history md tx chk flag ln \<Longrightarrow> rd_state (ln_reader ln) = Terminated SwitchToReadSession \<Longrightarrow> idle ln"
  by (simp add: history_def check_inv_def idle_def is_terminated_def)

lemma idle_act:
  assumes act: "lane_act P free rx ln ln' rx' sch" and rx: "rx_closed rx \<longrightarrow> rx_cancel_flag rx" and "idle ln"
  shows "idle ln'"
  using act
proof cases
  case (stepped i)
  with assms(3) show ?thesis by (simp add: idle_def do_step_def split: if_splits)
next
  case (performed e es)
  with perform_fields(4) [OF performed(3)] perform_reader [OF performed(3) rx] assms(3) show ?thesis
    by (auto simp: idle_def is_terminated_def)
next
  case (worked w)
  with lane_work_fields [OF worked(2) rx] assms(3) show ?thesis by (simp add: idle_def)
qed (use assms(3) in \<open>auto simp: idle_def is_terminated_def\<close>)

section \<open>The invariant\<close>

definition fresh_known :: "ipc \<Rightarrow> arrow_schema \<Rightarrow> lane \<Rightarrow> bool" where
  "fresh_known ipc sch ln \<longleftrightarrow> logged ipc ln \<and> knows sch False ln"

text \<open>
  The first lane may be one that learns its schema. Once the read has cut over, the first lane is
  idle and all others know the schema of the session.
\<close>

definition typed_lane :: "arrow_schema \<Rightarrow> bool \<Rightarrow> read_system \<Rightarrow> nat \<Rightarrow> lane \<Rightarrow> bool" where
  "typed_lane sch lrn s k ln \<longleftrightarrow> knows sch (rx_cancel_flag (sy_rx s)) ln
     \<or> lrn \<and> k = 0 \<and> learns_schema (sy_schema s) (rx_cancel_flag (sy_rx s)) ln"

definition session_lane :: "arrow_schema option \<Rightarrow> bool \<Rightarrow> lane \<Rightarrow> bool" where
  "session_lane ses flag ln \<longleftrightarrow> (\<exists>x. ses = Some x \<and> knows x flag ln)"

definition cut_over :: "bool \<Rightarrow> read_system \<Rightarrow> bool" where
  "cut_over had s \<longleftrightarrow> had \<and> sy_fallback s = None"

definition lane_typed ::
  "arrow_schema \<Rightarrow> arrow_schema option \<Rightarrow> bool \<Rightarrow> bool \<Rightarrow> read_system \<Rightarrow> nat \<Rightarrow> lane \<Rightarrow> bool" where
  "lane_typed sch ses lrn had s k ln \<longleftrightarrow>
     (if cut_over had s \<and> 0 < k then session_lane ses (rx_cancel_flag (sy_rx s)) ln
      else typed_lane sch lrn s k ln \<and> (cut_over had s \<longrightarrow> idle ln))"

definition typed :: "ipc \<Rightarrow> arrow_schema \<Rightarrow> arrow_schema option \<Rightarrow> bool \<Rightarrow> bool \<Rightarrow> read_system \<Rightarrow> bool" where
  "typed ipc sch ses lrn had s \<longleftrightarrow> sys_kept s
     \<and> (\<forall>k < length (sy_lanes s). logged ipc (sy_lanes s ! k) \<and> lane_typed sch ses lrn had s k (sy_lanes s ! k))
     \<and> (sy_fallback s \<noteq> None \<longrightarrow> had \<and> length (sy_lanes s) = 1)
     \<and> (\<forall>lanes. sy_fallback s = Some (Inr lanes) \<longrightarrow>
          (\<exists>x. ses = Some x \<and> list_all (fresh_known ipc x) lanes))"

lemma typed_lane_mono:
  "typed_lane sch lrn s k ln \<Longrightarrow> sy_schema s' = sy_schema s \<Longrightarrow>
     rx_cancel_flag (sy_rx s) \<longrightarrow> rx_cancel_flag (sy_rx s') \<Longrightarrow> typed_lane sch lrn s' k ln"
  by (auto simp: typed_lane_def intro: knows_mono learns_mono)

lemma lane_typed_mono:
  "lane_typed sch ses lrn had s k ln \<Longrightarrow> sy_schema s' = sy_schema s \<Longrightarrow> sy_fallback s' = sy_fallback s \<Longrightarrow>
     rx_cancel_flag (sy_rx s) \<longrightarrow> rx_cancel_flag (sy_rx s') \<Longrightarrow> lane_typed sch ses lrn had s' k ln"
  by (auto simp: lane_typed_def cut_over_def session_lane_def intro: typed_lane_mono knows_mono split: if_splits)

text \<open>One action of a lane, for the lane itself and for the others.\<close>

lemma typed_lane_act:
  assumes act: "lane_act P free (sy_rx s) ln ln' rx' msgs" and lane: "typed_lane sch lrn s k ln" and log: "logged ipc ln"
    and rx: "rx_closed (sy_rx s) \<longrightarrow> rx_cancel_flag (sy_rx s)" "rx_aborted (sy_rx s) \<noteq> [] \<longrightarrow> rx_closed (sy_rx s)"
    and s': "sy_schema s' = sy_schema s @ msgs" "sy_rx s' = rx'"
  shows "typed_lane sch lrn s' k ln' \<and> (msgs \<noteq> [] \<longrightarrow> k = 0)"
  using lane knows_act [OF act _ log rx] learns_act [OF act _ log rx] s' by (auto simp: typed_lane_def)

lemma session_lane_act:
  assumes act: "lane_act P free rx ln ln' rx' msgs" and lane: "session_lane ses (rx_cancel_flag rx) ln" and log: "logged ipc ln"
    and rx: "rx_closed rx \<longrightarrow> rx_cancel_flag rx" "rx_aborted rx \<noteq> [] \<longrightarrow> rx_closed rx"
  shows "session_lane ses (rx_cancel_flag rx') ln' \<and> msgs = []"
  using lane knows_act [OF act _ log rx] by (auto simp: session_lane_def)

lemma other_lane:
  assumes lane: "lane_typed sch ses lrn had s i ln" and same: "sy_fallback s' = sy_fallback s"
    and s': "sy_schema s' = sy_schema s @ msgs" "rx_cancel_flag (sy_rx s) \<longrightarrow> rx_cancel_flag (sy_rx s')"
    and zero: "msgs \<noteq> [] \<longrightarrow> i \<noteq> 0"
  shows "lane_typed sch ses lrn had s' i ln"
proof (cases "msgs = []")
  case True
  with assms show ?thesis by (intro lane_typed_mono [OF lane]) simp_all
next
  case False
  with assms show ?thesis
    by (auto simp: lane_typed_def typed_lane_def cut_over_def session_lane_def intro: knows_mono split: if_splits)
qed

lemma typed_step:
  assumes typed: "typed ipc sch ses lrn had s" and stp: "sys_step a s = Some s'" and ok: "inputs_ok P a"
  shows "typed ipc sch ses lrn had s'"
proof -
  have sys: "sys_kept s" using typed by (simp add: typed_def)
  have rx: "rx_closed (sy_rx s) \<longrightarrow> rx_cancel_flag (sy_rx s)" "rx_aborted (sy_rx s) \<noteq> [] \<longrightarrow> rx_closed (sy_rx s)"
    using sys by (auto simp: sys_kept_def receiver_kept_def)
  have lanes: "logged ipc (sy_lanes s ! k)" "lane_typed sch ses lrn had s k (sy_lanes s ! k)"
    if "k < length (sy_lanes s)" for k
    using typed that by (auto simp: typed_def)
  have quiet: "typed ipc sch ses lrn had s'"
    if "sy_lanes s' = sy_lanes s" "sy_fallback s' = sy_fallback s" "sy_schema s' = sy_schema s"
      "rx_cancel_flag (sy_rx s) \<longrightarrow> rx_cancel_flag (sy_rx s')"
    using typed lane_typed_mono [OF lanes(2)] that kept_step [OF sys stp ok] by (simp add: typed_def)
  from stp ok show ?thesis
  proof (cases rule: sys_step_cases)
    case (lane k ln' rx' msgs extra fb)
    note log = logged_act [OF lane(2) rx(1) lanes(1) [OF lane(1)]]
    note flag = lane_act_fields(4) [OF lane(2) rx(1)]
    have log': "logged ipc (((sy_lanes s)[k := ln']) ! i)" if "i < length (sy_lanes s)" for i
      using that lanes(1) log(1) lane(1) by (cases "i = k") simp_all
    show ?thesis
    proof (cases "fb = sy_fallback s \<and> extra = []")
      case True
      have here: "lane_typed sch ses lrn had s' k ln' \<and> (msgs \<noteq> [] \<longrightarrow> k = 0)"
      proof (cases "cut_over had s \<and> 0 < k")
        case cut: True
        with lanes(2) [OF lane(1)] have "session_lane ses (rx_cancel_flag (sy_rx s)) (sy_lanes s ! k)"
          by (simp add: lane_typed_def)
        from session_lane_act [OF lane(2) this lanes(1) [OF lane(1)] rx] cut lane(3) True show ?thesis
          by (simp add: lane_typed_def cut_over_def)
      next
        case False
        with lanes(2) [OF lane(1)] have "typed_lane sch lrn s k (sy_lanes s ! k)" "cut_over had s \<longrightarrow> idle (sy_lanes s ! k)"
          by (simp_all add: lane_typed_def)
        with typed_lane_act [OF lane(2) _ lanes(1) [OF lane(1)] rx, of sch lrn k s'] idle_act [OF lane(2) rx(1)]
          False lane(3) True show ?thesis
          by (auto simp: lane_typed_def cut_over_def)
      qed
      have "lane_typed sch ses lrn had s' i ((sy_lanes s)[k := ln'] ! i)" if i: "i < length (sy_lanes s)" for i
      proof (cases "i = k")
        case False
        with here have "msgs \<noteq> [] \<longrightarrow> i \<noteq> 0" by auto
        with False flag lane(3) True other_lane [OF lanes(2) [OF i], of s' msgs] show ?thesis by simp
      qed (use here i in simp)
      with typed lane(3) True log' kept_step [OF sys stp ok] show ?thesis by (simp add: typed_def)
    next
      case False
      then obtain old where fallback: "sy_fallback s = Some old" "fb = None"
        and switched: "rd_state (ln_reader (sy_lanes s ! k)) = Terminated SwitchToReadSession"
        and extra: "old = Inr extra \<or> extra = []"
        using lane(4) by (auto simp: fallback_act_def)
      then have had: "had" "length (sy_lanes s) = 1" "k = 0" using typed lane(1) by (auto simp: typed_def)
      then have here: "typed_lane sch lrn s k (sy_lanes s ! k)"
        using lanes(2) [OF lane(1)] by (simp add: lane_typed_def)
      then have "idle (sy_lanes s ! k)" using switched by (auto simp: typed_lane_def knows_def learns_schema_def intro: switched_idle)
      with typed_lane_act [OF lane(2) here lanes(1) [OF lane(1)] rx, of s'] idle_act [OF lane(2) rx(1)] had lane(3)
      have first: "lane_typed sch ses lrn had s' 0 ln'" by (simp add: lane_typed_def)
      have rest_known: "\<exists>x. ses = Some x \<and> list_all (fresh_known ipc x) extra" if "extra \<noteq> []"
        using typed extra fallback(1) that by (auto simp: typed_def)
      then have rest: "logged ipc ln \<and> lane_typed sch ses lrn had s' (Suc i) ln" if "ln \<in> set extra" for ln i
      proof -
        from that have "extra \<noteq> []" by auto
        from rest_known [OF this] that obtain x where "ses = Some x" "logged ipc ln" "knows x False ln"
          by (auto simp: list_all_iff fresh_known_def)
        with had fallback(2) lane(3) show ?thesis
          by (auto simp: lane_typed_def cut_over_def session_lane_def intro: knows_mono)
      qed
      obtain ln where "sy_lanes s = [ln]" using had(2) by (auto simp: length_Suc_conv)
      then have "sy_lanes s' = ln' # extra" using lane(3) had(3) by simp
      moreover have "logged ipc ((ln' # extra) ! i) \<and> lane_typed sch ses lrn had s' i ((ln' # extra) ! i)"
        if "i < length (ln' # extra)" for i
        using that log(1) first rest by (cases i) simp_all
      ultimately show ?thesis using fallback(2) lane(3) kept_step [OF sys stp ok] by (simp add: typed_def)
    qed
  next
    case (item r rest)
    then show ?thesis by (intro quiet) (simp_all add: Let_def)
  next
    case end_seen
    then show ?thesis by (intro quiet) simp_all
  next
    case gave_up
    then show ?thesis by (intro quiet) simp_all
  qed
qed

interpretation typed_sys: guarded_invariant sys_step "inputs_ok P" "typed ipc sch ses lrn had" for P ipc sch ses lrn had
  by unfold_locales (rule typed_step)

section \<open>The batches of a typed read\<close>

lemma decoded_batch: 
  assumes "b \<in> set (job_batches ipc j)"
  shows "Inr (Some_batch b) \<in> set (ipc_stream ipc (dj_bytes j) (dj_metadata j))"
proof -
  have member: "batches_of st = Some bs \<Longrightarrow> x \<in> set bs \<Longrightarrow> Inr (Some_batch x) \<in> set st" for st bs x
    by (induction st arbitrary: bs rule: batches_of.induct) (auto split: option.splits)
  from assms obtain bs where bs: "b \<in> set bs"
    "decode_arrow_record_batches ipc (dj_bytes j) (dj_expected_row_count j) (dj_metadata j) = Inr bs"
    by (auto simp: job_batches_def split: sum.splits)
  then obtain m where "decode_loop 0 [] (ipc_stream ipc (dj_bytes j) (dj_metadata j)) = Inr (m, bs)"
    by (auto simp: decode_arrow_record_batches_def rbind_Inr_iff split: if_splits)
  from decode_loop_Inr [OF this] member bs(1) show ?thesis by auto
qed

lemma typed_job:
  assumes lane: "typed_lane sch lrn s k ln" and told: "lrn \<longrightarrow> Inr (Some sch) \<in> set (sy_schema s)"
    and j: "j \<in> set (ln_pushed ln)"
  shows "md_schema (dj_metadata j) = sch"
proof -
  have push: "PushJob j \<in> set (ln_log ln)" if "history md tx chk flag ln" for md tx chk flag
    using that j by (auto simp: history_def prefix_def set_jobs dest!: arg_cong [where f = set])
  from lane consider m chk where "history (Some m) False chk (rx_cancel_flag (sy_rx s)) ln" "md_schema m = sch"
    | lrn "learns_schema (sy_schema s) (rx_cancel_flag (sy_rx s)) ln"
    by (auto simp: typed_lane_def knows_def)
  then show ?thesis
  proof cases
    case (1 m chk)
    with push [OF 1(1)] show ?thesis by (auto simp: history_def schema_inv_def)
  next
    case 2
    then obtain chk where hist: "history None True chk (rx_cancel_flag (sy_rx s)) ln"
      and "SendSchema (Inr (Some sch)) \<in> set (ln_log ln)"
      using told by (auto simp: learns_schema_def)
    moreover have "length (schema_messages (ln_log ln)) \<le> 1" "announced {} (ln_log ln)"
      using hist by (cases "rd_schema_tx (ln_reader ln)"; simp add: history_def schema_inv_def)+
    ultimately show ?thesis using announced_mem [OF _ push [OF hist]] one_announcement by fastforce
  qed
qed

definition stream_knows :: "arrow_schema \<Rightarrow> read_stream_options \<Rightarrow> bool" where
  "stream_knows sch opt \<longleftrightarrow> \<not> ro_schema_tx opt \<and> (\<exists>m. ro_metadata opt = Some m \<and> md_schema m = sch)"

text \<open>
  What a read gives its caller: a schema all of whose readers know it, or a reader that is to
  learn it.
\<close>

fun started_typed :: "arrow_schema \<Rightarrow> started \<Rightarrow> bool" where
  "started_typed sch NothingStarted = True"
| "started_typed sch (TableReaders opts) = list_all (stream_knows sch) opts"
| "started_typed sch (QueryReader opt) = (md_schema (qo_metadata opt) = sch)"
| "started_typed sch (JobStream task) =
     (stream_knows sch (jt_options task) \<or> ro_metadata (jt_options task) = None \<and> ro_schema_tx (jt_options task))"

fun learns_from_stream :: "started \<Rightarrow> bool" where
  "learns_from_stream (JobStream task) = (ro_metadata (jt_options task) = None)"
| "learns_from_stream _ = False"

text \<open>
  The read session that a cutover opens. The code keeps its readers and ignores its schema
  (\<open>switch_to_read_session\<close>); the readers themselves know it.
\<close>

definition open_session ::
  "world \<Rightarrow> client \<Rightarrow> deferred_read \<Rightarrow> (arrow_schema \<times> read_stream_options list) io" where
  "open_session w c d =
     io_bind (resolve (wd_services w) c d) (\<lambda>(destination_table, options).
       prepare_table_read_session (wd_platform w) (wd_ipc w) (wd_gax w) (wd_services w) c destination_table options)"

lemma switch_opens: "fst (switch_to_read_session w c d log) = map_sum id snd (fst (open_session w c d log))"
  by (simp add: switch_to_read_session_def open_session_def io_bind_def split: prod.split sum.split)

fun fallback_of :: "started \<Rightarrow> deferred_read option" where
  "fallback_of (JobStream task) = jt_fallback task"
| "fallback_of _ = None"

definition session_schema :: "world \<Rightarrow> client \<Rightarrow> rpc list \<Rightarrow> started \<Rightarrow> arrow_schema option" where
  "session_schema w c log st =
     (case fallback_of st of
        None \<Rightarrow> None
      | Some d \<Rightarrow> (case fst (open_session w c d log) of Inl e \<Rightarrow> None | Inr (schema, opts) \<Rightarrow> Some schema))"

lemma stream_lane_known:
  "stream_knows sch opt \<Longrightarrow> fresh_known ipc sch (stream_lane ipc gx now opt)"
  by (auto simp: stream_knows_def fresh_known_def logged_def knows_def history_def stream_lane_def new_lane_def
      reader_cfg_of_def reader_of_def new_reader_def failure_inv_def schema_inv_def check_inv_def)

lemma query_lane_known: "fresh_known ipc (md_schema (qo_metadata opt)) (query_lane ipc gx now opt)"
  by (auto simp: fresh_known_def logged_def knows_def history_def query_lane_def new_lane_def reader_cfg_of_def
      new_reader_def failure_inv_def schema_inv_def schema_messages_def is_schema_message_def check_inv_def
      first_page_job_def split: option.splits)

lemma stream_lane_learns:
  "ro_metadata opt = None \<Longrightarrow> ro_schema_tx opt \<Longrightarrow>
     logged ipc (stream_lane ipc gx now opt) \<and> learns_schema [] False (stream_lane ipc gx now opt)"
  by (auto simp: logged_def learns_schema_def history_def stream_lane_def new_lane_def
      reader_cfg_of_def reader_of_def new_reader_def failure_inv_def schema_inv_def check_inv_def)

lemma prepared_know:
  "prepare_table_read_session pf ipc gx svc c table options log = (Inr (schema, readers), log') \<Longrightarrow>
     list_all (stream_knows schema) readers"
  by (auto simp: prepare_table_read_session_def io_bind_pair io_lift_def stream_knows_def list_all_iff Let_def
      split: prod.splits)

lemma session_know:
  assumes "fst (open_session w c d log) = Inr (schema, readers)"
  shows "list_all (stream_knows schema) readers"
proof -
  from assms obtain log' where "open_session w c d log = (Inr (schema, readers), log')" by (auto simp: prod_eq_iff)
  then show ?thesis by (auto simp: open_session_def io_bind_pair dest: prepared_know)
qed

lemma typed_start_read:
  assumes typed: "started_typed sch st"
  shows "typed (wd_ipc w) sch (session_schema w c log st) (learns_from_stream st) (fallback_of st \<noteq> None)
     (start_read w c log (receiver_new True hs) st)"
proof -
  let ?s = "start_read w c log (receiver_new True hs) st"
  have flags: "\<not> rx_cancel_flag (sy_rx ?s)" "sy_schema ?s = []"
    by (cases st; simp add: start_read_def start_system_def receiver_new_def Let_def)+
  have before: "sy_fallback ?s = None \<longleftrightarrow> fallback_of st = None"
    by (cases st) (simp_all add: start_read_def start_system_def Let_def)
  have lanes: "logged (wd_ipc w) (sy_lanes ?s ! k)
      \<and> lane_typed sch (session_schema w c log st) (learns_from_stream st) (fallback_of st \<noteq> None) ?s k (sy_lanes ?s ! k)"
    if "k < length (sy_lanes ?s)" for k
  proof -
    have "fresh_known (wd_ipc w) sch (sy_lanes ?s ! k)
        \<or> learns_from_stream st \<and> k = 0 \<and> logged (wd_ipc w) (sy_lanes ?s ! k) \<and> learns_schema [] False (sy_lanes ?s ! k)"
      using typed that stream_lane_known stream_lane_learns query_lane_known
      by (cases st) (auto simp: start_read_def start_system_def Let_def list_all_length)
    with flags before show ?thesis by (auto simp: fresh_known_def lane_typed_def typed_lane_def cut_over_def)
  qed
  have "\<exists>x. session_schema w c log st = Some x \<and> list_all (fresh_known (wd_ipc w) x) ls"
    if ls: "sy_fallback ?s = Some (Inr ls)" for ls
  proof -
    from ls obtain task d opts where st: "st = JobStream task" "jt_fallback task = Some d"
      "fst (switch_to_read_session w c d log) = Inr opts"
      "ls = map (stream_lane (wd_ipc w) (wd_gax w) (wd_now w)) opts"
      by (cases st) (auto simp: start_read_def start_system_def Let_def map_sum_Inr)
    then obtain x where "fst (open_session w c d log) = Inr (x, opts)" by (auto simp: switch_opens map_sum_Inr)
    with st session_know show ?thesis
      by (auto simp: session_schema_def list_all_iff intro: stream_lane_known)
  qed
  moreover have "fallback_of st \<noteq> None \<longrightarrow> length (sy_lanes ?s) = 1"
    by (cases st) (simp_all add: start_read_def start_system_def Let_def)
  ultimately show ?thesis using lanes before kept_start_read by (simp add: typed_def)
qed

section \<open>What a query gives its caller\<close>

lemma opened_typed:
  assumes "read_stream_with_first_page_check w c name options check = Some (Inr (Some sch, recv, task))"
  shows "started_typed sch (JobStream task)"
  using assms
  by (auto simp: read_stream_with_first_page_check_def Let_def stream_knows_def map_sum_Inr
      split: option.splits sum.splits prod.splits)

lemma job_stream_typed:
  assumes "fst (read_job_stream_or_table w c q response name bs log) = Inr (Some (sch, recv, st))"
  shows "started_typed sch st"
proof -
  obtain check where "fst ((case read_stream_with_first_page_check w c name
             \<lparr>so_maintain_order = q_maintain_order q, so_offset = 0, so_schema = bs,
              so_arrow_buffer_compression = Some (arrow_buffer_compression q)\<rparr> check of
        None \<Rightarrow> io_return None
      | Some (Inr (Some schema_ref, receiver, task)) \<Rightarrow> io_return (Some (schema_ref, receiver, JobStream task))
      | Some (Inr (None, _, _)) \<Rightarrow> io_bind (resolve_empty_job_stream w c q response) (\<lambda>r. io_return (Some r))
      | Some (Inl err) \<Rightarrow> (\<lambda>log. case resolve_job_error w c response err log of (e, log') \<Rightarrow> (Inl e, log'))) log)
      = Inr (Some (sch, recv, st))"
    using assms by (auto simp: read_job_stream_or_table_def io_lift_bind_Inr)
  then show ?thesis
    using opened_typed resolve_empty_started
    by (fastforce simp: io_Inr split: option.splits sum.splits prod.splits)
qed

lemma query_read_typed:
  assumes "fst (query_read w c q log) = Inr (Some (sch, recv, st))"
  shows "started_typed sch st"
proof -
  from query_read_routed [OF assms] obtain response log'
    where "fst (route_response w c q response log') = Inr (Some (sch, recv, st))" by metis
  then show ?thesis
  proof (cases rule: route_cases)
    case (stream log2 name bs)
    from job_stream_typed [OF this] show ?thesis .
  next
    case (table d log2 log3 readers)
    then show ?thesis
      using prepared_know by (fastforce simp: destination_read_def read_table_def io_bind_pair split: prod.splits)
  qed simp_all
qed

text \<open>A batch received was decoded from a job that some lane queued.\<close>

lemma owed_job:
  assumes "\<forall>k < length lanes. logged ipc (lanes ! k)" "b \<in> set (owed_by_all lanes)"
  shows "\<exists>k < length lanes. \<exists>j \<in> set (ln_pushed (lanes ! k)). b \<in> set (job_batches ipc j)"
proof -
  from assms(2) obtain k j where "k < length lanes" "j \<in> set (ln_pushed (lanes ! k))"
    "b \<in> set (job_batches (lane_ipc (lanes ! k)) j)"
    by (auto simp: owed_by_all_def owed_def in_set_conv_nth [of _ lanes])
  with assms(1) show ?thesis by (auto simp: logged_def)
qed

lemma typed_received:
  assumes typed: "typed ipc sch ses lrn had s" and seen: "b \<in> set (oks (sy_got s))"
  obtains k j where "k < length (sy_lanes s)" "j \<in> set (ln_pushed (sy_lanes s ! k))" "b \<in> set (job_batches ipc j)"
proof -
  have "mset (oks (sy_got s)) \<subseteq># mset (owed_by_all (sy_lanes s))" using seen_within typed by (simp add: typed_def)
  then have "b \<in> set (owed_by_all (sy_lanes s))" using seen mset_subset_eqD set_mset_mset by metis
  then obtain k j where "k < length (sy_lanes s)" "j \<in> set (ln_pushed (sy_lanes s ! k))" "b \<in> set (job_batches ipc j)"
    using owed_job [of "sy_lanes s" ipc b] typed by (auto simp: typed_def)
  then show ?thesis by (rule that)
qed

lemma idle_pushed: "history md tx chk flag ln \<Longrightarrow> idle ln \<Longrightarrow> ln_pushed ln = []"
  by (cases "ln_pushed ln") (auto simp: history_def idle_def prefix_def set_jobs dest!: arg_cong [where f = set])

lemma typed_job_schema:
  assumes typed: "typed ipc sch ses lrn had s" and told: "lrn \<longrightarrow> Inr (Some sch) \<in> set (sy_schema s)"
    and k: "k < length (sy_lanes s)" and j: "j \<in> set (ln_pushed (sy_lanes s ! k))"
  shows "Some (md_schema (dj_metadata j)) = (if cut_over had s then ses else Some sch)"
proof -
  let ?ln = "sy_lanes s ! k"
  have lane: "lane_typed sch ses lrn had s k ?ln" using typed k by (simp add: typed_def)
  show ?thesis
  proof (cases "cut_over had s")
    case False
    with lane typed_job [OF _ told j] show ?thesis by (simp add: lane_typed_def)
  next
    case True
    have "0 < k"
    proof (rule ccontr)
      assume "\<not> 0 < k"
      with lane True have "typed_lane sch lrn s k ?ln" "idle ?ln" by (simp_all add: lane_typed_def)
      then have "ln_pushed ?ln = []" by (auto simp: typed_lane_def knows_def learns_schema_def dest: idle_pushed)
      with j show False by simp
    qed
    with lane True obtain x where x: "ses = Some x" "knows x (rx_cancel_flag (sy_rx s)) ?ln"
      by (auto simp: lane_typed_def session_lane_def)
    then have "typed_lane x False s k ?ln" by (simp add: typed_lane_def)
    from typed_job [OF this _ j] x(1) True show ?thesis by simp
  qed
qed

text \<open>C10: A query has one type: when the Arrow reader gives batches of the schema it is asked to decode
  with, all batches the consumer receives have one schema, on every route and under every
  interleaving. Unless the read cut over it is the schema that \<open>read\<close> returned (where the stream
  announces it, the one its reader sent to the caller). A read that cut over delivers only batches of
  the session's schema, which the code does not compare with the one it returned.\<close>

theorem every_batch_has_the_schema:
  assumes ipc: "\<forall>bs m b. Inr (Some_batch b) \<in> set (ipc_stream (wd_ipc w) bs m) \<longrightarrow> rb_schema b = md_schema m"
    and read: "fst (query_read w c q log) = Inr (Some (sch, recv, st))"
    and run: "sys_run as (start_read w c log' (receiver_new True hs) st) = Some s"
    and told: "learns_from_stream st \<longrightarrow> Inr (Some sch) \<in> set (sy_schema s)"
    and seen: "b \<in> set (oks (sy_got s))"
  shows "Some (rb_schema b) =
     (if cut_over (fallback_of st \<noteq> None) s then session_schema w c log' st else Some sch)"
proof -
  have "\<forall>a \<in> set as. inputs_ok (\<lambda>k i. True) a" using any_inputs_ok by blast
  from typed_sys.inv_actions [OF this typed_start_read [OF query_read_typed [OF read]]] run
  have typed: "typed (wd_ipc w) sch (session_schema w c log' st) (learns_from_stream st) (fallback_of st \<noteq> None) s"
    by (simp add: sys_run_def)
  from seen obtain k j where k: "k < length (sy_lanes s)" "j \<in> set (ln_pushed (sy_lanes s ! k))"
    "b \<in> set (job_batches (wd_ipc w) j)"
    by (rule typed_received [OF typed])
  have "rb_schema b = md_schema (dj_metadata j)" using ipc decoded_batch [OF k(3)] by metis
  with typed_job_schema [OF typed told k(1,2)] show ?thesis by simp
qed

end
