(* ===== verification/Query_Examples.thy ===== *)
theory Query_Examples
  imports Query_Stream_Proofs
begin

text \<open>
  A small world with concrete services, in which the properties of queries are applied: a query
  whose response has the first of three rows inline, one that is read from its table in
  parallel, a single stream whose schema is learned, and a cutover.
\<close>

definition toy_services :: "query_response \<Rightarrow> services" where
  "toy_services response =
     \<lparr>sv_create_read_session = (\<lambda>log req. Inr \<lparr>rs_schema = Some (ArrowSchema [1]), rs_stream_names = [''s1'', ''s2'']\<rparr>),
      sv_get_job = (\<lambda>log req. Inr
        \<lparr>jb_configuration = Some (Some (Some \<lparr>tr_project_id = ''p'', tr_dataset_id = ''d'', tr_table_id = ''t''\<rparr>)),
         jb_status = None, jb_statistics = None\<rparr>),
      sv_query = (\<lambda>log req. Inr response)\<rparr>"

definition toy_client :: client where
  "toy_client = \<lparr>cl_quota_project_id = ''quota'', cl_user_agent = Some ''agent'', cl_retry_throttler = 0,
     cl_retry_config = rc_retry flaky_cfg\<rparr>"

lemma toy_client_from_parts: "client_from_parts gax_ref ''quota'' (Some ''agent'') 0 = Some toy_client"
  by (simp add: client_from_parts_def flaky_cfg_is_default toy_client_def)

definition toy_world :: "query_response \<Rightarrow> step_in list \<Rightarrow> world" where
  "toy_world response is =
     \<lparr>wd_platform = \<lparr>pf_clamp = (\<lambda>s n. (s, n)), pf_parallelism = Some 4, pf_rayon_threads = 4\<rparr>,
      wd_ipc = row_ipc, wd_gax = gax_ref,
      wd_codec = \<lparr>ca_from_value = V2UnknownValue, ca_from_name = V2UnknownName\<rparr>,
      wd_services = toy_services response, wd_uuid = ''0'', wd_inputs = is, wd_now = 0\<rparr>"

lemmas world_defs = toy_world_def toy_services_def toy_client_def

section \<open>A page inside the response\<close>

definition inline_task :: read_query_stream_options where
  "inline_task =
     \<lparr>qo_first_page_bytes = [0], qo_page_row_count = 1,
      qo_read_rows = Some (prepare_read_rows toy_client ''projects/p/locations/us/jobs/j/streams/_default'' 1
        (Some Lz4Frame)),
      qo_metadata = row_metadata, qo_retry_config = rc_retry flaky_cfg, qo_maintain_order = True\<rparr>"

lemma small_page:
  "inline_page small_response = Inr (Some [0])" "inline_schema small_response = Inr (Some [1])"
  "default_job_stream_path small_response = Inr ''projects/p/locations/us/jobs/j/streams/_default''"
  "has_remaining_rows small_response 1" "\<not> can_read_destination_table (query_new s) small_response"
  by (simp_all add: small_response_def inline_page_def inline_schema_def validate_non_empty_arrow_bytes_def
      default_job_stream_path_def extract_required_job_reference_def extract_job_reference_def Let_def
      has_remaining_rows_def can_read_destination_table_def query_new_def non_empty_str_def then_some_def)

lemma inline_read:
  "fst (query_read (toy_world small_response []) toy_client (query_new ''SELECT 1'') []) =
     Inr (Some (md_schema row_metadata, receiver_new True [0], QueryReader inline_task))"
proof -
  have count: "qr_job_complete small_response = Some True" "qr_page_row_count small_response = 1"
    by (simp_all add: small_response_def)
  have query: "sv_query (wd_services (toy_world small_response [])) log req = Inr small_response" for log req
    by (simp add: world_defs)
  show ?thesis
    by (simp add: query_read_def run_query_def io_bind_call query route_response_def count small_page
        u64_try_from_def read_completed_def spawn_query_stream_def Let_def)
      (simp add: world_defs row_ipc_def parse_arrow_schema_def inline_task_def row_metadata_def query_new_def
        arrow_buffer_compression_def DEFAULT_COMPRESSION_def client_retry_config_def)
qed

theorem ordered_query_one_stream_witness:
  "single_ordered_stream (QueryReader inline_task)"
  using ordered_query_one_stream [OF _ inline_read] by (simp add: query_new_def)

theorem inline_page_then_rest_witness:
  "qr_results small_response = Some (ArrowRecordBatch (qo_first_page_bytes inline_task))
   \<and> (\<exists>rr. qo_read_rows inline_task = Some rr \<and> rr_offset rr = 1)"
  using inline_page_then_rest [OF inline_read] small_page(4)
  by (auto simp: world_defs inline_task_def prepare_read_rows_def Let_def split: if_splits)

section \<open>A table read in parallel\<close>

definition large_response :: query_response where
  "large_response = small_response\<lparr>qr_total_rows := Some 40000000\<rparr>"

definition unordered :: query where
  "unordered = with_maintain_order (query_new ''SELECT 1'') False"

definition session_task :: "string \<Rightarrow> read_stream_options" where
  "session_task name =
     \<lparr>ro_read_rows = prepare_read_rows toy_client name 0 None, ro_current_offset = 0,
      ro_metadata = Some row_metadata, ro_schema_tx = False, ro_first_page_check = None,
      ro_retry_config = rc_retry flaky_cfg, ro_maintain_order = False\<rparr>"

lemma large_page:
  "inline_page large_response = Inr (Some [0])" "inline_schema large_response = Inr (Some [1])"
  "can_read_destination_table unordered large_response"
  "destination_table_read unordered large_response = Inr
     \<lparr>dt_project_id = ''p'', dt_job_id = ''j'', dt_location = ''us'', dt_read_options = default_read_options
        \<lparr>rd_maintain_order := False, rd_arrow_buffer_compression := Some Lz4Frame\<rparr>\<rparr>"
  by (simp_all add: large_response_def small_response_def inline_page_def inline_schema_def
      validate_non_empty_arrow_bytes_def destination_table_read_def extract_required_job_reference_def
      extract_job_reference_def Let_def can_read_destination_table_def unordered_def with_maintain_order_def
      query_new_def non_empty_str_def then_some_def arrow_buffer_compression_def DEFAULT_COMPRESSION_def)

lemma toy_session:
  "fst (destination_read pf row_ipc gx (toy_services response) toy_client
      \<lparr>dt_project_id = p, dt_job_id = j, dt_location = l, dt_read_options = options\<rparr> log)
   = Inr (md_schema row_metadata, receiver_new True [0, 1],
       map (\<lambda>n. session_task n\<lparr>ro_maintain_order := rd_maintain_order options\<rparr>) [''s1'', ''s2''])"
  by (simp add: destination_read_def resolve_def fetch_job_def io_bind_call toy_services_def
      extract_destination_table_def read_table_def prepare_table_read_session_def
      create_table_read_session_def Let_def io_bind_def call_def row_ipc_def parse_arrow_schema_def
      row_metadata_def session_task_def toy_client_def client_retry_config_def upt_conv_Cons)

lemma table_read:
  "fst (query_read (toy_world large_response []) toy_client unordered []) =
     Inr (Some (md_schema row_metadata, receiver_new True [0, 1],
       TableReaders [session_task ''s1'', session_task ''s2'']))"
proof -
  have large: "MULTI_STREAM_THRESHOLD_ROWS \<le> 40000000"
    by (simp add: MULTI_STREAM_THRESHOLD_ROWS_def MULTI_STREAM_THRESHOLD_BYTES_def MEDIAN_ROW_SIZE_BYTES_def)
  have response: "qr_job_complete large_response = Some True" "qr_page_row_count large_response = 1"
    "qr_total_rows large_response = Some 40000000"
    by (simp_all add: large_response_def small_response_def)
  have query: "sv_query (wd_services (toy_world large_response [])) log req = Inr large_response" for log req
    by (simp add: world_defs)
  have world: "wd_ipc (toy_world large_response []) = row_ipc"
    "wd_services (toy_world large_response []) = toy_services large_response"
    by (simp_all add: toy_world_def)
  obtain log' where session: "destination_read (wd_platform (toy_world large_response [])) row_ipc
      (wd_gax (toy_world large_response [])) (toy_services large_response) toy_client
      \<lparr>dt_project_id = ''p'', dt_job_id = ''j'', dt_location = ''us'', dt_read_options = default_read_options
        \<lparr>rd_maintain_order := False, rd_arrow_buffer_compression := Some Lz4Frame\<rparr>\<rparr>
      ([] @ [the_query_call (toy_world large_response []) toy_client unordered]) =
      (Inr (md_schema row_metadata, receiver_new True [0, 1], [session_task ''s1'', session_task ''s2'']), log')"
    using toy_session [of "wd_platform (toy_world large_response [])" "wd_gax (toy_world large_response [])"
        large_response "''p''" "''j''" "''us''" "default_read_options
        \<lparr>rd_maintain_order := False, rd_arrow_buffer_compression := Some Lz4Frame\<rparr>"]
    by (auto simp: session_task_def prod_eq_iff intro: that [OF prod_eqI])
  show ?thesis
    using session large query [of "[]"]
    by (simp add: query_read_def run_query_def io_bind_call world route_response_def response large_page
        u64_try_from_def the_query_call_def io_bind_Inr del: One_nat_def)
qed

theorem table_readers_only_when_large_witness:
  "session_reader (md_schema row_metadata) (session_task ''s1'')"
  using table_readers_only_when_large [OF table_read] by simp

section \<open>A schema learned, a cutover, and a page with its stream\<close>

definition learn_options :: stream_options where
  "learn_options = \<lparr>so_maintain_order = True, so_offset = 0, so_schema = None, so_arrow_buffer_compression = None\<rparr>"

definition learn_task :: job_stream_task where
  "learn_task = \<lparr>jt_options =
     \<lparr>ro_read_rows = prepare_read_rows toy_client ''s'' 0 None, ro_current_offset = 0, ro_metadata = None,
      ro_schema_tx = True, ro_first_page_check = None, ro_retry_config = rc_retry flaky_cfg,
      ro_maintain_order = True\<rparr>, jt_fallback = None\<rparr>"

lemma learn_effects:
  "read_stream row_ipc gax_ref (replicate 2 flaky_in) 0 (jt_options learn_task) =
     ([Connect (prepare_read_rows toy_client ''s'' 0 None), SendSchema (Inr (Some (md_schema row_metadata))),
       ThrottlerSuccess, PushJob (row_job 0 1)], None)"
  by (simp add: replicate_2 learn_task_def read_stream_def reader_of_def scenario_defs flaky_defs Let_def
      prepare_read_rows_def toy_client_def)

lemma learn_opened:
  "read_stream_with_first_page_check (toy_world small_response (replicate 2 flaky_in)) toy_client ''s''
     learn_options None = Some (Inr (Some (md_schema row_metadata), receiver_new True [0], learn_task))"
proof -
  have w: "wd_ipc (toy_world small_response (replicate 2 flaky_in)) = row_ipc"
    "wd_gax (toy_world small_response (replicate 2 flaky_in)) = gax_ref"
    "wd_inputs (toy_world small_response (replicate 2 flaky_in)) = replicate 2 flaky_in"
    "wd_now (toy_world small_response (replicate 2 flaky_in)) = 0"
    by (simp_all add: toy_world_def)
  have task: "\<lparr>ro_read_rows = prepare_read_rows toy_client ''s'' 0 None, ro_current_offset = 0,
      ro_metadata = None, ro_schema_tx = True, ro_first_page_check = None,
      ro_retry_config = client_retry_config toy_client, ro_maintain_order = True\<rparr> = jt_options learn_task"
    by (simp add: learn_task_def client_retry_config_def toy_client_def)
  show ?thesis
    using learn_effects
    by (simp add: read_stream_with_first_page_check_def learn_options_def w Let_def task)
      (simp add: learn_task_def client_retry_config_def toy_client_def)
qed

lemma schema_of_every_payload_at_work:
  "md_schema (dj_metadata (row_job 0 1)) = md_schema row_metadata"
  using schema_of_every_payload [OF learn_opened, of _ None "row_job 0 1"] learn_effects
  by (simp add: toy_world_def)

definition toy_read :: deferred_read where
  "toy_read = \<lparr>dt_project_id = ''p'', dt_job_id = ''j'', dt_location = ''us'', dt_read_options = default_read_options\<rparr>"

definition cutover_task :: job_stream_task where
  "cutover_task = learn_task\<lparr>jt_options := (jt_options learn_task)\<lparr>ro_first_page_check := Some tiny_check\<rparr>,
     jt_fallback := Some toy_read\<rparr>"

definition cutover_effects :: "effect list" where
  "cutover_effects = [Connect (prepare_read_rows toy_client ''s'' 0 None),
     SendSchema (Inr (Some (md_schema row_metadata)))]"

lemma cutover_stream:
  "read_stream row_ipc gax_ref (replicate 2 flaky_in) 0 (jt_options cutover_task) =
     (cutover_effects, Some SwitchToReadSession)"
  using tiny_estimate
  by (simp add: replicate_2 cutover_effects_def cutover_task_def learn_task_def read_stream_def reader_of_def
      scenario_defs flaky_defs Let_def prepare_read_rows_def toy_client_def tiny_check_def u64_try_from_def)

lemma cutover_run:
  "fst (run_job_stream_task (toy_world small_response (replicate 2 flaky_in)) toy_client cutover_task []) =
     (cutover_effects, Some SwitchToReadSession, [session_task ''s1'', session_task ''s2''])"
proof -
  have w: "wd_ipc (toy_world small_response (replicate 2 flaky_in)) = row_ipc"
    "wd_gax (toy_world small_response (replicate 2 flaky_in)) = gax_ref"
    "wd_inputs (toy_world small_response (replicate 2 flaky_in)) = replicate 2 flaky_in"
    "wd_now (toy_world small_response (replicate 2 flaky_in)) = 0"
    "wd_services (toy_world small_response (replicate 2 flaky_in)) = toy_services small_response"
    by (simp_all add: toy_world_def)
  have "jt_fallback cutover_task = Some toy_read" by (simp add: cutover_task_def)
  then show ?thesis
    by (simp add: run_job_stream_task_def w cutover_stream)
      (simp add: switch_to_read_session_def w resolve_def fetch_job_def toy_read_def toy_services_def
        extract_destination_table_def prepare_table_read_session_def create_table_read_session_def Let_def
        io_bind_def call_def row_ipc_def parse_arrow_schema_def row_metadata_def session_task_def
        toy_client_def client_retry_config_def default_read_options_def)
qed

theorem cutover_reads_table_once_witness:
  "queued_rows cutover_effects = 0 \<and> clean cutover_effects"
proof -
  obtain log' where "run_job_stream_task (toy_world small_response (replicate 2 flaky_in)) toy_client cutover_task []
      = ((cutover_effects, Some SwitchToReadSession, [session_task ''s1'', session_task ''s2'']), log')"
    using cutover_run by (metis prod.collapse)
  from cutover_reads_table_once [OF this] show ?thesis
    by (auto simp: cutover_task_def toy_read_def default_read_options_def split: prod.splits sum.splits)
qed

definition tail_task :: read_query_stream_options where
  "tail_task = inline_task\<lparr>qo_read_rows := Some rows_request\<rparr>"

lemma replicate_3: "replicate 3 x = [x, x, x]"
  by (simp add: numeral_eq_Suc)

lemma tail_run:
  "read_query_stream row_ipc gax_ref Reserved (replicate 3 flaky_in) 0 tail_task =
     ([PushJob (row_job 0 1), Connect (rows_request\<lparr>rr_offset := 1\<rparr>), ThrottlerSuccess, PushJob (row_job 1 3),
       ThrottlerSuccess], True)"
  by (simp add: replicate_3 tail_task_def inline_task_def read_query_stream_def read_stream_def reader_of_def
      scenario_defs flaky_defs Let_def)

theorem inline_page_and_stream_cover_result_witness:
  "tiles row_slice 0 [row_job 0 1, row_job 1 3] 3"
  using inline_page_and_stream_cover_result [OF tail_run, of row_slice 3]
  by (simp add: flaky_honest flaky_undisturbed tail_task_def inline_task_def row_slices)

section \<open>A stream that fails before its schema\<close>

text \<open>The server refuses the stream, and the job turns out to have failed.\<close>

definition first_error :: error_proto where
  "first_error = \<lparr>ep_reason = ''invalidQuery'', ep_location = ''q'', ep_message = ''no such table'', ep_debug_info = []\<rparr>"

definition refused_world :: world where
  "refused_world = (toy_world small_response [failing_in forbidden])\<lparr>wd_services := (toy_services small_response)
     \<lparr>sv_get_job := (\<lambda>log req. Inr
        \<lparr>jb_configuration = None, jb_status = Some \<lparr>js_error_result = Some first_error, js_errors = [first_error]\<rparr>,
         jb_statistics = None\<rparr>)\<rparr>\<rparr>"

definition refused_options :: stream_options where
  "refused_options = \<lparr>so_maintain_order = q_maintain_order (query_new ''SELECT 1''), so_offset = 0, so_schema = None,
     so_arrow_buffer_compression = Some (arrow_buffer_compression (query_new ''SELECT 1''))\<rparr>"

lemma refused_stream:
  "read_stream_with_first_page_check refused_world toy_client ''s'' refused_options None = Some (Inl (Grpc forbidden))"
  by (simp add: read_stream_with_first_page_check_def refused_world_def refused_options_def world_defs Let_def
      read_stream_def reader_of_def client_retry_config_def failing_in_def forbidden_def scenario_defs flaky_defs)

theorem job_error_resolution_witness:
  "fst (read_job_stream_or_table refused_world toy_client (query_new ''SELECT 1'') small_response ''s'' None []) =
     Inl (job_failure ''p'' ''j'' (Some ''us'') first_error [first_error])"
proof -
  have ref: "extract_job_reference small_response = (Some ''p'', Some ''j'', Some ''us'')"
    by (simp add: extract_job_reference_def small_response_def Let_def non_empty_str_def then_some_def opt_or_def)
  from job_error_resolution [OF _ refused_stream [unfolded refused_options_def], of small_response "[]"]
  show ?thesis
    by (simp add: small_page(5) ref) (simp add: refused_world_def)
qed

end
