(* ===== verification/Read_System_Examples.thy ===== *)
theory Read_System_Examples
  imports Read_System_Rows Read_System_Progress Read_System_Schema Query_Examples
begin

text \<open>
  Whole reads evaluated action by action: the flaky server of three rows read in order by one
  stream, the same server read by two unordered streams, a read that is dropped, and a query that
  cuts over to its table.
\<close>

section \<open>An ordered read with a reconnection\<close>

definition row_world :: world where
  "row_world = narrow_world\<lparr>wd_ipc := row_ipc\<rparr>"

definition row_options :: "bool \<Rightarrow> read_stream_options" where
  "row_options ordered = narrow_options\<lparr>ro_metadata := Some row_metadata, ro_maintain_order := ordered\<rparr>"

definition row_read :: "bool \<Rightarrow> nat \<Rightarrow> read_system" where
  "row_read ordered n =
     start_read row_world narrow_client [] (receiver_new True [0]) (TableReaders (replicate n (row_options ordered)))"

definition acts :: "nat \<Rightarrow> nat \<Rightarrow> read_action list" where
  "acts k n = ReaderStep k flaky_in # replicate n (Perform k)"

definition first_actions :: "nat \<Rightarrow> read_action list" where
  "first_actions k = acts k 1 @ acts k 2 @ acts k 2 @ acts k 0 @ acts k 1"

definition row_actions :: "read_action list" where
  "row_actions = first_actions 0 @ replicate 5 (Work 0 0) @ [Recv]
     @ acts 0 2 @ replicate 5 (Work 0 0) @ [Recv] @ acts 0 1
     @ replicate 3 (Work 0 0) @ [TaskEnds 0, Recv, Recv]"

lemma replicate_n: "replicate 3 x = [x, x, x]" "replicate 4 x = [x, x, x, x]" "replicate 5 x = [x, x, x, x, x]"
  "replicate 6 x = [x, x, x, x, x, x]"
  by (simp_all add: eval_nat_numeral)

definition parallel_actions :: "read_action list" where
  "parallel_actions = first_actions 0 @ first_actions 1 @ replicate 4 (Work 1 0) @ [Recv] @ replicate 4 (Work 0 0)
     @ acts 0 2 @ acts 0 1 @ [TaskEnds 0, Recv] @ replicate 6 (Work 0 0) @ [Recv, Recv]
     @ acts 1 2 @ acts 1 1 @ [TaskEnds 1] @ replicate 6 (Work 1 0) @ replicate 3 Recv"

definition row_source :: lane_source where
  "row_source = \<lparr>so_slice = row_slice, so_rows = 3, so_first = 0\<rparr>"

lemmas row_defs = row_read_def row_world_def row_options_def acts_def first_actions_def replicate_n replicate_2
  narrow_defs

lemmas row_step_defs = scenario_defs flaky_defs system_step_defs sys_run_def

lemmas row_result_defs = rows_seen_def oks_def errs_def clean_end_def batch_rows_def row_batch_def List.map_filter_def

lemma row_decode:
  "decode_arrow_record_batches row_ipc [0] 1 row_metadata = Inr [row_batch 0]"
  "decode_arrow_record_batches row_ipc [1, 2] 2 row_metadata = Inr [row_batch 1, row_batch 2]"
  by (simp_all add: decode_arrow_record_batches_def row_ipc_def row_batch_def checked_add_i64_def)

lemma row_run:
  "case sys_run row_actions (row_read True 1) of Some s \<Rightarrow> clean_end s | None \<Rightarrow> False"
  by (simp add: row_actions_def row_defs row_step_defs row_decode row_result_defs
      del: row_ipc_def row_metadata_def)

lemma parallel_run:
  "case sys_run parallel_actions (row_read False 2) of
     Some s \<Rightarrow> clean_end s \<and> rows_seen batch_rows s = [0, 0, 1, 2, 1, 2] | None \<Rightarrow> False"
  by (simp add: parallel_actions_def row_defs row_step_defs row_decode row_result_defs
      del: row_ipc_def row_metadata_def)

lemma row_source_table: "source_of_table (wd_ipc row_world) row_metadata batch_rows row_source three_rows"
  using row_serves by (simp add: source_of_table_def row_source_def row_world_def three_rows_def)

lemma row_read_started:
  "row_read ordered n = start_read row_world narrow_client [] (receiver_new True [0])
     (TableReaders (replicate n (row_options ordered)))"
  by (rule row_read_def)

lemma row_reads_sources:
  "reads_sources row_metadata (TableReaders [row_options ordered]) [row_source]"
  "reads_sources row_metadata (TableReaders [row_options ordered, row_options ordered]) [row_source, row_source]"
  by (simp_all add: stream_opens_def row_options_def narrow_options_def row_source_def)

lemma row_honest: "honest_for row_source flaky_in"
  using flaky_honest by (simp add: honest_for_def row_source_def)

lemma row_actions_honest: "\<forall>a \<in> set row_actions. inputs_ok (honest_inputs [row_source]) a"
  by (simp add: row_actions_def first_actions_def acts_def replicate_n honest_inputs_def row_honest)

lemma parallel_actions_honest: "\<forall>a \<in> set parallel_actions. inputs_ok (honest_inputs [row_source, row_source]) a"
  by (simp add: parallel_actions_def first_actions_def acts_def honest_inputs_def row_honest)

theorem ordered_consumer_sees_table_witness:
  "\<exists>s. sys_run row_actions (row_read True 1) = Some s \<and> clean_end s \<and> rows_seen batch_rows s = three_rows"
proof -
  obtain s where s: "sys_run row_actions (row_read True 1) = Some s" "clean_end s"
    using row_run by (auto split: option.splits)
  have "rows_of_source row_source three_rows = three_rows" by (simp add: rows_of_source_def row_source_def)
  with ordered_consumer_sees_table [OF row_reads_sources(1) _ s(1) [unfolded row_read_started, simplified]
      row_actions_honest row_source_table] s show ?thesis
    by (simp add: row_options_def narrow_options_def)
qed

theorem parallel_consumer_sees_rows_once_witness:
  "\<exists>s. sys_run parallel_actions (row_read False 2) = Some s \<and> clean_end s
     \<and> mset (rows_seen batch_rows s) = {#0, 0, 1, 1, 2, 2#}"
proof -
  obtain s where s: "sys_run parallel_actions (row_read False 2) = Some s" "clean_end s"
    using parallel_run by (auto split: option.splits)
  have "rows_of_source row_source three_rows = three_rows" by (simp add: rows_of_source_def row_source_def)
  moreover have "mset (three_rows @ three_rows) = {#0, 0, 1, 1, 2, 2#}" by (simp add: three_rows_def)
  ultimately show ?thesis
    using parallel_consumer_sees_rows_once [OF row_reads_sources(2)
        s(1) [unfolded row_read_started replicate_2] parallel_actions_honest, where rows = batch_rows and tbls = "[three_rows, three_rows]"]
      row_source_table s by auto
qed

section \<open>One batch per payload\<close>

text \<open>The reader waits for the second slot while the first payload is not yet decoded.\<close>

definition whole_ipc :: ipc where
  "whole_ipc = \<lparr>ipc_read_metadata = (\<lambda>bs. Inr \<lparr>md_schema = [], md_ipc = bs\<rparr>),
     ipc_stream = (\<lambda>bs md. [Inr (Some_batch (toy_batch (length bs)))])\<rparr>"

lemma whole_ipc_single: "single_batch whole_ipc"
  by (auto simp: single_batch_def whole_ipc_def toy_batch_def decode_arrow_record_batches_def split: sum.splits option.splits if_splits)

definition whole_read :: read_system where
  "whole_read = start_read (narrow_world\<lparr>wd_ipc := whole_ipc\<rparr>) narrow_client [] (receiver_new True [0])
     (TableReaders [narrow_options])"

theorem consumer_never_stuck_witness:
  "\<exists>s a. sys_run (fill_actions @ [ReaderStep 0 two_batch_in, Perform 0]) whole_read = Some s
     \<and> sys_step Recv s = None \<and> sys_step (Perform 0) s = None \<and> task_action a \<and> sys_step a s \<noteq> None"
proof -
  let ?as = "fill_actions @ [ReaderStep 0 two_batch_in, Perform 0]"
  have "case sys_run ?as whole_read of
      Some s \<Rightarrow> sys_step Recv s = None \<and> sys_step (Perform 0) s = None | None \<Rightarrow> False"
    by (simp add: sys_run_def fill_actions_def page_log_def whole_read_def narrow_defs system_step_defs
      two_batch_in_def two_batch_page_def two_batch_job_def
      step_def step_connecting_def step_reading_def read_response_def read_page_def response_metadata_def
      extract_response_arrow_bytes_def validate_non_empty_arrow_bytes_def check_first_page_def checked_add_i64_def
      rows_request_def)
  then obtain s where s: "sys_run ?as whole_read = Some s" "sys_step Recv s = None" "sys_step (Perform 0) s = None"
    by (auto split: option.splits)
  from consumer_never_stuck [OF _ s(1) [unfolded whole_read_def] s(2)] whole_ipc_single s show ?thesis by auto
qed

section \<open>Dropping the receiver of a read that hangs\<close>

definition drained :: read_system where
  "drained = (narrow_system [toy_batch 1] True
     ((narrow_lane (Terminated Finished) False [] []
        (Connect rows_request # page_log @ page_log @ page_log @ [ThrottlerSuccess])
        [two_batch_job, two_batch_job, two_batch_job] [toy_batch 1])\<lparr>ln_queue := oq_new\<rparr>))
        \<lparr>sy_rx := receiver_abort (sy_rx deadlocked), sy_dropped := True\<rparr>"

definition dropped :: read_system where
  "dropped = deadlocked\<lparr>sy_rx := receiver_abort (sy_rx deadlocked), sy_dropped := True\<rparr>"

lemma dropped_run: "sys_run (fill_actions @ block_actions @ [Abort]) narrow_read = Some dropped"
  using fill_run block_run by (simp add: sys_run_def run_actions_append dropped_def)

lemma drain_run: "sys_run (replicate 6 (Work 0 0)) dropped = Some drained"
  by (simp add: replicate_n sys_run_def drained_def dropped_def deadlocked_def narrow_defs system_step_defs
      receiver_abort_def two_batch_job_def)

lemma drained_stuck: "stuck drained"
  unfolding stuck_def
proof (intro allI impI)
  fix a assume "task_action a"
  then show "sys_step a drained = None"
    by (cases a) (auto simp: gr0_conv_Suc nth_Cons split: nat.split
        simp: task_action_def drained_def narrow_system_def narrow_lane_def start_system_def
        do_step_def do_perform_def do_end_def lane_work_def Let_def)
qed

theorem dropped_read_stops_witness:
  "sys_run (replicate 6 (Work 0 0)) dropped = Some drained \<and> 6 \<le> sys_rank dropped \<and> \<not> senders_alive drained"
proof -
  have "rx_closed (sy_rx dropped)" by (simp add: dropped_def receiver_abort_def Let_def)
  moreover have "\<forall>a \<in> set (replicate 6 (Work 0 0)). task_action a" by (simp add: task_action_def)
  ultimately show ?thesis
    using dropped_read_stops [OF dropped_run [unfolded narrow_read_def]] drain_run drained_stuck by fastforce
qed

section \<open>The schema of a query that cuts over\<close>

text \<open>
  An unordered query whose job still runs: the default stream announces the schema and a page of one
  byte and one row out of three billion, so its reader switches, and the session's readers read on.
\<close>

definition schema_ipc :: ipc where
  "schema_ipc = row_ipc\<lparr>ipc_stream :=
     (\<lambda>bs md. map (\<lambda>b. Inr (Some_batch ((row_batch b)\<lparr>rb_schema := md_schema md\<rparr>))) bs)\<rparr>"

definition cut_response :: query_response where
  "cut_response = small_response\<lparr>qr_job_complete := Some False\<rparr>"

definition big_in :: step_in where
  "big_in = flaky_in\<lparr>in_send := (\<lambda>req. Inr [Inr ((page_response 0 1)\<lparr>rsp_total_estimated_row_count := Some 3000000000\<rparr>)])\<rparr>"

definition cut_world :: world where
  "cut_world = (toy_world cut_response (replicate 2 big_in))\<lparr>wd_ipc := schema_ipc\<rparr>"

definition cut_read_session :: deferred_read where
  "cut_read_session = \<lparr>dt_project_id = ''p'', dt_job_id = ''j'', dt_location = ''us'',
     dt_read_options = default_read_options\<lparr>rd_maintain_order := False, rd_arrow_buffer_compression := Some Lz4Frame\<rparr>\<rparr>"

definition cut_task :: job_stream_task where
  "cut_task = \<lparr>jt_options =
     \<lparr>ro_read_rows = prepare_read_rows toy_client ''projects/p/locations/us/jobs/j/streams/_default'' 0 (Some Lz4Frame),
      ro_current_offset = 0, ro_metadata = None, ro_schema_tx = True,
      ro_first_page_check = Some \<lparr>fp_threshold_bytes = MULTI_STREAM_THRESHOLD_BYTES, fp_fallback_total_rows = Some 3\<rparr>,
      ro_retry_config = rc_retry flaky_cfg, ro_maintain_order = False\<rparr>,
     jt_fallback = Some cut_read_session\<rparr>"

lemma cut_page:
  "qr_job_complete cut_response = Some False" "qr_total_rows cut_response = Some 3"
  "default_job_stream_path cut_response = Inr ''projects/p/locations/us/jobs/j/streams/_default''"
  "can_read_destination_table unordered cut_response"
  "destination_table_read unordered cut_response = Inr cut_read_session"
  by (simp_all add: cut_response_def cut_read_session_def small_response_def default_job_stream_path_def
      destination_table_read_def extract_required_job_reference_def extract_job_reference_def Let_def
      can_read_destination_table_def unordered_def with_maintain_order_def query_new_def non_empty_str_def
      then_some_def arrow_buffer_compression_def DEFAULT_COMPRESSION_def)

lemma big_estimate: "f64_ge (estimate_remaining_bytes [0] 1 (Some 3000000000)) MULTI_STREAM_THRESHOLD_BYTES"
  unfolding threshold_reals by (rule estimate_reaches) simp_all

lemma big_verdict:
  "check_first_page (Some \<lparr>fp_threshold_bytes = MULTI_STREAM_THRESHOLD_BYTES, fp_fallback_total_rows = fb\<rparr>) [0] 1
     (Some 3000000000) = PageSwitch"
  using big_estimate by (simp add: check_first_page_def u64_try_from_def opt_filter_def opt_or_def)

lemmas cut_step_defs = step_def step_connecting_def step_reading_def read_response_def read_page_def
  response_metadata_def extract_response_arrow_bytes_def validate_non_empty_arrow_bytes_def parse_arrow_schema_def
  new_reader_def new_retry_state_def checked_add_i64_def big_in_def flaky_in_def flaky_send_def page_response_def
  row_slices big_verdict

lemma cut_stream:
  "read_stream schema_ipc gax_ref (replicate 2 big_in) 0 (jt_options cut_task) =
     ([Connect (ro_read_rows (jt_options cut_task)), SendSchema (Inr (Some (md_schema row_metadata)))],
      Some SwitchToReadSession)"
  by (simp add: replicate_2 cut_task_def read_stream_def reader_of_def cut_step_defs Let_def prepare_read_rows_def
      toy_client_def schema_ipc_def row_ipc_def row_metadata_def)

lemma cut_query_read:
  "fst (query_read cut_world toy_client unordered []) =
     Inr (Some (md_schema row_metadata, receiver_new True [0], JobStream cut_task))"
proof -
  have w: "wd_ipc cut_world = schema_ipc" "wd_gax cut_world = gax_ref" "wd_now cut_world = 0"
    "wd_inputs cut_world = replicate 2 big_in"
    "sv_query (wd_services cut_world) log req = Inr cut_response" for log req
    by (simp_all add: cut_world_def world_defs)
  have q: "q_maintain_order unordered = False" "arrow_buffer_compression unordered = Lz4Frame"
    by (simp_all add: unordered_def with_maintain_order_def query_new_def arrow_buffer_compression_def
        DEFAULT_COMPRESSION_def)
  have task: "\<lparr>ro_read_rows = prepare_read_rows toy_client ''projects/p/locations/us/jobs/j/streams/_default'' 0
          (Some Lz4Frame),
        ro_current_offset = 0, ro_metadata = None, ro_schema_tx = True,
        ro_first_page_check = Some \<lparr>fp_threshold_bytes = MULTI_STREAM_THRESHOLD_BYTES, fp_fallback_total_rows = Some 3\<rparr>,
        ro_retry_config = client_retry_config toy_client, ro_maintain_order = False\<rparr> = jt_options cut_task"
    by (simp add: cut_task_def client_retry_config_def toy_client_def)
  have opened: "read_stream_with_first_page_check cut_world toy_client
      ''projects/p/locations/us/jobs/j/streams/_default''
      \<lparr>so_maintain_order = False, so_offset = 0, so_schema = None, so_arrow_buffer_compression = Some Lz4Frame\<rparr>
      (Some (\<lparr>fp_threshold_bytes = MULTI_STREAM_THRESHOLD_BYTES, fp_fallback_total_rows = Some 3\<rparr>, cut_read_session))
      = Some (Inr (Some (md_schema row_metadata), receiver_new True [0], cut_task))"
    using cut_stream
    by (simp add: read_stream_with_first_page_check_def w Let_def task) (simp add: cut_task_def client_retry_config_def toy_client_def)
  show ?thesis
    by (simp add: query_read_def run_query_def io_bind_call w route_response_def cut_page
        read_job_stream_or_table_def q opened)
qed

lemma cut_session:
  "fst (open_session cut_world toy_client cut_read_session log) =
     Inr (md_schema row_metadata, [session_task ''s1'', session_task ''s2''])"
  by (simp add: open_session_def cut_world_def toy_world_def cut_read_session_def resolve_def fetch_job_def
      toy_services_def extract_destination_table_def prepare_table_read_session_def create_table_read_session_def
      Let_def io_bind_def call_def schema_ipc_def row_ipc_def parse_arrow_schema_def row_metadata_def
      session_task_def toy_client_def client_retry_config_def default_read_options_def)

definition cut_actions :: "read_action list" where
  "cut_actions = [ReaderStep 0 big_in, Perform 0, ReaderStep 0 big_in, Perform 0, TaskEnds 0,
     ReaderStep 1 big_in, Perform 1, ReaderStep 1 big_in, Perform 1, Perform 1, Work 1 0, Work 1 0, Work 1 0, Recv]"

lemma schema_decode:
  "decode_arrow_record_batches schema_ipc [0] 1 row_metadata = Inr [(row_batch 0)\<lparr>rb_schema := md_schema row_metadata\<rparr>]"
  by (simp add: decode_arrow_record_batches_def schema_ipc_def row_batch_def checked_add_i64_def)

lemma cut_start:
  "start_read cut_world toy_client [] (receiver_new True [0]) (JobStream cut_task) =
     start_system (channel_size (wd_platform cut_world)) (receiver_new True [0])
       [stream_lane schema_ipc gax_ref 0 (jt_options cut_task)]
       (Some (Inr [stream_lane schema_ipc gax_ref 0 (session_task ''s1''), stream_lane schema_ipc gax_ref 0 (session_task ''s2'')]))"
proof -
  have w: "wd_ipc cut_world = schema_ipc" "wd_gax cut_world = gax_ref" "wd_now cut_world = 0"
    by (simp_all add: cut_world_def toy_world_def)
  have "jt_fallback cut_task = Some cut_read_session" by (simp add: cut_task_def)
  then show ?thesis by (simp add: start_read_def w Let_def switch_opens cut_session)
qed

lemma cut_world_run:
  "case sys_run cut_actions (start_read cut_world toy_client [] (receiver_new True [0]) (JobStream cut_task)) of
     Some s \<Rightarrow> sy_fallback s = None \<and> sy_schema s = [Inr (Some (md_schema row_metadata))]
       \<and> oks (sy_got s) = [(row_batch 0)\<lparr>rb_schema := md_schema row_metadata\<rparr>]
   | None \<Rightarrow> False"
proof -
  have md: "parse_arrow_schema schema_ipc [1] = Inr row_metadata"
    by (simp add: parse_arrow_schema_def schema_ipc_def row_ipc_def row_metadata_def)
  have slots: "channel_size (wd_platform cut_world) = 8"
    by (simp add: channel_size_def cut_world_def toy_world_def)
  show ?thesis
    unfolding cut_start slots cut_actions_def
    by (simp add: start_system_def stream_lane_def new_lane_def reader_cfg_of_def reader_of_def oq_new_def
        receiver_new_def cut_task_def session_task_def prepare_read_rows_def toy_client_def md
        system_step_defs sys_run_def schema_decode oks_def List.map_filter_def
        step_def step_connecting_def step_reading_def read_response_def read_page_def
        response_metadata_def extract_response_arrow_bytes_def validate_non_empty_arrow_bytes_def
        new_reader_def new_retry_state_def checked_add_i64_def big_in_def flaky_in_def flaky_send_def page_response_def
        row_slices big_verdict check_first_page_def [of None])
qed

theorem every_batch_has_the_schema_witness:
  "\<exists>s b. sys_run cut_actions (start_read cut_world toy_client [] (receiver_new True [0]) (JobStream cut_task)) = Some s
    \<and> cut_over True s \<and> oks (sy_got s) = [b]
    \<and> Some (rb_schema b) = session_schema cut_world toy_client [] (JobStream cut_task)"
proof -
  obtain s b where s: "sys_run cut_actions
      (start_read cut_world toy_client [] (receiver_new True [0]) (JobStream cut_task)) = Some s"
    "sy_fallback s = None" "sy_schema s = [Inr (Some (md_schema row_metadata))]" "oks (sy_got s) = [b]"
    using cut_world_run by (auto split: option.splits)
  have ipc: "\<forall>bs m b. Inr (Some_batch b) \<in> set (ipc_stream (wd_ipc cut_world) bs m) \<longrightarrow> rb_schema b = md_schema m"
    by (auto simp: cut_world_def schema_ipc_def)
  have "fallback_of (JobStream cut_task) \<noteq> None" by (simp add: cut_task_def)
  with s have "cut_over True s" "cut_over (fallback_of (JobStream cut_task) \<noteq> None) s"
    by (simp_all add: cut_over_def)
  with every_batch_has_the_schema [OF ipc cut_query_read s(1), of b] s show ?thesis by auto
qed

end
