(* ===== verification/Auth.thy ===== *)
theory Auth
  imports Prelude
begin

text \<open>
  The token source of the Python credentials
  (\<open>py-arrow-bigquery/src/auth.rs\<close>): the token a Python call yields, its deadlines, the cache
  with its cooldown, and the protocol of \<open>headers\<close> with its refresh lock, detached task, blocking
  worker and timeout, as one atomic action per access to shared state. Instants and durations
  are nanoseconds, a UTC time is nanoseconds since the epoch.
\<close>

section \<open>Constants and small functions\<close>

definition SOFT_EXPIRY_BUFFER :: nat where "SOFT_EXPIRY_BUFFER = 120 * 10 ^ 9"
definition HARD_EXPIRY_BUFFER :: nat where "HARD_EXPIRY_BUFFER = 60 * 10 ^ 9"
definition DEFAULT_REFRESH_TIMEOUT :: nat where "DEFAULT_REFRESH_TIMEOUT = 30 * 10 ^ 9"
definition DEFAULT_SOFT_REFRESH_BASE_COOLDOWN :: nat where "DEFAULT_SOFT_REFRESH_BASE_COOLDOWN = 10 ^ 9"
definition MAX_SOFT_REFRESH_COOLDOWN :: nat where "MAX_SOFT_REFRESH_COOLDOWN = 30 * 10 ^ 9"

definition is_transient_python_error :: "py_err \<Rightarrow> bool" where
  "is_transient_python_error err =
     (if \<not> is_instance_of PyException err then False
      else if is_instance_of PyTypeError err \<or> is_instance_of PyValueError err
              \<or> is_instance_of PyKeyError err \<or> is_instance_of PyAttributeError err
              \<or> is_instance_of PyImportError err \<or> is_instance_of PyNotImplementedError err
              \<or> is_instance_of PySyntaxError err then False
      else True)"

datatype freshness = Fresh | SoftExpired | HardExpired

text \<open>Freshness only gets worse: the order in which the states follow each other.\<close>

instantiation freshness :: linorder
begin

definition rank_of :: "freshness \<Rightarrow> nat" where
  "rank_of f = (case f of Fresh \<Rightarrow> 0 | SoftExpired \<Rightarrow> 1 | HardExpired \<Rightarrow> 2)"

definition less_eq_freshness :: "freshness \<Rightarrow> freshness \<Rightarrow> bool" where
  "less_eq_freshness a b \<longleftrightarrow> rank_of a \<le> rank_of b"

definition less_freshness :: "freshness \<Rightarrow> freshness \<Rightarrow> bool" where
  "less_freshness a b \<longleftrightarrow> rank_of a < rank_of b"

instance
  by standard (auto simp: less_eq_freshness_def less_freshness_def rank_of_def split: freshness.splits)

end

record token_deadlines =
  td_soft_expiry :: nat
  td_hard_expiry :: nat

definition from_utc_expiry :: "int \<Rightarrow> int \<Rightarrow> nat \<Rightarrow> token_deadlines" where
  "from_utc_expiry expiry now_utc now_instant =
     (let remaining = nat (expiry - now_utc)
      in \<lparr>td_soft_expiry = now_instant + (remaining - SOFT_EXPIRY_BUFFER),
          td_hard_expiry = now_instant + (remaining - HARD_EXPIRY_BUFFER)\<rparr>)"

definition deadlines_freshness :: "token_deadlines \<Rightarrow> nat \<Rightarrow> freshness" where
  "deadlines_freshness d now =
     (if now < td_soft_expiry d then Fresh
      else if now < td_hard_expiry d then SoftExpired
      else HardExpired)"

text \<open>The headers hold one authorization value; an entity tag is a number.\<close>

record cached_token =
  ct_headers :: string
  ct_deadlines :: "token_deadlines option"
  ct_entity_tag :: nat

definition token_freshness :: "cached_token \<Rightarrow> nat \<Rightarrow> freshness" where
  "token_freshness t now =
     (case ct_deadlines t of Some d \<Rightarrow> deadlines_freshness d now | None \<Rightarrow> Fresh)"

datatype cacheable_resource = NotModified | New nat string

definition to_cacheable_resource :: "cached_token \<Rightarrow> nat option \<Rightarrow> cacheable_resource" where
  "to_cacheable_resource t extension =
     (case extension of
        Some tag \<Rightarrow> if ct_entity_tag t = tag then NotModified else New (ct_entity_tag t) (ct_headers t)
      | None \<Rightarrow> New (ct_entity_tag t) (ct_headers t))"

record cache_state =
  cs_token :: "cached_token option"
  cs_soft_refresh_failures :: u32
  cs_next_soft_refresh_at :: "nat option"

definition empty_cache :: cache_state where
  "empty_cache = \<lparr>cs_token = None, cs_soft_refresh_failures = 0, cs_next_soft_refresh_at = None\<rparr>"

definition can_attempt_soft_refresh :: "cache_state \<Rightarrow> nat \<Rightarrow> bool" where
  "can_attempt_soft_refresh c now = (case cs_next_soft_refresh_at c of None \<Rightarrow> True | Some t \<Rightarrow> t \<le> now)"

definition record_soft_refresh_failure :: "cache_state \<Rightarrow> nat \<Rightarrow> nat \<Rightarrow> nat \<times> cache_state" where
  "record_soft_refresh_failure c now base_cooldown =
     (let shift = min (cs_soft_refresh_failures c) 5;
          failures = saturating_add_u32 (cs_soft_refresh_failures c) 1;
          cooldown = min (base_cooldown * unat (push_bit (unat shift) (1 :: u32))) MAX_SOFT_REFRESH_COOLDOWN
      in (cooldown, c\<lparr>cs_soft_refresh_failures := failures,
                      cs_next_soft_refresh_at := Some (now + cooldown)\<rparr>))"

section \<open>The token of a Python call\<close>

record cred_error =
  ce_transient :: bool
  ce_message :: string
  ce_source :: "py_err option"

definition cred_new :: "bool \<Rightarrow> string \<Rightarrow> py_err \<Rightarrow> cred_error" where
  "cred_new transient msg source = \<lparr>ce_transient = transient, ce_message = msg, ce_source = Some source\<rparr>"

definition cred_from_msg :: "bool \<Rightarrow> string \<Rightarrow> cred_error" where
  "cred_from_msg transient msg = \<lparr>ce_transient = transient, ce_message = msg, ce_source = None\<rparr>"

text \<open>
  A float as the code observes it: finiteness, sign, and the two casts of its integral and
  fractional parts. A string may hold surrogates that are no UTF-8.
\<close>

record py_float =
  fl_finite :: bool
  fl_negative :: bool
  fl_secs :: i64
  fl_nsecs :: u32

datatype py_value =
    PyTuple "py_value list"
  | PyStr "string option"
  | PyDict "(string \<times> py_value) list"
  | PyNone
  | PyNumber py_float
  | PyObject nat

text \<open>Python and third-party operations: indexing, conversion to a float, the errors of a tuple
  index and of a string that is no UTF-8, chrono's timestamps and http's header values.\<close>

record auth_api =
  aa_get_item :: "py_value \<Rightarrow> string \<Rightarrow> (py_err, py_value) res"
  aa_extract_f64 :: "py_value \<Rightarrow> (py_err, py_float) res"
  aa_index_error :: py_err
  aa_unicode_error :: py_err
  aa_from_timestamp :: "i64 \<Rightarrow> u32 \<Rightarrow> int option"
  aa_header_from_str :: "string \<Rightarrow> (py_err, string) res"

definition tuple_item :: "auth_api \<Rightarrow> py_value list \<Rightarrow> nat \<Rightarrow> (py_err, py_value) res" where
  "tuple_item aa xs i = (if i < length xs then Inr (xs ! i) else Inl (aa_index_error aa))"

definition token_expiry ::
  "auth_api \<Rightarrow> py_value \<Rightarrow> int \<Rightarrow> nat \<Rightarrow> (cred_error, token_deadlines option) res" where
  "token_expiry aa expiration now_utc now =
     (if expiration = PyNone then Inr None
      else rbind (rmap_err (cred_new False ''expiration must be a float/int timestamp or None'')
                    (aa_extract_f64 aa expiration)) (\<lambda>expiry_f.
        if \<not> fl_finite expiry_f \<or> fl_negative expiry_f
        then Inl (cred_from_msg False ''expiration timestamp is out of range'')
        else rbind (ok_or (cred_from_msg False ''expiration timestamp is out of range'')
                      (aa_from_timestamp aa (fl_secs expiry_f) (fl_nsecs expiry_f))) (\<lambda>dt.
          Inr (Some (from_utc_expiry dt now_utc now)))))"

definition quoted :: "string \<Rightarrow> string" where
  "quoted s = CHR 0x27 # s @ [CHR 0x27]"

definition bearer_token :: "auth_api \<Rightarrow> py_value \<Rightarrow> (cred_error, string) res" where
  "bearer_token aa token_data =
     rbind (rmap_err (cred_new False (''token_data missing '' @ quoted ''bearer_token'' @ '' key''))
              (aa_get_item aa token_data ''bearer_token'')) (\<lambda>v.
       case v of
         PyStr (Some s) \<Rightarrow> Inr s
       | PyStr None \<Rightarrow> Inl (cred_new False (quoted ''bearer_token'' @ '' is not valid UTF-8'') (aa_unicode_error aa))
       | _ \<Rightarrow> Inl (cred_from_msg False (quoted ''bearer_token'' @ '' must be a string'')))"

text \<open>\<open>result\<close> is what calling the provider gave; \<open>tag\<close> is the fresh entity tag.\<close>

definition fetch_from_python ::
  "auth_api \<Rightarrow> (py_err, py_value) res \<Rightarrow> int \<Rightarrow> nat \<Rightarrow> nat \<Rightarrow> (cred_error, cached_token) res" where
  "fetch_from_python aa result now_utc now tag =
     rbind (case result of
              Inr v \<Rightarrow> Inr v
            | Inl err \<Rightarrow> Inl (cred_new (is_transient_python_error err)
                (''Python credentials provider failed: '' @ py_text err) err)) (\<lambda>v.
     rbind (case v of
              PyTuple xs \<Rightarrow> Inr xs
            | _ \<Rightarrow> Inl (cred_from_msg False
                ''Python credentials provider must return a 2-tuple (token_data, expiration)'')) (\<lambda>xs.
     rbind (rmap_err (cred_new False ''Python credentials provider tuple missing token_data at index 0'')
              (tuple_item aa xs 0)) (\<lambda>token_data.
     rbind (rmap_err (cred_new False ''Python credentials provider tuple missing expiration at index 1'')
              (tuple_item aa xs 1)) (\<lambda>expiration.
     rbind (bearer_token aa token_data) (\<lambda>bearer.
       if bearer = [] then Inl (cred_from_msg False ''invalid bearer token header value'')
       else
         rbind (token_expiry aa expiration now_utc now) (\<lambda>deadlines.
         rbind (rmap_err (cred_new False ''invalid bearer token header value'')
                  (aa_header_from_str aa (''Bearer '' @ bearer))) (\<lambda>header_value.
           Inr \<lparr>ct_headers = header_value, ct_deadlines = deadlines, ct_entity_tag = tag\<rparr>)))))))"

section \<open>The parts of a request for headers\<close>

text \<open>The first part, under the read lock: serve, serve and perhaps refresh, or wait.\<close>

datatype first_outcome = Serve cacheable_resource | ServeStale cacheable_resource bool | MustWait

definition headers_first :: "cache_state \<Rightarrow> nat \<Rightarrow> nat option \<Rightarrow> first_outcome" where
  "headers_first c now extension =
     (case cs_token c of
        None \<Rightarrow> MustWait
      | Some cached \<Rightarrow>
          (case token_freshness cached now of
             Fresh \<Rightarrow> Serve (to_cacheable_resource cached extension)
           | SoftExpired \<Rightarrow> ServeStale (to_cacheable_resource cached extension) (can_attempt_soft_refresh c now)
           | HardExpired \<Rightarrow> MustWait))"

text \<open>The check of the background task once it has the guard, and that of a waiting caller.\<close>

definition should_refresh :: "cache_state \<Rightarrow> nat \<Rightarrow> bool" where
  "should_refresh c now \<longleftrightarrow> can_attempt_soft_refresh c now
     \<and> (case cs_token c of Some t \<Rightarrow> token_freshness t now \<noteq> Fresh | None \<Rightarrow> False)"

definition double_check :: "cache_state \<Rightarrow> nat \<Rightarrow> nat option \<Rightarrow> cacheable_resource option" where
  "double_check c now extension =
     (case cs_token c of
        Some cached \<Rightarrow>
          if token_freshness cached now \<noteq> HardExpired then Some (to_cacheable_resource cached extension) else None
      | None \<Rightarrow> None)"

section \<open>Refreshes\<close>

text \<open>
  A refresh from taking the guard on: it checks the cache, then waits for its worker or the
  timeout, then has released the guard. The worker calls Python, checks the flag, takes the
  write lock and reads the flag again, and writes. A worker whose coordinator timed out runs on.
\<close>

datatype refresh_phase = Checking | Refreshing | Released

datatype worker =
    NotStarted
  | Calling
  | Fetched cached_token
  | Passed cached_token
  | InLock cached_token bool
  | Finished_worker "(cred_error, cacheable_resource) res"

record refresh =
  rf_background :: bool
  rf_phase :: refresh_phase
  rf_worker :: worker
  rf_timed_out :: bool
  rf_result :: "(cred_error, cacheable_resource) res option"
  rf_recorded :: bool

text \<open>The token source with its configuration: the cache and its write lock, the refresh lock and
  how many callers wait for it. A refresh is named by its position; \<open>ts_installed\<close> is the history
  of the refreshes that wrote their token.\<close>

record token_source =
  ts_refresh_timeout :: nat
  ts_base_cooldown :: nat
  ts_cache :: cache_state
  ts_guard :: "nat option"
  ts_writer :: "nat option"
  ts_waiting :: nat
  ts_refreshes :: "refresh list"
  ts_installed :: "(nat \<times> cached_token) list"

definition source_with_config :: "nat \<Rightarrow> nat \<Rightarrow> token_source" where
  "source_with_config refresh_timeout soft_refresh_base_cooldown =
     \<lparr>ts_refresh_timeout = refresh_timeout, ts_base_cooldown = soft_refresh_base_cooldown,
      ts_cache = empty_cache, ts_guard = None, ts_writer = None, ts_waiting = 0, ts_refreshes = [],
      ts_installed = []\<rparr>"

definition source_new :: token_source where
  "source_new = source_with_config DEFAULT_REFRESH_TIMEOUT DEFAULT_SOFT_REFRESH_BASE_COOLDOWN"

definition new_refresh :: "bool \<Rightarrow> refresh" where
  "new_refresh background = \<lparr>rf_background = background, rf_phase = Checking, rf_worker = NotStarted,
     rf_timed_out = False, rf_result = None, rf_recorded = False\<rparr>"

definition nth_refresh :: "token_source \<Rightarrow> nat \<Rightarrow> refresh option" where
  "nth_refresh s k = (if k < length (ts_refreshes s) then Some (ts_refreshes s ! k) else None)"

definition put :: "nat \<Rightarrow> refresh \<Rightarrow> token_source \<Rightarrow> token_source" where
  "put k r s = s\<lparr>ts_refreshes := (ts_refreshes s)[k := r]\<rparr>"

text \<open>Ending a refresh with a result for its caller drops the guard.\<close>

definition release ::
  "nat \<Rightarrow> refresh \<Rightarrow> (cred_error, cacheable_resource) res option \<Rightarrow> token_source \<Rightarrow> token_source" where
  "release k r result s = (put k (r\<lparr>rf_phase := Released, rf_result := result\<rparr>) s)\<lparr>ts_guard := None\<rparr>"

definition take_guard :: "bool \<Rightarrow> token_source \<Rightarrow> token_source" where
  "take_guard background s =
     (if ts_guard s = None
      then s\<lparr>ts_guard := Some (length (ts_refreshes s)),
             ts_refreshes := ts_refreshes s @ [new_refresh background]\<rparr>
      else s)"

text \<open>A caller reads the cache: it is served, or served while a background refresh is started when
  the lock is free, or queues for the lock.\<close>

definition call_headers :: "nat \<Rightarrow> nat option \<Rightarrow> token_source \<Rightarrow> token_source" where
  "call_headers now extension s =
     (if ts_writer s \<noteq> None then s
      else case headers_first (ts_cache s) now extension of
             Serve resource \<Rightarrow> s
           | ServeStale resource can_attempt \<Rightarrow> if can_attempt then take_guard True s else s
           | MustWait \<Rightarrow> s\<lparr>ts_waiting := ts_waiting s + 1\<rparr>)"

definition lock_refresh :: "token_source \<Rightarrow> token_source" where
  "lock_refresh s =
     (if 0 < ts_waiting s \<and> ts_guard s = None
      then (take_guard False s)\<lparr>ts_waiting := ts_waiting s - 1\<rparr>
      else s)"

text \<open>A caller that is cancelled while it waits leaves the queue.\<close>

definition cancel_waiting :: "token_source \<Rightarrow> token_source" where
  "cancel_waiting s = s\<lparr>ts_waiting := ts_waiting s - 1\<rparr>"

definition check_cache :: "nat \<Rightarrow> nat \<Rightarrow> nat option \<Rightarrow> token_source \<Rightarrow> token_source" where
  "check_cache k now extension s =
     (case nth_refresh s k of
        Some r \<Rightarrow>
          if rf_phase r = Checking \<and> ts_writer s = None
          then let start = put k (r\<lparr>rf_phase := Refreshing, rf_worker := Calling\<rparr>) s
               in if rf_background r
                  then (if should_refresh (ts_cache s) now then start else release k r None s)
                  else (case double_check (ts_cache s) now extension of
                          Some resource \<Rightarrow> release k r (Some (Inr resource)) s
                        | None \<Rightarrow> start)
          else s
      | None \<Rightarrow> s)"

definition late_error :: cred_error where
  "late_error = cred_from_msg True ''Python credentials provider refresh completed after timeout''"

definition timeout_error :: "nat \<Rightarrow> cred_error" where
  "timeout_error refresh_timeout = cred_from_msg True
     (''Python credentials provider timed out after '' @ show_nat (refresh_timeout div 10 ^ 6) @ ''ms'')"

definition python_returns :: "nat \<Rightarrow> (cred_error, cached_token) res \<Rightarrow> token_source \<Rightarrow> token_source" where
  "python_returns k outcome s =
     (case nth_refresh s k of
        Some r \<Rightarrow>
          if rf_worker r = Calling
          then (case outcome of
                  Inl e \<Rightarrow> put k (r\<lparr>rf_worker := Finished_worker (Inl e)\<rparr>) s
                | Inr cached \<Rightarrow> put k (r\<lparr>rf_worker := Fetched cached\<rparr>) s)
          else s
      | None \<Rightarrow> s)"

definition first_check :: "nat \<Rightarrow> token_source \<Rightarrow> token_source" where
  "first_check k s =
     (case nth_refresh s k of
        Some r \<Rightarrow>
          (case rf_worker r of
             Fetched cached \<Rightarrow>
               if rf_timed_out r then put k (r\<lparr>rf_worker := Finished_worker (Inl late_error)\<rparr>) s
               else put k (r\<lparr>rf_worker := Passed cached\<rparr>) s
           | _ \<Rightarrow> s)
      | None \<Rightarrow> s)"

definition take_lock :: "nat \<Rightarrow> token_source \<Rightarrow> token_source" where
  "take_lock k s =
     (case nth_refresh s k of
        Some r \<Rightarrow>
          (case rf_worker r of
             Passed cached \<Rightarrow>
               if ts_writer s = None
               then (put k (r\<lparr>rf_worker := InLock cached (rf_timed_out r)\<rparr>) s)\<lparr>ts_writer := Some k\<rparr>
               else s
           | _ \<Rightarrow> s)
      | None \<Rightarrow> s)"

definition install :: "cached_token \<Rightarrow> cache_state \<Rightarrow> cache_state" where
  "install cached c = c\<lparr>cs_token := Some cached, cs_soft_refresh_failures := 0,
                        cs_next_soft_refresh_at := None\<rparr>"

definition write_token :: "nat \<Rightarrow> token_source \<Rightarrow> token_source" where
  "write_token k s =
     (case nth_refresh s k of
        Some r \<Rightarrow>
          (case rf_worker r of
             InLock cached timed_out \<Rightarrow>
               let response = New (ct_entity_tag cached) (ct_headers cached);
                   s' = (put k (r\<lparr>rf_worker := Finished_worker (Inr response)\<rparr>) s)\<lparr>ts_writer := None\<rparr>
               in if timed_out then s'
                  else s'\<lparr>ts_cache := install cached (ts_cache s), ts_installed := ts_installed s @ [(k, cached)]\<rparr>
           | _ \<Rightarrow> s)
      | None \<Rightarrow> s)"

definition time_out :: "nat \<Rightarrow> token_source \<Rightarrow> token_source" where
  "time_out k s =
     (case nth_refresh s k of
        Some r \<Rightarrow>
          if rf_phase r = Refreshing \<and> (case rf_worker r of Finished_worker _ \<Rightarrow> False | _ \<Rightarrow> True)
          then release k (r\<lparr>rf_timed_out := True\<rparr>) (Some (Inl (timeout_error (ts_refresh_timeout s)))) s
          else s
      | None \<Rightarrow> s)"

definition join_worker :: "nat \<Rightarrow> token_source \<Rightarrow> token_source" where
  "join_worker k s =
     (case nth_refresh s k of
        Some r \<Rightarrow>
          if rf_phase r = Refreshing
          then (case rf_worker r of Finished_worker result \<Rightarrow> release k r (Some result) s | _ \<Rightarrow> s)
          else s
      | None \<Rightarrow> s)"

text \<open>The background task has its result only after the guard is gone, and then takes the write lock.\<close>

definition record_failure :: "nat \<Rightarrow> nat \<Rightarrow> token_source \<Rightarrow> token_source" where
  "record_failure k now s =
     (case nth_refresh s k of
        Some r \<Rightarrow>
          if rf_background r \<and> rf_phase r = Released \<and> \<not> rf_recorded r \<and> ts_writer s = None
          then (case rf_result r of
                  Some (Inl e) \<Rightarrow>
                    (put k (r\<lparr>rf_recorded := True\<rparr>) s)
                      \<lparr>ts_cache := snd (record_soft_refresh_failure (ts_cache s) now (ts_base_cooldown s))\<rparr>
                | _ \<Rightarrow> s)
          else s
      | None \<Rightarrow> s)"

text \<open>
  The actions, with what the outside decides in each: the instant, the extension of a caller,
  the outcome of the Python call. An action that is not enabled changes nothing.
\<close>

datatype action =
    CallHeaders nat "nat option"
  | LockRefresh
  | CancelWaiting
  | CheckCache nat nat "nat option"
  | PythonReturns nat "(cred_error, cached_token) res"
  | FirstCheck nat
  | TakeLock nat
  | WriteToken nat
  | TimeOut nat
  | JoinWorker nat
  | RecordFailure nat nat

fun auth_step :: "action \<Rightarrow> token_source \<Rightarrow> token_source" where
  "auth_step (CallHeaders now extension) s = call_headers now extension s"
| "auth_step LockRefresh s = lock_refresh s"
| "auth_step CancelWaiting s = cancel_waiting s"
| "auth_step (CheckCache k now extension) s = check_cache k now extension s"
| "auth_step (PythonReturns k outcome) s = python_returns k outcome s"
| "auth_step (FirstCheck k) s = first_check k s"
| "auth_step (TakeLock k) s = take_lock k s"
| "auth_step (WriteToken k) s = write_token k s"
| "auth_step (TimeOut k) s = time_out k s"
| "auth_step (JoinWorker k) s = join_worker k s"
| "auth_step (RecordFailure k now) s = record_failure k now s"

text \<open>What the source tells about itself: no universe domain, and a debug text without the token.\<close>

definition universe_domain :: "token_source \<Rightarrow> string option" where
  "universe_domain s = None"

definition token_source_debug :: "token_source \<Rightarrow> string" where
  "token_source_debug s =
     ''PythonTokenSource { provider: '' @ [CHR 0x22] @ ''<python_callable>'' @ [CHR 0x22] @ '' }''"

end
