(* ===== verification/Auth_Proofs.thy ===== *)
theory Auth_Proofs
  imports Auth
begin

text \<open>
  The refresh protocol of the token source under every interleaving of its actions: the refresh
  lock admits one coordinator at a time, a worker that outlives its timeout never replaces a newer
  token, and a token that arrived in time is never lost. Then the freshness of a token against its
  real expiry, the cooldown between background refreshes and the classification of errors.
\<close>

section \<open>The invariant of the protocol\<close>

definition idle :: "worker \<Rightarrow> bool" where
  "idle w = (case w of NotStarted \<Rightarrow> True | Finished_worker _ \<Rightarrow> True | _ \<Rightarrow> False)"

text \<open>What holds of refresh \<open>k\<close>, given the holder of the guard, the writer and the history.\<close>

definition refresh_ok ::
  "nat option \<Rightarrow> nat option \<Rightarrow> (nat \<times> cached_token) list \<Rightarrow> nat \<Rightarrow> refresh \<Rightarrow> bool" where
  "refresh_ok g w is k r \<longleftrightarrow>
     (rf_phase r \<noteq> Released \<longrightarrow> g = Some k) \<and>
     (rf_phase r = Checking \<longrightarrow> rf_worker r = NotStarted) \<and>
     (rf_phase r = Released \<and> \<not> rf_timed_out r \<longrightarrow> idle (rf_worker r)) \<and>
     (rf_timed_out r \<longrightarrow> rf_phase r = Released) \<and>
     (case rf_worker r of
        InLock c late \<Rightarrow> w = Some k \<and> (if late then rf_timed_out r else \<forall>j \<in> fst ` set is. j < k)
      | Finished_worker (Inr _) \<Rightarrow> rf_timed_out r \<or> k \<in> fst ` set is
      | _ \<Rightarrow> True) \<and>
     (k \<in> fst ` set is \<longrightarrow> (\<exists>x. rf_worker r = Finished_worker (Inr x)))"

definition token_of :: "(nat \<times> cached_token) list \<Rightarrow> cached_token option" where
  "token_of is = (if is = [] then None else Some (snd (last is)))"

definition auth_inv :: "token_source \<Rightarrow> bool" where
  "auth_inv s \<longleftrightarrow>
     (\<forall>k r. nth_refresh s k = Some r \<longrightarrow> refresh_ok (ts_guard s) (ts_writer s) (ts_installed s) k r) \<and>
     (\<forall>g. ts_guard s = Some g \<longrightarrow> Suc g = length (ts_refreshes s)) \<and>
     (\<forall>j \<in> fst ` set (ts_installed s). j < length (ts_refreshes s)) \<and>
     sorted_wrt (<) (map fst (ts_installed s)) \<and>
     cs_token (ts_cache s) = token_of (ts_installed s)"

lemma auth_invD:
  assumes "auth_inv s"
  shows "nth_refresh s k = Some r \<Longrightarrow> refresh_ok (ts_guard s) (ts_writer s) (ts_installed s) k r"
    and "ts_guard s = Some g \<Longrightarrow> Suc g = length (ts_refreshes s)"
    and "j \<in> fst ` set (ts_installed s) \<Longrightarrow> j < length (ts_refreshes s)"
    and "sorted_wrt (<) (map fst (ts_installed s))"
    and "cs_token (ts_cache s) = token_of (ts_installed s)"
  using assms unfolding auth_inv_def by blast+

text \<open>An action that changes one refresh keeps the invariant when it keeps that of the refresh, and
  the guard, the writer and the history change in a way the others do not see.\<close>

lemma auth_inv_put:
  assumes inv: "auth_inv s" and k: "nth_refresh s k = Some r"
    and s': "ts_refreshes s' = (ts_refreshes s)[k := r']"
    and mine: "refresh_ok (ts_guard s') (ts_writer s') (ts_installed s') k r'"
    and others: "\<And>j q. j \<noteq> k \<Longrightarrow> refresh_ok (ts_guard s) (ts_writer s) (ts_installed s) j q \<Longrightarrow>
      refresh_ok (ts_guard s') (ts_writer s') (ts_installed s') j q"
    and guard: "ts_guard s' = ts_guard s \<or> ts_guard s' = None"
    and hist: "ts_installed s' = ts_installed s \<and> cs_token (ts_cache s') = cs_token (ts_cache s)
      \<or> (\<exists>c. ts_installed s' = ts_installed s @ [(k, c)] \<and> cs_token (ts_cache s') = Some c
            \<and> (\<forall>j \<in> fst ` set (ts_installed s). j < k))"
  shows "auth_inv s'"
proof -
  from k have kl: "k < length (ts_refreshes s)" by (simp add: nth_refresh_def split: if_splits)
  have refreshes: "refresh_ok (ts_guard s') (ts_writer s') (ts_installed s') j q"
    if "nth_refresh s' j = Some q" for j q
  proof (cases "j = k")
    case True
    with that kl mine show ?thesis by (simp add: nth_refresh_def s' split: if_splits)
  next
    case False
    with that have "nth_refresh s j = Some q" by (simp add: nth_refresh_def s' split: if_splits)
    from others [OF False auth_invD(1) [OF inv this]] show ?thesis .
  qed
  have g: "Suc h = length (ts_refreshes s')" if "ts_guard s' = Some h" for h
    using guard that auth_invD(2) [OF inv, of h] by (auto simp: s')
  have lens: "\<forall>j \<in> fst ` set (ts_installed s'). j < length (ts_refreshes s')"
  proof -
    have "fst ` set (ts_installed s') \<subseteq> insert k (fst ` set (ts_installed s))"
      using hist by auto
    with auth_invD(3) [OF inv] kl show ?thesis unfolding s' length_list_update by blast
  qed
  have sorted: "sorted_wrt (<) (map fst (ts_installed s'))"
    using hist auth_invD(4) [OF inv] by (auto simp: sorted_wrt_append)
  have token: "cs_token (ts_cache s') = token_of (ts_installed s')"
    using hist auth_invD(5) [OF inv] by (auto simp: token_of_def)
  show ?thesis
    unfolding auth_inv_def using refreshes g lens sorted token by blast
qed

lemmas put_simps = put_def release_def

lemma guard_is_last:
  assumes "auth_inv s" "nth_refresh s k = Some r" "rf_phase r \<noteq> Released"
  shows "ts_guard s = Some k" "Suc k = length (ts_refreshes s)"
  using auth_invD(1) [OF assms(1,2)] auth_invD(2) [OF assms(1), of k] assms(3)
  by (simp_all add: refresh_ok_def)

lemma auth_inv_release:
  assumes inv: "auth_inv s" and k: "nth_refresh s k = Some r" and ph: "rf_phase r \<noteq> Released"
    and r': "rf_worker r' = rf_worker r" "rf_timed_out r' \<or> (idle (rf_worker r) \<and> \<not> rf_timed_out r')"
  shows "auth_inv (release k r' x s)"
proof (rule auth_inv_put [OF inv k])
  have g: "ts_guard s = Some k" using guard_is_last [OF inv k ph] by simp
  show "ts_refreshes (release k r' x s) = (ts_refreshes s)[k := r'\<lparr>rf_phase := Released, rf_result := x\<rparr>]"
    by (simp add: put_simps)
  have ok: "refresh_ok (ts_guard s) (ts_writer s) (ts_installed s) k r" by (rule auth_invD(1) [OF inv k])
  then have "\<not> rf_timed_out r" using ph by (simp add: refresh_ok_def)
  with ok ph r' show "refresh_ok (ts_guard (release k r' x s)) (ts_writer (release k r' x s))
      (ts_installed (release k r' x s)) k (r'\<lparr>rf_phase := Released, rf_result := x\<rparr>)"
    by (auto simp: put_simps refresh_ok_def idle_def split: worker.splits sum.splits if_splits)
  show "refresh_ok (ts_guard (release k r' x s)) (ts_writer (release k r' x s))
      (ts_installed (release k r' x s)) j q"
    if "j \<noteq> k" "refresh_ok (ts_guard s) (ts_writer s) (ts_installed s) j q" for j q
    using that g by (simp add: put_simps refresh_ok_def)
qed (simp_all add: put_simps)


section \<open>Every action keeps the invariant\<close>

lemma nth_refresh_same:
  "ts_refreshes s' = ts_refreshes s \<Longrightarrow> nth_refresh s' k = nth_refresh s k"
  by (simp add: nth_refresh_def)

lemma auth_inv_same:
  assumes "auth_inv s" "ts_refreshes s' = ts_refreshes s" "ts_guard s' = ts_guard s"
    "ts_writer s' = ts_writer s" "ts_installed s' = ts_installed s"
    "cs_token (ts_cache s') = cs_token (ts_cache s)"
  shows "auth_inv s'"
  using assms(1) unfolding auth_inv_def nth_refresh_same [OF assms(2)] assms(2-6) .

lemma not_installed_new:
  assumes "auth_inv s"
  shows "length (ts_refreshes s) \<notin> fst ` set (ts_installed s)"
  using auth_invD(3) [OF assms] by blast

lemma auth_inv_take_guard:
  assumes inv: "auth_inv s"
  shows "auth_inv (take_guard b s)"
proof (cases "ts_guard s")
  case None
  let ?s = "take_guard b s"
  have s': "ts_refreshes ?s = ts_refreshes s @ [new_refresh b]" "ts_guard ?s = Some (length (ts_refreshes s))"
    "ts_writer ?s = ts_writer s" "ts_installed ?s = ts_installed s" "ts_cache ?s = ts_cache s"
    using None by (simp_all add: take_guard_def)
  have "refresh_ok (ts_guard ?s) (ts_writer ?s) (ts_installed ?s) k r" if kr: "nth_refresh ?s k = Some r" for k r
  proof (cases "k = length (ts_refreshes s)")
    case True
    with kr have "r = new_refresh b" by (simp add: nth_refresh_def s')
    with True not_installed_new [OF inv] show ?thesis
      by (simp add: s' refresh_ok_def new_refresh_def)
  next
    case False
    with kr have "nth_refresh s k = Some r"
      by (auto simp: nth_refresh_def s' nth_append split: if_splits)
    from auth_invD(1) [OF inv this] show ?thesis by (simp add: refresh_ok_def s' None)
  qed
  moreover have "\<forall>j \<in> fst ` set (ts_installed ?s). j < length (ts_refreshes ?s)"
    using auth_invD(3) [OF inv] less_Suc_eq by (simp add: s')
  ultimately show ?thesis
    using auth_invD(4,5) [OF inv] unfolding auth_inv_def by (simp add: s')
qed (simp add: take_guard_def inv)

lemma auth_inv_call_headers: "auth_inv s \<Longrightarrow> auth_inv (call_headers now ext s)"
  by (auto simp: call_headers_def auth_inv_take_guard intro: auth_inv_same split: first_outcome.splits)

lemma auth_inv_lock_refresh: "auth_inv s \<Longrightarrow> auth_inv (lock_refresh s)"
  by (auto simp: lock_refresh_def intro: auth_inv_same [OF auth_inv_take_guard])

lemma auth_inv_cancel_waiting: "auth_inv s \<Longrightarrow> auth_inv (cancel_waiting s)"
  by (rule auth_inv_same) (simp_all add: cancel_waiting_def)

lemma auth_inv_worker:
  assumes inv: "auth_inv s" and k: "nth_refresh s k = Some r" and busy: "\<not> idle (rf_worker r)"
    and new: "\<And>c b. w' \<noteq> InLock c b" "w' \<noteq> NotStarted" "\<And>x. w' \<noteq> Finished_worker (Inr x)"
    and old: "\<And>c b. rf_worker r \<noteq> InLock c b"
    and late: "idle w' \<or> rf_timed_out r \<or> rf_phase r \<noteq> Released"
  shows "auth_inv (put k (r\<lparr>rf_worker := w'\<rparr>) s)"
proof (rule auth_inv_put [OF inv k])
  have ok: "refresh_ok (ts_guard s) (ts_writer s) (ts_installed s) k r" by (rule auth_invD(1) [OF inv k])
  then have "k \<notin> fst ` set (ts_installed s)" "rf_phase r \<noteq> Checking"
    using busy by (auto simp: refresh_ok_def idle_def)
  with ok new late show "refresh_ok (ts_guard (put k (r\<lparr>rf_worker := w'\<rparr>) s))
      (ts_writer (put k (r\<lparr>rf_worker := w'\<rparr>) s)) (ts_installed (put k (r\<lparr>rf_worker := w'\<rparr>) s)) k
      (r\<lparr>rf_worker := w'\<rparr>)"
    by (cases w') (auto simp: put_def refresh_ok_def split: sum.splits)
qed (simp_all add: put_def)

lemma auth_inv_python_returns:
  assumes inv: "auth_inv s"
  shows "auth_inv (python_returns k outcome s)"
proof -
  have "auth_inv (put k (r\<lparr>rf_worker := w\<rparr>) s)"
    if "nth_refresh s k = Some r" "rf_worker r = Calling" "w = Finished_worker (Inl e) \<or> w = Fetched c" for r w e c
  proof (rule auth_inv_worker [OF inv that(1)])
    have "refresh_ok (ts_guard s) (ts_writer s) (ts_installed s) k r" by (rule auth_invD(1) [OF inv that(1)])
    with that(2) show "idle w \<or> rf_timed_out r \<or> rf_phase r \<noteq> Released"
      by (auto simp: refresh_ok_def idle_def)
  qed (use that in \<open>auto simp: idle_def\<close>)
  with inv show ?thesis
    by (auto simp: python_returns_def split: option.splits sum.splits)
qed

lemma auth_inv_first_check:
  assumes inv: "auth_inv s"
  shows "auth_inv (first_check k s)"
proof -
  have "auth_inv (put k (r\<lparr>rf_worker := w\<rparr>) s)"
    if "nth_refresh s k = Some r" "rf_worker r = Fetched c"
      "w = Finished_worker (Inl late_error) \<or> w = Passed c" for r w c
  proof (rule auth_inv_worker [OF inv that(1)])
    have "refresh_ok (ts_guard s) (ts_writer s) (ts_installed s) k r" by (rule auth_invD(1) [OF inv that(1)])
    with that(2) show "idle w \<or> rf_timed_out r \<or> rf_phase r \<noteq> Released"
      by (auto simp: refresh_ok_def idle_def)
  qed (use that in \<open>auto simp: idle_def\<close>)
  with inv show ?thesis
    by (auto simp: first_check_def split: option.splits worker.splits)
qed


lemma auth_inv_check_cache:
  assumes inv: "auth_inv s"
  shows "auth_inv (check_cache k now ext s)"
proof -
  have rel: "auth_inv (release k r x s)"
    if "nth_refresh s k = Some r" "rf_phase r = Checking" for r x
  proof (rule auth_inv_release [OF inv that(1)])
    have "refresh_ok (ts_guard s) (ts_writer s) (ts_installed s) k r" by (rule auth_invD(1) [OF inv that(1)])
    with that(2) show "rf_timed_out r \<or> (idle (rf_worker r) \<and> \<not> rf_timed_out r)"
      by (simp add: refresh_ok_def idle_def)
  qed (use that in simp_all)
  have start: "auth_inv (put k (r\<lparr>rf_phase := Refreshing, rf_worker := Calling\<rparr>) s)"
    if "nth_refresh s k = Some r" "rf_phase r = Checking" for r
  proof (rule auth_inv_put [OF inv that(1)])
    let ?s = "put k (r\<lparr>rf_phase := Refreshing, rf_worker := Calling\<rparr>) s"
    have "refresh_ok (ts_guard s) (ts_writer s) (ts_installed s) k r" by (rule auth_invD(1) [OF inv that(1)])
    with that(2) show "refresh_ok (ts_guard ?s) (ts_writer ?s) (ts_installed ?s) k
        (r\<lparr>rf_phase := Refreshing, rf_worker := Calling\<rparr>)"
      by (auto simp: refresh_ok_def put_def)
  qed (simp_all add: put_def)
  show ?thesis
    using inv rel start by (simp add: check_cache_def Let_def split: option.split)
qed

lemma auth_inv_take_lock:
  assumes inv: "auth_inv s"
  shows "auth_inv (take_lock k s)"
proof -
  have "auth_inv ((put k (r\<lparr>rf_worker := InLock c (rf_timed_out r)\<rparr>) s)\<lparr>ts_writer := Some k\<rparr>)"
    if k: "nth_refresh s k = Some r" and w: "rf_worker r = Passed c" and free: "ts_writer s = None" for r c
  proof (rule auth_inv_put [OF inv k])
    let ?r = "r\<lparr>rf_worker := InLock c (rf_timed_out r)\<rparr>"
    let ?s = "(put k ?r s)\<lparr>ts_writer := Some k\<rparr>"
    have ok: "refresh_ok (ts_guard s) (ts_writer s) (ts_installed s) k r" by (rule auth_invD(1) [OF inv k])
    then have notin: "k \<notin> fst ` set (ts_installed s)" using w by (auto simp: refresh_ok_def)
    have older: "j < k" if "\<not> rf_timed_out r" "j \<in> fst ` set (ts_installed s)" for j
    proof -
      from ok w that(1) have "rf_phase r \<noteq> Released" by (auto simp: refresh_ok_def idle_def)
      from guard_is_last(2) [OF inv k this] auth_invD(3) [OF inv that(2)] have "j \<le> k" by simp
      with that(2) notin show ?thesis by (metis le_neq_implies_less)
    qed
    with ok w notin show "refresh_ok (ts_guard ?s) (ts_writer ?s) (ts_installed ?s) k ?r"
      unfolding refresh_ok_def put_def by (auto simp: idle_def)
    show "refresh_ok (ts_guard ?s) (ts_writer ?s) (ts_installed ?s) j q"
      if "refresh_ok (ts_guard s) (ts_writer s) (ts_installed s) j q" for j q
      using that free by (cases "rf_worker q") (simp_all add: refresh_ok_def put_def split: sum.splits)
  qed (simp_all add: put_def)
  with inv show ?thesis
    by (simp add: take_lock_def split: option.split worker.split)
qed

lemma auth_inv_write_token:
  assumes inv: "auth_inv s"
  shows "auth_inv (write_token k s)"
proof -
  have "auth_inv (let s' = (put k (r\<lparr>rf_worker := Finished_worker (Inr x)\<rparr>) s)\<lparr>ts_writer := None\<rparr>
      in if late then s' else s'\<lparr>ts_cache := install c (ts_cache s), ts_installed := ts_installed s @ [(k, c)]\<rparr>)"
    (is "auth_inv ?s")
    if k: "nth_refresh s k = Some r" and w: "rf_worker r = InLock c late" for r c late x
  proof (rule auth_inv_put [OF inv k])
    have ok: "refresh_ok (ts_guard s) (ts_writer s) (ts_installed s) k r" by (rule auth_invD(1) [OF inv k])
    then have writer: "ts_writer s = Some k"
      and older: "\<not> late \<Longrightarrow> \<forall>j \<in> fst ` set (ts_installed s). j < k"
      using w by (simp_all add: refresh_ok_def)
    from ok w show "refresh_ok (ts_guard ?s) (ts_writer ?s) (ts_installed ?s) k (r\<lparr>rf_worker := Finished_worker (Inr x)\<rparr>)"
      by (cases late) (auto simp: refresh_ok_def put_def idle_def Let_def)
    show "refresh_ok (ts_guard ?s) (ts_writer ?s) (ts_installed ?s) j q"
      if "j \<noteq> k" "refresh_ok (ts_guard s) (ts_writer s) (ts_installed s) j q" for j q
      using that writer by (cases "rf_worker q"; cases late) (simp_all add: refresh_ok_def put_def Let_def split: sum.splits)
    show "ts_installed ?s = ts_installed s \<and> cs_token (ts_cache ?s) = cs_token (ts_cache s)
      \<or> (\<exists>c. ts_installed ?s = ts_installed s @ [(k, c)] \<and> cs_token (ts_cache ?s) = Some c
            \<and> (\<forall>j \<in> fst ` set (ts_installed s). j < k))"
      using older by (cases late) (simp_all add: put_def Let_def install_def)
  qed (simp_all add: put_def Let_def)
  with inv show ?thesis
    unfolding write_token_def Let_def by (simp split: option.split worker.split)
qed

lemma auth_inv_time_out:
  assumes inv: "auth_inv s"
  shows "auth_inv (time_out k s)"
  using inv by (auto simp: time_out_def intro!: auth_inv_release [OF inv] split: option.split worker.splits)

lemma auth_inv_join_worker:
  assumes inv: "auth_inv s"
  shows "auth_inv (join_worker k s)"
proof -
  have "auth_inv (release k r x s)"
    if k: "nth_refresh s k = Some r" and "rf_phase r = Refreshing" "rf_worker r = Finished_worker y" for r x y
    by (rule auth_inv_release [OF inv k]) (use that in \<open>auto simp: idle_def\<close>)
  with inv show ?thesis
    by (simp add: join_worker_def split: option.split worker.split)
qed

lemma refresh_ok_recorded: "refresh_ok g w is k (r\<lparr>rf_recorded := b\<rparr>) = refresh_ok g w is k r"
  by (cases "rf_worker r") (simp_all add: refresh_ok_def split: sum.split)

lemma auth_inv_record_failure:
  assumes inv: "auth_inv s"
  shows "auth_inv (record_failure k now s)"
proof -
  have "auth_inv ((put k (r\<lparr>rf_recorded := True\<rparr>) s)
      \<lparr>ts_cache := snd (record_soft_refresh_failure (ts_cache s) now (ts_base_cooldown s))\<rparr>)"
    if k: "nth_refresh s k = Some r" for r
    by (rule auth_inv_put [OF inv k, where r' = "r\<lparr>rf_recorded := True\<rparr>"])
      (use auth_invD(1) [OF inv k] in
        \<open>simp_all add: put_def refresh_ok_recorded record_soft_refresh_failure_def Let_def\<close>)
  with inv show ?thesis
    by (simp add: record_failure_def split: option.split sum.split)
qed

lemma auth_inv_new: "auth_inv (source_with_config t c)"
  by (simp add: auth_inv_def source_with_config_def nth_refresh_def token_of_def empty_cache_def)

lemmas auth_inv_actions = auth_inv_call_headers auth_inv_lock_refresh auth_inv_cancel_waiting
  auth_inv_check_cache auth_inv_python_returns auth_inv_first_check auth_inv_take_lock
  auth_inv_write_token auth_inv_time_out auth_inv_join_worker auth_inv_record_failure

interpretation protocol: step_invariant auth_step "\<lambda>_. True" auth_inv
  by unfold_locales (case_tac i; simp add: auth_inv_actions)

lemma reachable_inv: "auth_inv (fold auth_step as (source_with_config t c))"
  by (rule protocol.inv_run) (simp_all add: auth_inv_new)


section \<open>What the protocol guarantees\<close>

text \<open>C17: At most one coordinator refreshes at any time, whatever the interleaving of callers, timeouts and
  workers: a refresh that is not released holds the refresh lock and is the newest one, every other
  refresh is released, and the worker of another one can be running only past its timeout.\<close>

theorem one_refresh_at_a_time:
  assumes s: "s = fold auth_step as (source_with_config t c)"
    and k: "nth_refresh s k = Some r" "rf_phase r \<noteq> Released"
  shows "ts_guard s = Some k \<and> Suc k = length (ts_refreshes s) \<and> \<not> rf_timed_out r
    \<and> (\<forall>j q. nth_refresh s j = Some q \<and> j \<noteq> k \<longrightarrow>
          rf_phase q = Released \<and> (idle (rf_worker q) \<or> rf_timed_out q))"
proof -
  have inv: "auth_inv s" unfolding s by (rule reachable_inv)
  have g: "ts_guard s = Some k" "Suc k = length (ts_refreshes s)" by (rule guard_is_last [OF inv k])+
  moreover have "\<not> rf_timed_out r" using auth_invD(1) [OF inv k(1)] k(2) by (simp add: refresh_ok_def)
  moreover have "rf_phase q = Released \<and> (idle (rf_worker q) \<or> rf_timed_out q)"
    if "nth_refresh s j = Some q" "j \<noteq> k" for j q
    using auth_invD(1) [OF inv that(1)] that(2) g(1) by (auto simp: refresh_ok_def)
  ultimately show ?thesis by blast
qed

text \<open>C16: The cache never goes back to an older token and never loses one: the refreshes that wrote their
  token did so in the order in which they took the lock, the cache holds the token of the last one,
  and a worker that got a token has written it unless its coordinator had timed out.\<close>

theorem newest_token_wins:
  assumes s: "s = fold auth_step as (source_with_config t c)"
  shows "sorted_wrt (<) (map fst (ts_installed s))
    \<and> cs_token (ts_cache s) = (if ts_installed s = [] then None else Some (snd (last (ts_installed s))))
    \<and> (\<forall>k r x. nth_refresh s k = Some r \<and> rf_worker r = Finished_worker (Inr x) \<longrightarrow>
          rf_timed_out r \<or> k \<in> fst ` set (ts_installed s))"
proof -
  have inv: "auth_inv s" unfolding s by (rule reachable_inv)
  have "rf_timed_out r \<or> k \<in> fst ` set (ts_installed s)"
    if "nth_refresh s k = Some r" "rf_worker r = Finished_worker (Inr x)" for k r x
    using auth_invD(1) [OF inv that(1)] that(2) by (simp add: refresh_ok_def)
  with auth_invD(4,5) [OF inv] show ?thesis unfolding token_of_def by blast
qed

lemma nth_refresh_ts_update [simp]:
  "nth_refresh (s\<lparr>ts_cache := c\<rparr>) k = nth_refresh s k"
  "nth_refresh (s\<lparr>ts_guard := g\<rparr>) k = nth_refresh s k"
  "nth_refresh (s\<lparr>ts_writer := w\<rparr>) k = nth_refresh s k"
  "nth_refresh (s\<lparr>ts_waiting := n\<rparr>) k = nth_refresh s k"
  "nth_refresh (s\<lparr>ts_installed := is\<rparr>) k = nth_refresh s k"
  by (simp_all add: nth_refresh_def)

lemma nth_refresh_put: "nth_refresh (put j r s) k = (if j = k \<and> nth_refresh s k \<noteq> None then Some r else nth_refresh s k)"
  by (auto simp: nth_refresh_def put_def)

lemma nth_refresh_release:
  "nth_refresh (release j r x s) k =
     (if j = k \<and> nth_refresh s k \<noteq> None then Some (r\<lparr>rf_phase := Released, rf_result := x\<rparr>) else nth_refresh s k)"
  by (simp add: release_def nth_refresh_put)

lemma nth_refresh_take_guard:
  "nth_refresh s k = Some r \<Longrightarrow> nth_refresh (take_guard b s) k = Some r"
  by (auto simp: nth_refresh_def take_guard_def nth_append split: if_splits)

lemmas nth_refresh_simps = nth_refresh_put nth_refresh_release nth_refresh_take_guard

text \<open>Only a check of the cache makes a worker call Python.\<close>

lemma worker_starts_in_check:
  assumes before: "nth_refresh s k = Some r" "rf_worker r \<noteq> Calling"
    and after: "nth_refresh (auth_step a s) k = Some r'" "rf_worker r' = Calling"
  shows "\<exists>now extension. a = CheckCache k now extension"
proof (cases a)
  case (CallHeaders now e)
  with assms show ?thesis
    by (auto simp: call_headers_def nth_refresh_take_guard split: if_splits first_outcome.splits)
next
  case LockRefresh
  with assms show ?thesis
    by (auto simp: lock_refresh_def nth_refresh_take_guard split: if_splits)
next
  case CancelWaiting
  with assms show ?thesis by (simp add: cancel_waiting_def)
next
  case (CheckCache j now e)
  with assms show ?thesis
    by (auto simp: check_cache_def Let_def nth_refresh_simps split: if_splits option.splits)
next
  case (PythonReturns j y)
  with assms show ?thesis
    by (auto simp: python_returns_def nth_refresh_simps split: if_splits option.splits sum.splits)
next
  case (FirstCheck j)
  with assms show ?thesis
    by (auto simp: first_check_def nth_refresh_simps split: if_splits option.splits worker.splits)
next
  case (TakeLock j)
  with assms show ?thesis
    by (auto simp: take_lock_def nth_refresh_simps split: if_splits option.splits worker.splits)
next
  case (WriteToken j)
  with assms show ?thesis
    by (auto simp: write_token_def Let_def nth_refresh_simps split: if_splits option.splits worker.splits)
next
  case (TimeOut j)
  with assms show ?thesis
    by (auto simp: time_out_def nth_refresh_simps split: if_splits option.splits)
next
  case (JoinWorker j)
  with assms show ?thesis
    by (auto simp: join_worker_def nth_refresh_simps split: if_splits option.splits worker.splits)
next
  case (RecordFailure j now)
  with assms show ?thesis
    by (auto simp: record_failure_def nth_refresh_simps split: if_splits option.splits sum.splits)
qed

lemma check_cache_starts:
  assumes "nth_refresh s k = Some r" "rf_worker r \<noteq> Calling"
    "nth_refresh (check_cache k now e s) k = Some r'" "rf_worker r' = Calling"
  shows "if rf_background r then should_refresh (ts_cache s) now else double_check (ts_cache s) now e = None"
  using assms by (auto simp: check_cache_def Let_def nth_refresh_simps split: if_splits option.splits)

text \<open>C32: Python is called only when a refresh is needed, for any state and any action: a worker starts
  its call only while no token that is still fresh is cached; a background one only past the
  cooldown of earlier failures, and a waiting one only when the cache cannot serve it.\<close>

theorem python_called_only_when_needed:
  assumes before: "nth_refresh s k = Some r" "rf_worker r \<noteq> Calling"
    and after: "nth_refresh (auth_step a s) k = Some r'" "rf_worker r' = Calling"
  shows "\<exists>now extension. a = CheckCache k now extension
    \<and> (if rf_background r then can_attempt_soft_refresh (ts_cache s) now
         \<and> (\<exists>t. cs_token (ts_cache s) = Some t \<and> token_freshness t now \<noteq> Fresh)
       else (case cs_token (ts_cache s) of None \<Rightarrow> True | Some t \<Rightarrow> token_freshness t now = HardExpired))"
proof -
  obtain now e where a: "a = CheckCache k now e" using worker_starts_in_check [OF assms] by blast
  with after have "nth_refresh (check_cache k now e s) k = Some r'" by simp
  from check_cache_starts [OF before this after(2)] show ?thesis
    by (auto simp: a should_refresh_def double_check_def split: option.splits if_splits)
qed


section \<open>Freshness and cooldown\<close>

lemma freshness_antitone_validity:
  assumes "a \<le> b"
  shows "deadlines_freshness d a \<le> deadlines_freshness d b"
  using assms by (simp add: deadlines_freshness_def less_eq_freshness_def rank_of_def)

lemma before_deadline: "i + t < i + (nat x - b) \<longleftrightarrow> int t + int b < x"
  by (simp add: less_diff_conv zless_nat_eq_int_zless)

lemma from_utc_freshness:
  "deadlines_freshness (from_utc_expiry e u i) (i + t) =
     (if int t + 120 * 10 ^ 9 < e - u then Fresh
      else if int t + 60 * 10 ^ 9 < e - u then SoftExpired else HardExpired)"
  unfolding deadlines_freshness_def from_utc_expiry_def Let_def token_deadlines.select_convs
    before_deadline SOFT_EXPIRY_BUFFER_def HARD_EXPIRY_BUFFER_def
  by simp

text \<open>C33: A token is served only well before it really expires: \<open>t\<close> nanoseconds after it was fetched it
  is fresh exactly while more than 120 seconds of its validity remain and unusable exactly when at
  most 60 remain; one without expiration stays fresh, and freshness never improves with time.\<close>

theorem freshness_follows_expiry:
  "let d = from_utc_expiry expiry now_utc now_instant; token = cached\<lparr>ct_deadlines := Some d\<rparr>
   in (token_freshness token (now_instant + t) = Fresh \<longleftrightarrow> now_utc + int t + 120 * 10 ^ 9 < expiry)
    \<and> (token_freshness token (now_instant + t) = HardExpired \<longleftrightarrow> expiry \<le> now_utc + int t + 60 * 10 ^ 9)
    \<and> token_freshness (cached\<lparr>ct_deadlines := None\<rparr>) t = Fresh
    \<and> token_freshness token u \<le> token_freshness token (u + t)"
proof -
  have "token_freshness (cached\<lparr>ct_deadlines := Some d\<rparr>) u \<le> token_freshness (cached\<lparr>ct_deadlines := Some d\<rparr>) (u + t)" for d
    by (simp add: token_freshness_def freshness_antitone_validity)
  then show ?thesis
    unfolding Let_def by (simp add: token_freshness_def from_utc_freshness)
qed

lemma shifted_one: "n \<le> 5 \<Longrightarrow> unat (push_bit n (1 :: u32)) = 2 ^ n"
proof -
  assume "n \<le> 5"
  then consider "n = 0" | "n = 1" | "n = 2" | "n = 3" | "n = 4" | "n = 5" by linarith
  then show ?thesis by cases simp_all
qed


lemma unat_min_5: "unat (min w (5 :: u32)) = min (unat w) 5"
  by (simp add: min_def word_le_nat_alt)

lemma unat_saturating_Suc: "unat (saturating_add_u32 w 1) = min (unat w + 1) (2 ^ 32 - 1)"
proof -
  have max: "unat (- 1 :: u32) = 2 ^ 32 - 1"
    by (simp add: unsigned_minus_1_eq_mask mask_eq_exp_minus_1)
  have fits: "uint w + uint (1 :: u32) < 2 ^ 32 \<longleftrightarrow> unat w + 1 < 2 ^ 32"
    using of_nat_less_iff [where 'a = int, of "unat w + 1" "2 ^ 32"] by simp
  have sum: "unat (w + 1) = (unat w + 1) mod 2 ^ 32"
    by (simp add: unat_word_ariths)
  have bound: "unat w < 2 ^ 32" using unsigned_less [where 'a = nat, of w] by simp
  show ?thesis
  proof (cases "unat w + 1 < 2 ^ 32")
    case True
    then have "unat (w + 1) = unat w + 1" unfolding sum by (rule mod_less)
    moreover have "min (unat w + 1) (2 ^ 32 - 1) = unat w + 1"
      by (rule min_absorb1) (use True in linarith)
    ultimately show ?thesis using True fits by (simp only: saturating_add_u32_def if_True)
  next
    case False
    moreover have "min (unat w + 1) (2 ^ 32 - 1) = 2 ^ 32 - 1"
      by (rule min_absorb2) (use False in linarith)
    ultimately show ?thesis using fits max by (simp only: saturating_add_u32_def if_False)
  qed
qed

text \<open>C34: After the nth failed background refresh in a row the next one waits the base cooldown times
  two to the n, with n at most 5, and never more than 30 seconds, counted from the failure; the
  failure count saturates, and the cached token stays.\<close>

theorem cooldown_backs_off:
  "let r = record_soft_refresh_failure c now base; n = unat (cs_soft_refresh_failures c)
   in fst r = min (base * 2 ^ min n 5) (30 * 10 ^ 9)
    \<and> can_attempt_soft_refresh (snd r) u = (now + fst r \<le> u)
    \<and> unat (cs_soft_refresh_failures (snd r)) = min (n + 1) (2 ^ 32 - 1)
    \<and> cs_token (snd r) = cs_token c"
proof -
  have "unat (push_bit (unat (min w 5)) (1 :: u32)) = 2 ^ min (unat w) 5" for w :: u32
    using shifted_one [of "min (unat w) 5"] by (simp add: unat_min_5)
  then show ?thesis
    unfolding Let_def record_soft_refresh_failure_def MAX_SOFT_REFRESH_COOLDOWN_def
    by (simp add: can_attempt_soft_refresh_def unat_saturating_Suc)
qed

section \<open>The outcome of a Python call\<close>

lemma tuple_item_Inr: "tuple_item aa xs i = Inr x \<longleftrightarrow> i < length xs \<and> x = xs ! i"
  by (auto simp: tuple_item_def)

lemma bearer_token_Inr:
  "bearer_token aa d = Inr b \<longleftrightarrow> aa_get_item aa d ''bearer_token'' = Inr (PyStr (Some b))"
proof (cases "aa_get_item aa d ''bearer_token''")
  case (Inr v)
  then show ?thesis by (cases v) (auto simp: bearer_token_def split: option.splits)
qed (simp add: bearer_token_def)

lemma cred_transient [simp]:
  "ce_transient (cred_new b m e) = b" "ce_transient (cred_from_msg b m) = b"
  by (simp_all add: cred_new_def cred_from_msg_def)

lemma bearer_token_Inl: "bearer_token aa d = Inl e \<Longrightarrow> \<not> ce_transient e"
proof (cases "aa_get_item aa d ''bearer_token''")
  case (Inr v)
  then show "bearer_token aa d = Inl e \<Longrightarrow> ?thesis"
    by (cases v) (auto simp: bearer_token_def split: option.splits)
qed (auto simp: bearer_token_def)

lemma token_expiry_Inl: "token_expiry aa x u n = Inl e \<Longrightarrow> \<not> ce_transient e"
  by (auto simp: token_expiry_def rbind_Inl_iff rmap_err_Inl split: if_splits)

lemma token_expiry_None: "token_expiry aa x u n = Inr d \<Longrightarrow> d = None \<longleftrightarrow> x = PyNone"
  by (auto simp: token_expiry_def rbind_Inr_iff split: if_splits)


text \<open>C35: A failed token call is retryable exactly when the Python callable itself raised an exception
  that is not a programming error: every malformed answer is permanent. A token comes from a tuple
  whose first item has a non-empty UTF-8 string as its bearer token, carries the header of that
  string, and has no deadlines exactly when the second item is None.\<close>

theorem token_call_outcome:
  "case fetch_from_python aa result now_utc now tag of
     Inl e \<Rightarrow> ce_transient e = (\<exists>err. result = Inl err \<and> is_transient_python_error err)
   | Inr token \<Rightarrow> \<exists>data expiration rest bearer. result = Inr (PyTuple (data # expiration # rest))
       \<and> aa_get_item aa data ''bearer_token'' = Inr (PyStr (Some bearer)) \<and> bearer \<noteq> []
       \<and> aa_header_from_str aa (''Bearer '' @ bearer) = Inr (ct_headers token)
       \<and> (ct_deadlines token = None) = (expiration = PyNone) \<and> ct_entity_tag token = tag"
proof (cases result)
  case (Inl err)
  then show ?thesis by (simp add: fetch_from_python_def)
next
  case (Inr v)
  show ?thesis
  proof (cases v)
    case (PyTuple xs)
    consider "xs = []" | x where "xs = [x]" | d x rest where "xs = d # x # rest"
      by (metis neq_Nil_conv)
    then show ?thesis
    proof cases
      case 3
      show ?thesis
      proof (cases "bearer_token aa d")
        case (Inr b)
        then have b: "aa_get_item aa d ''bearer_token'' = Inr (PyStr (Some b))" by (simp add: bearer_token_Inr)
        show ?thesis
        proof (cases "token_expiry aa x now_utc now")
          case t: (Inr dl)
          with Inr b 3 PyTuple \<open>result = Inr v\<close> token_expiry_None [OF t] show ?thesis
            by (cases "aa_header_from_str aa (''Bearer '' @ b)") (simp_all add: fetch_from_python_def tuple_item_def)
        qed (use Inr 3 PyTuple \<open>result = Inr v\<close> token_expiry_Inl in
              \<open>auto simp: fetch_from_python_def tuple_item_def\<close>)
      qed (use 3 PyTuple \<open>result = Inr v\<close> bearer_token_Inl in \<open>auto simp: fetch_from_python_def tuple_item_def\<close>)
    qed (use PyTuple Inr in \<open>simp_all add: fetch_from_python_def tuple_item_def\<close>)
  qed (use Inr in \<open>simp_all add: fetch_from_python_def\<close>)
qed

section \<open>A late worker\<close>

text \<open>A cold caller starts a refresh that times out; a second one starts another, which succeeds; then
  the first call returns, late, and a caller sees the token of the second.\<close>

definition token_named :: "string \<Rightarrow> nat \<Rightarrow> cached_token" where
  "token_named h tag = \<lparr>ct_headers = h, ct_deadlines = None, ct_entity_tag = tag\<rparr>"

definition late_worker_run :: "action list" where
  "late_worker_run =
     [CallHeaders 0 None, LockRefresh, CheckCache 0 0 None, TimeOut 0,
      CallHeaders 1 None, LockRefresh, CheckCache 1 1 None,
      PythonReturns 1 (Inr (token_named ''second'' 2)), FirstCheck 1, TakeLock 1, WriteToken 1,
      PythonReturns 0 (Inr (token_named ''first'' 1)), FirstCheck 0]"

definition late_worker_state :: token_source where
  "late_worker_state = fold auth_step late_worker_run (source_with_config 1000 10)"

lemmas auth_run_simps = late_worker_run_def call_headers_def lock_refresh_def check_cache_def
  take_guard_def time_out_def python_returns_def first_check_def take_lock_def write_token_def
  join_worker_def put_def release_def nth_refresh_def headers_first_def double_check_def
  source_with_config_def new_refresh_def empty_cache_def install_def token_named_def Let_def

lemma late_worker_state_eval:
  "ts_installed late_worker_state = [(1, token_named ''second'' 2)]"
  "nth_refresh late_worker_state 1 = Some (new_refresh False\<lparr>rf_phase := Refreshing,
     rf_worker := Finished_worker (Inr (New 2 ''second''))\<rparr>)"
  by (simp_all add: late_worker_state_def auth_run_simps)

lemma one_refresh_at_a_time_witness:
  "ts_guard late_worker_state = Some 1 \<and> Suc 1 = length (ts_refreshes late_worker_state)"
  using one_refresh_at_a_time [OF late_worker_state_def late_worker_state_eval(2)]
  by (simp add: new_refresh_def)

lemma newest_token_wins_witness:
  "cs_token (ts_cache late_worker_state) = Some (token_named ''second'' 2)"
  using newest_token_wins [OF late_worker_state_def] by (simp add: late_worker_state_eval)

lemma python_called_only_when_needed_witness:
  "\<exists>now extension. CheckCache 0 5 None = CheckCache 0 now extension
     \<and> cs_token (ts_cache (fold auth_step [CallHeaders 0 None, LockRefresh] (source_with_config 1000 10))) = None"
  using python_called_only_when_needed
    [of "fold auth_step [CallHeaders 0 None, LockRefresh] (source_with_config 1000 10)" 0 "new_refresh False"
      "CheckCache 0 5 None" "new_refresh False\<lparr>rf_phase := Refreshing, rf_worker := Calling\<rparr>"]
  by (simp add: auth_run_simps)


section \<open>A second background refresh before the cooldown\<close>

text \<open>A background refresh fails and releases the lock; before its task has recorded the failure another
  caller starts a refresh that calls Python at once.\<close>

definition soft_token :: cached_token where
  "soft_token = \<lparr>ct_headers = ''t'', ct_deadlines = Some \<lparr>td_soft_expiry = 10, td_hard_expiry = 100\<rparr>,
     ct_entity_tag = 1\<rparr>"

definition soft_state :: token_source where
  "soft_state = (source_with_config 1000 50)\<lparr>ts_cache := install soft_token empty_cache\<rparr>"

lemma cooldown_can_be_missed:
  "let s = fold auth_step [CallHeaders 20 None, CheckCache 0 20 None, PythonReturns 0 (Inl late_error),
       JoinWorker 0, CallHeaders 21 None, CheckCache 1 21 None] soft_state
   in map_option rf_worker (nth_refresh s 1) = Some Calling
      \<and> map_option rf_recorded (nth_refresh s 0) = Some False
      \<and> map_option rf_result (nth_refresh s 0) = Some (Some (Inl late_error))"
  by (simp add: soft_state_def soft_token_def auth_run_simps token_freshness_def deadlines_freshness_def
      should_refresh_def can_attempt_soft_refresh_def)

end
