(* ===== verification/Client_Builder.thy ===== *)
theory Client_Builder
  imports Client
begin

text \<open>
  Building a client (\<open>crates/arrow-bigquery/src/client_builder.rs\<close>): the settings a caller
  collects and \<open>build\<close>, which checks them and configures the two generated clients. Building a
  generated client is an argument of the model; credentials are named by numbers.
\<close>

text \<open>What the code sets on the builders of the generated clients; None where it leaves a default.\<close>

record service_settings =
  ss_credentials :: "nat option"
  ss_endpoint :: "string option"
  ss_retry_policy :: "retry_policy option"
  ss_backoff_policy :: "backoff_policy option"
  ss_retry_throttler :: "nat option"

definition default_settings :: service_settings where
  "default_settings = \<lparr>ss_credentials = None, ss_endpoint = None, ss_retry_policy = None,
     ss_backoff_policy = None, ss_retry_throttler = None\<rparr>"

text \<open>The process: whether a crypto provider is installed, and the next identity of a throttler.\<close>

record process =
  ps_crypto_installed :: bool
  ps_next_throttler :: nat

record builder_api =
  ba_build_job_service :: "service_settings \<Rightarrow> (std_error, unit) res"
  ba_build_read :: "service_settings \<Rightarrow> (std_error, unit) res"

definition init_crypto :: "process \<Rightarrow> process" where
  "init_crypto p = p\<lparr>ps_crypto_installed := True\<rparr>"

definition default_retry_throttler :: "process \<Rightarrow> nat \<times> process" where
  "default_retry_throttler p = (ps_next_throttler p, p\<lparr>ps_next_throttler := ps_next_throttler p + 1\<rparr>)"

record service_config_builder =
  sb_cred :: "nat option"
  sb_bq_endpoint :: "string option"
  sb_bqstorage_endpoint :: "string option"
  sb_user_agent :: "string option"
  sb_quota_project_id :: "string option"

definition service_config_builder_new :: service_config_builder where
  "service_config_builder_new = \<lparr>sb_cred = None, sb_bq_endpoint = None, sb_bqstorage_endpoint = None,
     sb_user_agent = None, sb_quota_project_id = None\<rparr>"

definition with_cred :: "service_config_builder \<Rightarrow> nat \<Rightarrow> service_config_builder" where
  "with_cred b cred = b\<lparr>sb_cred := Some cred\<rparr>"

definition with_bq_endpoint :: "service_config_builder \<Rightarrow> string \<Rightarrow> service_config_builder" where
  "with_bq_endpoint b endpoint = b\<lparr>sb_bq_endpoint := Some endpoint\<rparr>"

definition with_bqstorage_endpoint :: "service_config_builder \<Rightarrow> string \<Rightarrow> service_config_builder" where
  "with_bqstorage_endpoint b endpoint = b\<lparr>sb_bqstorage_endpoint := Some endpoint\<rparr>"

definition with_user_agent :: "service_config_builder \<Rightarrow> string option \<Rightarrow> service_config_builder" where
  "with_user_agent b user_agent = b\<lparr>sb_user_agent := user_agent\<rparr>"

definition with_quota_project_id :: "service_config_builder \<Rightarrow> string option \<Rightarrow> service_config_builder" where
  "with_quota_project_id b quota_project_id = b\<lparr>sb_quota_project_id := quota_project_id\<rparr>"

definition job_service_settings :: "service_config_builder \<Rightarrow> service_settings" where
  "job_service_settings b = default_settings\<lparr>ss_credentials := sb_cred b, ss_endpoint := sb_bq_endpoint b\<rparr>"

definition read_settings ::
  "gax \<Rightarrow> backoff_policy \<Rightarrow> nat \<Rightarrow> service_config_builder \<Rightarrow> service_settings" where
  "read_settings gx backoff throttler b = default_settings
     \<lparr>ss_retry_policy := Some (create_read_session_retry_policy gx),
      ss_backoff_policy := Some backoff,
      ss_retry_throttler := Some throttler,
      ss_credentials := sb_cred b,
      ss_endpoint := sb_bqstorage_endpoint b\<rparr>"

text \<open>
  None: the default backoff policy does not build, which panics. A client comes with the
  settings of the services it calls.
\<close>

definition build ::
  "gax \<Rightarrow> builder_api \<Rightarrow> process \<Rightarrow> service_config_builder
     \<Rightarrow> ((bq_error, client \<times> service_settings \<times> service_settings) res \<times> process) option" where
  "build gx ba p b =
     (case opt_filter (\<lambda>s. trim s \<noteq> []) (sb_quota_project_id b) of
        None \<Rightarrow> Some (Inl (InvalidConfig ''quota_project_id is required''), p)
      | Some quota_project_id \<Rightarrow>
          (case default_retry_throttler (init_crypto p) of
             (retry_throttler, p') \<Rightarrow>
               (case default_backoff_policy gx of
                  None \<Rightarrow> None
                | Some backoff \<Rightarrow>
                    (let bq = job_service_settings b; read = read_settings gx backoff retry_throttler b
                     in case ba_build_job_service ba bq of
                          Inl e \<Rightarrow> Some (Inl (ClientBuilder e), p')
                        | Inr _ \<Rightarrow>
                            (case ba_build_read ba read of
                               Inl e \<Rightarrow> Some (Inl (ClientBuilder e), p')
                             | Inr _ \<Rightarrow>
                                 map_option (\<lambda>c. (Inr (c, bq, read), p'))
                                   (client_from_parts gx quota_project_id (sb_user_agent b) retry_throttler))))))"

text \<open>The entry points of the client type.\<close>

definition client_builder :: service_config_builder where
  "client_builder = service_config_builder_new"

definition from_builder ::
  "gax \<Rightarrow> builder_api \<Rightarrow> process \<Rightarrow> service_config_builder
     \<Rightarrow> ((bq_error, client \<times> service_settings \<times> service_settings) res \<times> process) option" where
  "from_builder gx ba p builder = build gx ba p builder"

section \<open>What a built client has\<close>

text \<open>C39: A client is built only for a quota project that is not blank, which it keeps as given; it then
  calls both services with the same credentials, and its read sessions and all its stream readers
  share one new throttler. Without such a project nothing is touched.\<close>

theorem built_client_config:
  "case build gx ba p b of
     None \<Rightarrow> default_backoff_policy gx = None
   | Some (Inl e, p') \<Rightarrow> (if (\<exists>s. sb_quota_project_id b = Some s \<and> trim s \<noteq> [])
       then (\<exists>x. e = ClientBuilder x) else e = InvalidConfig ''quota_project_id is required'' \<and> p' = p)
   | Some (Inr (c, bq, read), p') \<Rightarrow>
       sb_quota_project_id b = Some (cl_quota_project_id c) \<and> trim (cl_quota_project_id c) \<noteq> []
       \<and> cl_user_agent c = sb_user_agent b
       \<and> ss_credentials bq = sb_cred b \<and> ss_credentials read = sb_cred b
       \<and> ss_endpoint bq = sb_bq_endpoint b \<and> ss_endpoint read = sb_bqstorage_endpoint b
       \<and> ss_retry_throttler read = Some (cl_retry_throttler c)
       \<and> src_retry_throttler (cl_retry_config c) = cl_retry_throttler c
       \<and> cl_retry_throttler c = ps_next_throttler p \<and> ps_next_throttler p' = ps_next_throttler p + 1"
proof (cases "opt_filter (\<lambda>s. trim s \<noteq> []) (sb_quota_project_id b)")
  case None
  then show ?thesis
    by (cases "sb_quota_project_id b") (auto simp: build_def opt_filter_def split: if_splits)
next
  case (Some s)
  then have s: "sb_quota_project_id b = Some s" "trim s \<noteq> []" by simp_all
  show ?thesis
  proof (cases "default_backoff_policy gx")
    case None
    with Some show ?thesis by (simp add: build_def default_retry_throttler_def)
  next
    case backoff: (Some backoff)
    show ?thesis
      using s backoff
      by (simp add: build_def default_retry_throttler_def init_crypto_def Let_def client_from_parts_def
          stream_retry_config_new_def job_service_settings_def read_settings_def default_settings_def
          split: sum.split)
  qed
qed

end
