(* ===== verification/Py_Error.thy ===== *)
theory Py_Error
  imports Bq_Error
begin

text \<open>
  Errors as Python sees them (\<open>py-arrow-bigquery/src/error.rs\<close>): the exception class of the
  module and \<open>to_py_err\<close>, which keeps the whole causal chain in the text and an original Python
  exception as the cause.
\<close>

text \<open>A raised exception: its class with the base classes, its text, and its \<open>__cause__\<close>.\<close>

record raised =
  ra_err :: py_err
  ra_cause :: "py_err option"

definition raise_plain :: "py_err \<Rightarrow> raised" where
  "raise_plain e = \<lparr>ra_err = e, ra_cause = None\<rparr>"

definition value_error :: "string \<Rightarrow> py_err" where
  "value_error msg = PyErr [PyValueError, PyException] msg"

definition type_error :: "string \<Rightarrow> py_err" where
  "type_error msg = PyErr [PyTypeError, PyException] msg"

definition runtime_error :: "string \<Rightarrow> py_err" where
  "runtime_error msg = PyErr [PyRuntimeError, PyException] msg"

text \<open>The class \<open>BigQueryError\<close>, which extends \<open>RuntimeError\<close>.\<close>

definition py_bigquery_error :: "string \<Rightarrow> py_err" where
  "py_bigquery_error msg = PyErr [PyBigQueryError, PyRuntimeError, PyException] msg"

text \<open>The loop over the sources.\<close>

fun find_py_cause :: "std_error option \<Rightarrow> py_err option" where
  "find_py_cause None = None"
| "find_py_cause (Some (StdError text src py)) =
     (case py of Some orig_py_err \<Rightarrow> Some orig_py_err | None \<Rightarrow> find_py_cause src)"

definition to_py_err :: "bq_error \<Rightarrow> raised" where
  "to_py_err err =
     (case err of
        InvalidConfig _ \<Rightarrow> raise_plain (value_error (format_causal_chain err))
      | _ \<Rightarrow> \<lparr>ra_err = py_bigquery_error (format_causal_chain err),
             ra_cause = find_py_cause (err_cause err)\<rparr>)"

lemma find_py_cause_first:
  "find_py_cause src = (case filter (\<lambda>s. err_py s \<noteq> None) (source_chain src) of
     [] \<Rightarrow> None | s # _ \<Rightarrow> err_py s)"
  by (induction src rule: find_py_cause.induct) (auto split: option.split)

lemma to_py_err_text: "py_text (ra_err (to_py_err e)) = format_causal_chain e"
  by (cases e) (simp_all add: to_py_err_def raise_plain_def value_error_def py_bigquery_error_def)

lemma to_py_err_class:
  "is_instance_of PyValueError (ra_err (to_py_err e)) = (\<exists>m. e = InvalidConfig m)"
  "is_instance_of PyBigQueryError (ra_err (to_py_err e)) = (\<not> (\<exists>m. e = InvalidConfig m))"
  "is_instance_of PyRuntimeError (ra_err (to_py_err e)) = (\<not> (\<exists>m. e = InvalidConfig m))"
  "is_instance_of PyException (ra_err (to_py_err e))"
  by (cases e; simp add: to_py_err_def raise_plain_def value_error_def py_bigquery_error_def is_instance_of_def)+

text \<open>C37: A library error reaches Python as a ValueError exactly when it is a configuration error and as a
  BigQueryError, which is a RuntimeError, otherwise; its text contains that of every error on the
  causal chain; and its cause is the first Python exception on the chain, if any.\<close>

theorem python_error_complete:
  "is_instance_of PyValueError (ra_err (to_py_err e)) = (\<exists>m. e = InvalidConfig m)
   \<and> (is_instance_of PyBigQueryError (ra_err (to_py_err e))
        = (\<not> is_instance_of PyValueError (ra_err (to_py_err e))))
   \<and> (\<forall>s \<in> set (source_chain (err_cause e)). sublist (err_text s) (py_text (ra_err (to_py_err e))))
   \<and> ra_cause (to_py_err e) =
       (case filter (\<lambda>s. err_py s \<noteq> None) (source_chain (err_cause e)) of
          [] \<Rightarrow> None | s # _ \<Rightarrow> err_py s)"
proof -
  have "ra_cause (to_py_err e) = find_py_cause (err_cause e)"
    by (cases e) (simp_all add: to_py_err_def raise_plain_def err_cause_def)
  then show ?thesis
    by (simp add: to_py_err_class to_py_err_text find_py_cause_first format_causal_chain_def
        causal_loop_complete)
qed

text \<open>A credentials provider that raised, as the cause of a request that could not be authenticated.\<close>

definition auth_failure :: bq_error where
  "auth_failure = Grpc
     \<lparr>ge_transient_before_rpc = False, ge_io = False, ge_timeout = False, ge_connect = False,
      ge_transport = False, ge_http_status = None, ge_status = None,
      ge_std = StdError ''cannot create auth headers''
        (Some (StdError ''Python credentials provider failed''
          (Some (StdError ''ValueError: generator broke'' None (Some (value_error ''generator broke''))))
          None)) None\<rparr>"

lemma python_error_complete_witness:
  "ra_cause (to_py_err auth_failure) = Some (value_error ''generator broke'')
   \<and> sublist ''Python credentials provider failed'' (py_text (ra_err (to_py_err auth_failure)))"
  using python_error_complete [of auth_failure] by (simp add: auth_failure_def err_cause_def)

end
