(* ===== verification/Py_Stream.thy ===== *)
theory Py_Stream
  imports Client Py_Error
begin

text \<open>
  The Arrow C stream that Python consumes (\<open>py-arrow-bigquery/src/stream.rs\<close>): the exporter, which
  gives its source away once, and the iterator that polls the receiver every 100 ms and looks for
  Python signals in between. Then what a consumer sees of the items sent to the channel.
\<close>

section \<open>The iterator over a receiver\<close>

text \<open>The struct arrays and errors of polars that the code builds.\<close>

datatype polars_array = StructArray data_type u64 "column list"
datatype polars_error = ComputeError string

type_synonym polars_item = "(polars_error, polars_array) res"

datatype stream_source = Receiver receiver | Batch record_batch

text \<open>
  \<open>StructArray::new\<close> of polars-arrow (without a validity) is an argument; None: it panics. As
  documented it panics unless the type is a struct, with a column of its type for each field, and
  all columns have the given length.
\<close>

type_synonym struct_maker = "data_type \<Rightarrow> u64 \<Rightarrow> column list \<Rightarrow> polars_array option"

definition struct_documented :: "struct_maker \<Rightarrow> bool" where
  "struct_documented struct_new \<longleftrightarrow> (\<forall>dtype n cols. struct_new dtype n cols =
     (if \<exists>fields. dtype = StructType fields \<and> fits (unat n) fields cols then Some (StructArray dtype n cols) else None))"

definition record_batch_to_struct_array :: "struct_maker \<Rightarrow> record_batch \<Rightarrow> data_type \<Rightarrow> polars_array option" where
  "record_batch_to_struct_array struct_new batch dtype = struct_new dtype (rb_len batch) (rb_arrays batch)"

text \<open>
  The receiver until it is dropped, the type of the arrays, and two effects on the outside: the
  receiver as dropping left it and the Python exceptions restored.
\<close>

record receiver_iterator =
  it_rx :: "receiver option"
  it_dtype :: data_type
  it_dropped :: "receiver option"
  it_restored :: "py_err list"

definition drop_receiver :: "receiver \<Rightarrow> receiver_iterator \<Rightarrow> receiver_iterator" where
  "drop_receiver rx it = it\<lparr>it_rx := None, it_dropped := Some (receiver_drop rx)\<rparr>"

text \<open>One turn of the loop: whether a signal is pending, what the senders send before the wait ends,
  and whether one of them is still there.\<close>

record poll =
  pl_signal :: "py_err option"
  pl_sent :: "(bq_error, record_batch) res list"
  pl_senders :: bool

definition arrive :: "poll \<Rightarrow> receiver \<Rightarrow> receiver" where
  "arrive p rx = (if rx_senders rx then (fold channel_send (pl_sent p) rx)\<lparr>rx_senders := pl_senders p\<rparr> else rx)"

definition read_error :: "bq_error \<Rightarrow> polars_error" where
  "read_error err = ComputeError (''BigQuery Storage API read error: '' @ format_causal_chain err)"

text \<open>One call of \<open>next\<close>: it still waits when the turns are over, it panics, or it returns.\<close>

datatype next_call = Waits | Panics | Returns "polars_item option" receiver_iterator "poll list"

fun receiver_next :: "struct_maker \<Rightarrow> poll list \<Rightarrow> receiver_iterator \<Rightarrow> next_call" where
  "receiver_next struct_new ps it =
     (case it_rx it of
        None \<Rightarrow> Returns None it ps
      | Some rx \<Rightarrow>
          (case ps of
             [] \<Rightarrow> Waits
           | p # ps' \<Rightarrow>
               (case pl_signal p of
                  Some py_err \<Rightarrow>
                    Returns (Some (Inl (ComputeError ''Python interrupt'')))
                      ((drop_receiver rx it)\<lparr>it_restored := it_restored it @ [py_err]\<rparr>) ps'
                | None \<Rightarrow>
                    (case receiver_recv (arrive p rx) of
                       Some (Some (Inr batch), rx') \<Rightarrow>
                         (case record_batch_to_struct_array struct_new batch (it_dtype it) of
                            Some array \<Rightarrow> Returns (Some (Inr array)) (it\<lparr>it_rx := Some rx'\<rparr>) ps'
                          | None \<Rightarrow> Panics)
                     | Some (Some (Inl err), rx') \<Rightarrow>
                         Returns (Some (Inl (read_error err))) (drop_receiver rx' it) ps'
                     | Some (None, rx') \<Rightarrow> Returns None (drop_receiver rx' it) ps'
                     | None \<Rightarrow> receiver_next struct_new ps' (it\<lparr>it_rx := Some (arrive p rx)\<rparr>)))))"

declare receiver_next.simps [simp del]

section \<open>The exporter\<close>

text \<open>The lock of the source is poisoned once a panic unwinds through the call that holds it.\<close>

record arrow_stream_exporter =
  ex_schema :: arrow_schema
  ex_source :: "stream_source option"
  ex_poisoned :: bool

definition exporter_new :: "arrow_schema \<Rightarrow> receiver \<Rightarrow> arrow_stream_exporter" where
  "exporter_new schema receiver =
     \<lparr>ex_schema = schema, ex_source = Some (Receiver receiver), ex_poisoned = False\<rparr>"

definition exporter_from_record_batch :: "record_batch \<Rightarrow> arrow_stream_exporter" where
  "exporter_from_record_batch batch =
     \<lparr>ex_schema = rb_schema batch, ex_source = Some (Batch batch), ex_poisoned = False\<rparr>"

datatype box_iter = ReceiverIterator receiver_iterator | Once polars_item

text \<open>The result of the call, None for a panic, and the exporter after it.\<close>

definition arrow_c_stream ::
  "struct_maker \<Rightarrow> arrow_stream_exporter \<Rightarrow> (py_err, box_iter \<times> field) res option \<times> arrow_stream_exporter" where
  "arrow_c_stream struct_new e =
     (if ex_poisoned e then (Some (Inl (runtime_error ''Stream receiver lock is poisoned'')), e)
      else
        (case ex_source e of
           None \<Rightarrow> (Some (Inl (value_error ''Stream already consumed'')), e)
         | Some source \<Rightarrow>
             (let e' = e\<lparr>ex_source := None\<rparr>;
                  dtype = StructType (ex_schema e);
                  iter = (case source of
                     Receiver rx \<Rightarrow> Some (ReceiverIterator
                       \<lparr>it_rx = Some rx, it_dtype = dtype, it_dropped = None, it_restored = []\<rparr>)
                   | Batch batch \<Rightarrow>
                       map_option (\<lambda>array. Once (Inr array)) (record_batch_to_struct_array struct_new batch dtype))
              in case iter of
                   Some iter \<Rightarrow> (Some (Inr (iter, Field [] dtype False)), e')
                 | None \<Rightarrow> (None, e'\<lparr>ex_poisoned := True\<rparr>))))"

lemma exporter_gives_once:
  assumes "arrow_c_stream struct_new e = (Some (Inr (iter, fld)), e')"
  shows "arrow_c_stream struct_new e' = (Some (Inl (value_error ''Stream already consumed'')), e')"
  using assms by (auto simp: arrow_c_stream_def Let_def split: option.splits if_splits stream_source.splits)

text \<open>A batch whose columns fit its own schema, as those of a dry run do, is exported without a panic.\<close>

lemma batch_exported:
  assumes "struct_documented struct_new" "fits (unat (rb_len b)) (rb_schema b) (rb_arrays b)"
  shows "fst (arrow_c_stream struct_new (exporter_from_record_batch b)) =
    Some (Inr (Once (Inr (StructArray (StructType (rb_schema b)) (rb_len b) (rb_arrays b))),
      Field [] (StructType (rb_schema b)) False))"
  using assms
  by (simp add: arrow_c_stream_def exporter_from_record_batch_def record_batch_to_struct_array_def struct_documented_def Let_def)

section \<open>What a consumer sees\<close>

text \<open>The items the senders still send, up to the turn in which the last one is gone.\<close>

fun sent :: "bool \<Rightarrow> poll list \<Rightarrow> (bq_error, record_batch) res list" where
  "sent alive [] = []"
| "sent alive (p # ps) = (if alive then pl_sent p @ sent (pl_senders p) ps else [])"

definition pending :: "receiver \<Rightarrow> poll list \<Rightarrow> (bq_error, record_batch) res list" where
  "pending rx ps = rx_items rx @ sent (rx_senders rx) ps"

lemma sent_closed [simp]: "sent False ps = []"
  by (cases ps) simp_all

lemma channel_send_fold:
  "\<not> rx_closed rx \<Longrightarrow> rx_items (fold channel_send xs rx) = rx_items rx @ xs
     \<and> \<not> rx_closed (fold channel_send xs rx) \<and> rx_senders (fold channel_send xs rx) = rx_senders rx"
  by (induction xs arbitrary: rx) (simp_all add: channel_send_def)

lemma arrive_pending:
  assumes "\<not> rx_closed rx"
  shows "pending (arrive p rx) ps = pending rx (p # ps)" "\<not> rx_closed (arrive p rx)"
  using channel_send_fold [OF assms] assms by (simp_all add: arrive_def pending_def)

lemma receiver_recv_cases:
  assumes "\<not> rx_closed rx"
  shows "receiver_recv rx =
    (case rx_items rx of
       Inr b # rest \<Rightarrow> Some (Some (Inr b), rx\<lparr>rx_items := rest\<rparr>)
     | Inl e # rest \<Rightarrow> Some (Some (Inl e), receiver_abort (rx\<lparr>rx_items := rest\<rparr>))
     | [] \<Rightarrow> if rx_senders rx then None else Some (None, receiver_abort rx))"
  using assms by (simp add: receiver_recv_def channel_recv_def split: list.split sum.split)

text \<open>A batch whose columns fit the type of the stream.\<close>

definition batch_fits :: "data_type \<Rightarrow> record_batch \<Rightarrow> bool" where
  "batch_fits dtype b \<longleftrightarrow> (\<exists>fields. dtype = StructType fields \<and> fits (unat (rb_len b)) fields (rb_arrays b))"

lemma struct_of_batch:
  "struct_documented struct_new \<Longrightarrow> record_batch_to_struct_array struct_new b dtype =
     (if batch_fits dtype b then Some (StructArray dtype (rb_len b) (rb_arrays b)) else None)"
  by (simp add: struct_documented_def record_batch_to_struct_array_def batch_fits_def)

text \<open>One call: a batch that fits and a shorter rest, an end with the receiver gone, or a panic over a
  batch that does not fit.\<close>

inductive next_sees :: "data_type \<Rightarrow> receiver \<Rightarrow> poll list \<Rightarrow> next_call \<Rightarrow> bool" for dtype rx ps where
  batch: "pending rx ps = Inr b # pending rx' ps' \<Longrightarrow> batch_fits dtype b \<Longrightarrow> it_rx it' = Some rx' \<Longrightarrow> \<not> rx_closed rx' \<Longrightarrow>
    it_dtype it' = dtype \<Longrightarrow>
    next_sees dtype rx ps (Returns (Some (Inr (StructArray dtype (rb_len b) (rb_arrays b)))) it' ps')"
| interrupt: "it_rx it' = None \<Longrightarrow> next_sees dtype rx ps (Returns (Some (Inl (ComputeError ''Python interrupt''))) it' ps')"
| failed: "pending rx ps = Inl e # rest \<Longrightarrow> it_rx it' = None \<Longrightarrow>
    next_sees dtype rx ps (Returns (Some (Inl (read_error e))) it' ps')"
| ended: "pending rx ps = [] \<Longrightarrow> it_rx it' = None \<Longrightarrow> next_sees dtype rx ps (Returns None it' ps')"
| panic: "pending rx ps = Inr b # rest \<Longrightarrow> \<not> batch_fits dtype b \<Longrightarrow> next_sees dtype rx ps Panics"
| waits: "next_sees dtype rx ps Waits"

lemma next_sees_later: "next_sees dtype rx' ps x \<Longrightarrow> pending rx ps' = pending rx' ps \<Longrightarrow> next_sees dtype rx ps' x"
  by (induction rule: next_sees.induct) (auto intro: next_sees.intros)

lemma receiver_next_sees:
  assumes doc: "struct_documented struct_new" and "it_rx it = Some rx" "\<not> rx_closed rx"
  shows "next_sees (it_dtype it) rx ps (receiver_next struct_new ps it)"
  using assms(2,3)
proof (induction ps arbitrary: it rx)
  case Nil
  then show ?case by (simp add: receiver_next.simps next_sees.waits)
next
  case (Cons p ps)
  note open_rx = arrive_pending [OF Cons.prems(2), of p]
  show ?case
  proof (cases "pl_signal p")
    case (Some e)
    with Cons.prems show ?thesis by (simp add: receiver_next.simps drop_receiver_def next_sees.interrupt)
  next
    case None
    show ?thesis
    proof (cases "rx_items (arrive p rx)")
      case Nil
      show ?thesis
      proof (cases "rx_senders (arrive p rx)")
        case True
        with Nil None Cons.prems open_rx
        have "receiver_next struct_new (p # ps) it = receiver_next struct_new ps (it\<lparr>it_rx := Some (arrive p rx)\<rparr>)"
          by (simp add: receiver_next.simps [of struct_new "p # ps"] receiver_recv_cases)
        with next_sees_later [OF Cons.IH [OF _ open_rx(2), of "it\<lparr>it_rx := Some (arrive p rx)\<rparr>"] open_rx(1) [symmetric]]
        show ?thesis by simp
      next
        case False
        with Nil open_rx(1) [of ps] have "pending rx (p # ps) = []" by (simp add: pending_def [of "arrive p rx"])
        with False Nil None Cons.prems open_rx show ?thesis
          by (simp add: receiver_next.simps [of struct_new "p # ps"] receiver_recv_cases drop_receiver_def next_sees.ended)
      qed
    next
      case items: (Cons item rest)
      have rest: "pending rx (p # ps) = item # pending ((arrive p rx)\<lparr>rx_items := rest\<rparr>) ps"
        using items open_rx(1) [of ps] by (simp add: pending_def)
      show ?thesis
      proof (cases item)
        case (Inl e)
        with items None Cons.prems open_rx(2) rest show ?thesis
          by (simp add: receiver_next.simps [of struct_new "p # ps"] receiver_recv_cases drop_receiver_def next_sees.failed)
      next
        case (Inr b)
        with items None Cons.prems open_rx(2) rest show ?thesis
          by (auto simp: receiver_next.simps [of struct_new "p # ps"] receiver_recv_cases struct_of_batch [OF doc]
              intro: next_sees.batch next_sees.panic)
      qed
    qed
  qed
qed

text \<open>What the first \<open>n\<close> calls of the consumer show, as many as return; a panic is the last.\<close>

datatype sight = Shown "polars_item option" | PanicSeen

fun pulls :: "struct_maker \<Rightarrow> nat \<Rightarrow> poll list \<Rightarrow> receiver_iterator \<Rightarrow> sight list" where
  "pulls struct_new 0 ps it = []"
| "pulls struct_new (Suc n) ps it =
     (case receiver_next struct_new ps it of
        Waits \<Rightarrow> []
      | Panics \<Rightarrow> [PanicSeen]
      | Returns x it' ps' \<Rightarrow> Shown x # pulls struct_new n ps' it')"

lemma pulls_after_end: "it_rx it = None \<Longrightarrow> pulls struct_new n ps it = replicate n (Shown None)"
  by (induction n) (simp_all add: receiver_next.simps)

definition item_shown :: "data_type \<Rightarrow> record_batch \<Rightarrow> sight" where
  "item_shown dtype b = Shown (Some (Inr (StructArray dtype (rb_len b) (rb_arrays b))))"

text \<open>How a sequence of pulls can end, after the batches \<open>bs\<close> of the pending items.\<close>

inductive ends_well :: "data_type \<Rightarrow> (bq_error, record_batch) res list \<Rightarrow> record_batch list \<Rightarrow> sight list \<Rightarrow> bool"
  for dtype items bs where
  open_end: "ends_well dtype items bs []"
| interrupted: "ends_well dtype items bs (Shown (Some (Inl (ComputeError ''Python interrupt''))) # replicate k (Shown None))"
| failed: "prefix (map Inr bs @ [Inl e]) items \<Longrightarrow>
    ends_well dtype items bs (Shown (Some (Inl (read_error e))) # replicate k (Shown None))"
| all_shown: "map Inr bs = items \<Longrightarrow> ends_well dtype items bs (replicate k (Shown None))"
| panicked: "prefix (map Inr bs @ [Inr b]) items \<Longrightarrow> \<not> batch_fits dtype b \<Longrightarrow> ends_well dtype items bs [PanicSeen]"

lemma ends_well_Cons: "ends_well dtype items bs tail \<Longrightarrow> ends_well dtype (Inr b # items) (b # bs) tail"
  by (induction rule: ends_well.induct) (auto intro: ends_well.intros)

lemma pulls_shown:
  assumes doc: "struct_documented struct_new" and "it_rx it = Some rx" "\<not> rx_closed rx"
  shows "\<exists>bs tail. pulls struct_new n ps it = map (item_shown (it_dtype it)) bs @ tail
    \<and> prefix (map Inr bs) (pending rx ps) \<and> list_all (batch_fits (it_dtype it)) bs
    \<and> ends_well (it_dtype it) (pending rx ps) bs tail"
  using assms(2,3)
proof (induction n arbitrary: ps it rx)
  case 0
  show ?case by (intro exI [of _ "[]"]) (simp add: ends_well.open_end)
next
  case (Suc n)
  have here: "?case" if "pulls struct_new (Suc n) ps it = tail" "ends_well (it_dtype it) (pending rx ps) [] tail" for tail
    using that by (intro exI [of _ "[]"] exI [of _ tail]) (simp del: pulls.simps)
  from receiver_next_sees [OF doc Suc.prems, of ps] show ?case
  proof (cases rule: next_sees.cases)
    case (batch b rx' ps' it')
    from Suc.IH [OF batch(4,5), of ps'] obtain bs tail where
      "pulls struct_new n ps' it' = map (item_shown (it_dtype it)) bs @ tail"
      "prefix (map Inr bs) (pending rx' ps')" "list_all (batch_fits (it_dtype it)) bs"
      "ends_well (it_dtype it) (pending rx' ps') bs tail"
      unfolding batch(6) by blast
    with batch show ?thesis
      by (intro exI [of _ "b # bs"] exI [of _ tail]) (simp add: item_shown_def ends_well_Cons)
  next
    case (interrupt it' ps')
    then show ?thesis by (intro here) (auto simp: pulls_after_end intro: ends_well.interrupted)
  next
    case (failed e rest it' ps')
    then show ?thesis by (intro here) (auto simp: pulls_after_end intro: ends_well.failed)
  next
    case (ended it' ps')
    then show ?thesis
      by (intro here [of "replicate (Suc n) (Shown None)"]) (simp_all only: pulls.simps next_call.case pulls_after_end
        replicate_Suc ends_well.all_shown [of "[]" "[]" _ "Suc n", simplified])
  next
    case (panic b rest)
    then show ?thesis by (intro here) (auto intro: ends_well.panicked)
  next
    case waits
    then show ?thesis by (intro here) (auto intro: ends_well.open_end)
  qed
qed

text \<open>C15: A consumer of an exported stream sees exactly the batches that were sent, each once and in order,
  as arrays of the stream's schema, as long as their columns fit that schema. It sees them until one
  error, a read error in the place it was sent or an interrupt, and nothing but the end after it; the
  end without an error comes only when every item was shown. The only other way it stops is the panic
  over a batch whose columns do not fit the schema, in the place it was sent; when all pending batches
  fit there is none. The exporter gives its stream away only once.\<close>

theorem exported_stream_faithful:
  assumes doc: "struct_documented struct_new"
    and stream: "arrow_c_stream struct_new e = (Some (Inr (ReceiverIterator it, fld)), e')"
    and source: "ex_source e = Some (Receiver rx)" "\<not> rx_closed rx"
  shows "fst (arrow_c_stream struct_new e') = Some (Inl (value_error ''Stream already consumed''))
    \<and> (\<exists>bs tail. pulls struct_new n ps it = map (item_shown (StructType (ex_schema e))) bs @ tail
         \<and> prefix (map Inr bs) (pending rx ps)
         \<and> (\<forall>b \<in> set bs. fits (unat (rb_len b)) (ex_schema e) (rb_arrays b))
         \<and> ends_well (StructType (ex_schema e)) (pending rx ps) bs tail
         \<and> ((\<forall>b. Inr b \<in> set (pending rx ps) \<longrightarrow> fits (unat (rb_len b)) (ex_schema e) (rb_arrays b)) \<longrightarrow>
              PanicSeen \<notin> set tail))"
proof -
  from stream source have it: "it_rx it = Some rx" "it_dtype it = StructType (ex_schema e)"
    by (auto simp: arrow_c_stream_def Let_def split: if_splits)
  from pulls_shown [OF doc it(1) source(2), of n ps] obtain bs tail where
    shown: "pulls struct_new n ps it = map (item_shown (StructType (ex_schema e))) bs @ tail"
    "prefix (map Inr bs) (pending rx ps)" "list_all (batch_fits (StructType (ex_schema e))) bs"
    and tail: "ends_well (StructType (ex_schema e)) (pending rx ps) bs tail"
    unfolding it(2) by blast
  from tail have "PanicSeen \<notin> set tail"
    if "\<forall>b. Inr b \<in> set (pending rx ps) \<longrightarrow> fits (unat (rb_len b)) (ex_schema e) (rb_arrays b)"
    using that by cases (auto simp: batch_fits_def dest: set_mono_prefix)
  with shown tail exporter_gives_once [OF stream] show ?thesis
    by (intro conjI exI [of _ bs] exI [of _ tail]) (auto simp: list_all_iff batch_fits_def)
qed

text \<open>Two batches of one column, a wait, and the end.\<close>

definition strict_struct :: struct_maker where
  "strict_struct dtype n cols =
     (case dtype of
        StructType fs \<Rightarrow> if fits (unat n) fs cols then Some (StructArray dtype n cols) else None
      | _ \<Rightarrow> None)"

lemma strict_struct_documented: "struct_documented strict_struct"
  by (auto simp: struct_documented_def strict_struct_def split: data_type.split)

definition shown_schema :: arrow_schema where "shown_schema = [Field ''x'' Int64Type True]"

definition shown_batch :: "i64 \<Rightarrow> record_batch" where
  "shown_batch x = \<lparr>rb_len = 1, rb_schema = shown_schema, rb_arrays = [Int64Array [Some x]]\<rparr>"

definition shown_polls :: "poll list" where
  "shown_polls = [\<lparr>pl_signal = None, pl_sent = [Inr (shown_batch 1), Inr (shown_batch 2)], pl_senders = True\<rparr>,
     \<lparr>pl_signal = None, pl_sent = [], pl_senders = True\<rparr>, \<lparr>pl_signal = None, pl_sent = [], pl_senders = True\<rparr>,
     \<lparr>pl_signal = None, pl_sent = [], pl_senders = False\<rparr>]"

definition shown_iterator :: receiver_iterator where
  "shown_iterator = \<lparr>it_rx = Some (receiver_new True [0]), it_dtype = StructType shown_schema, it_dropped = None,
     it_restored = []\<rparr>"

lemma shown_pulls:
  "pulls strict_struct 4 shown_polls shown_iterator =
     [item_shown (StructType shown_schema) (shown_batch 1), item_shown (StructType shown_schema) (shown_batch 2),
      Shown None, Shown None]"
  by (simp add: eval_nat_numeral shown_polls_def shown_iterator_def receiver_next.simps receiver_recv_def
      channel_recv_def arrive_def receiver_new_def channel_send_def item_shown_def drop_receiver_def
      record_batch_to_struct_array_def strict_struct_def fits_def shown_schema_def shown_batch_def)

lemma shown_stream:
  "arrow_c_stream strict_struct (exporter_new shown_schema (receiver_new True [0])) =
     (Some (Inr (ReceiverIterator shown_iterator, Field [] (StructType shown_schema) False)),
      \<lparr>ex_schema = shown_schema, ex_source = None, ex_poisoned = False\<rparr>)"
  by (simp add: arrow_c_stream_def exporter_new_def shown_iterator_def Let_def)

lemma exported_stream_faithful_witness:
  "\<exists>bs tail. [item_shown (StructType shown_schema) (shown_batch 1), item_shown (StructType shown_schema) (shown_batch 2),
       Shown None, Shown None] = map (item_shown (StructType shown_schema)) bs @ tail
     \<and> ends_well (StructType shown_schema) (pending (receiver_new True [0]) shown_polls) bs tail"
  using exported_stream_faithful [OF strict_struct_documented shown_stream, of "receiver_new True [0]" 4 shown_polls]
  by (auto simp: shown_pulls exporter_new_def receiver_new_def)

text \<open>A pending signal ends the wait: a call with a turn that has one does not wait any longer.\<close>

lemma interrupt_returns:
  assumes "\<exists>p \<in> set ps. pl_signal p \<noteq> None"
  shows "receiver_next struct_new ps it \<noteq> Waits"
  using assms
proof (induction ps arbitrary: it)
  case (Cons p ps)
  show ?case
  proof (cases "it_rx it = None \<or> pl_signal p \<noteq> None")
    case True
    then show ?thesis by (auto simp: receiver_next.simps [of struct_new "p # ps"] split: option.split)
  next
    case False
    with Cons.prems have "receiver_next struct_new ps it' \<noteq> Waits" for it' by (intro Cons.IH) auto
    with False show ?thesis
      by (simp add: receiver_next.simps [of struct_new "p # ps"] split: option.split prod.split sum.split)
  qed
qed simp

end
