(* ===== verification/Py_Table_Id.thy ===== *)
theory Py_Table_Id
  imports Py_Error Table_Id
begin

text \<open>
  The Python class of table identifiers (\<open>py-arrow-bigquery/src/table_id.rs\<close>): its constructors,
  the three kinds of argument \<open>parse\<close> accepts, its getters and renderings.
\<close>

text \<open>
  A Python object as \<open>parse\<close> observes it: the identifier when it is one, its text when it is a
  string, what reading an attribute gives, and the name of its type. An attribute that is
  neither None nor a string has the error of its conversion.
\<close>

datatype attr_value = AttrNone | AttrStr string | AttrOther py_err

record py_object =
  po_table_id :: "table_id option"
  po_str :: "string option"
  po_getattr :: "string \<Rightarrow> (py_err, attr_value) res"
  po_type :: string

definition get_optional_string_attr :: "py_object \<Rightarrow> string \<Rightarrow> (py_err, string option) res" where
  "get_optional_string_attr obj attr =
     (case po_getattr obj attr of
        Inr AttrNone \<Rightarrow> Inr None
      | Inr (AttrStr s) \<Rightarrow> Inr (Some s)
      | Inr (AttrOther err) \<Rightarrow> Inl err
      | Inl err \<Rightarrow> if is_instance_of PyAttributeError err then Inr None else Inl err)"

record py_table_id =
  inner :: table_id

definition py_table_id_new :: "string \<Rightarrow> string \<Rightarrow> string \<Rightarrow> py_table_id" where
  "py_table_id_new p d t = \<lparr>inner = new_table_id p d t\<rparr>"

definition py_from_string :: "winnow \<Rightarrow> string \<Rightarrow> (py_err, py_table_id) res" where
  "py_from_string w s =
     (case table_id_from_str w s of
        Inl _ \<Rightarrow> Inl (value_error (''Invalid table ID: '' @ s))
      | Inr i \<Rightarrow> Inr \<lparr>inner = i\<rparr>)"

definition py_from_str :: "winnow \<Rightarrow> string \<Rightarrow> (py_err, py_table_id) res" where
  "py_from_str w s = py_from_string w s"

definition project_attr :: "py_object \<Rightarrow> (py_err, string option) res" where
  "project_attr obj = rbind (get_optional_string_attr obj ''project'') (\<lambda>p.
     case p of Some p \<Rightarrow> Inr (Some p) | None \<Rightarrow> get_optional_string_attr obj ''project_id'')"

definition py_parse :: "winnow \<Rightarrow> py_object \<Rightarrow> (py_err, py_table_id) res" where
  "py_parse w arg =
     (case po_table_id arg of
        Some existing \<Rightarrow> Inr \<lparr>inner = existing\<rparr>
      | None \<Rightarrow>
     (case po_str arg of
        Some s \<Rightarrow> py_from_string w s
      | None \<Rightarrow>
          rbind (project_attr arg) (\<lambda>project.
          rbind (get_optional_string_attr arg ''dataset_id'') (\<lambda>dataset.
          rbind (get_optional_string_attr arg ''table_id'') (\<lambda>table.
            (case (project, dataset, table) of
               (Some p, Some d, Some t) \<Rightarrow> Inr (py_table_id_new p d t)
             | _ \<Rightarrow> Inl (type_error
                 (''Expected table_id to be a string or BigQuery table object, got '' @ po_type arg))))))))"

definition py_project_id :: "py_table_id \<Rightarrow> string" where "py_project_id i = project_id (inner i)"
definition py_dataset_id :: "py_table_id \<Rightarrow> string" where "py_dataset_id i = dataset_id (inner i)"
definition py_table_id_of :: "py_table_id \<Rightarrow> string" where "py_table_id_of i = tbl_id (inner i)"
definition py_project :: "py_table_id \<Rightarrow> string" where "py_project i = project_id (inner i)"

definition in_quotes :: "string \<Rightarrow> string" where "in_quotes s = CHR 0x27 # s @ [CHR 0x27]"

definition py_repr :: "py_table_id \<Rightarrow> string" where
  "py_repr i = ''BigQueryTableId(project_id='' @ in_quotes (project_id (inner i))
     @ '', dataset_id='' @ in_quotes (dataset_id (inner i))
     @ '', table_id='' @ in_quotes (tbl_id (inner i)) @ '')''"

definition py_str :: "py_table_id \<Rightarrow> string" where
  "py_str i = project_id (inner i) @ ''.'' @ dataset_id (inner i) @ ''.'' @ tbl_id (inner i)"

definition into_table_id :: "py_table_id \<Rightarrow> table_id" where "into_table_id i = inner i"
definition table_id_of_ref :: "py_table_id \<Rightarrow> table_id" where "table_id_of_ref i = inner i"
definition from_table_id :: "table_id \<Rightarrow> py_table_id" where "from_table_id i = \<lparr>inner = i\<rparr>"

definition py_table_id_from_str :: "winnow \<Rightarrow> string \<Rightarrow> (bq_error, py_table_id) res" where
  "py_table_id_from_str w s = rbind (table_id_from_str w s) (\<lambda>i. Inr \<lparr>inner = i\<rparr>)"

section \<open>What parsing accepts\<close>

lemma py_str_display: "py_str \<lparr>inner = i\<rparr> = table_id_display i"
  by (simp add: py_str_def table_id_display_def)

text \<open>The value of an attribute that is missing or None counts as absent.\<close>

definition absent :: "py_object \<Rightarrow> string \<Rightarrow> bool" where
  "absent obj a \<longleftrightarrow> (case po_getattr obj a of
     Inr AttrNone \<Rightarrow> True | Inl err \<Rightarrow> is_instance_of PyAttributeError err | _ \<Rightarrow> False)"

lemma get_optional_string_attr_iff:
  "get_optional_string_attr obj a = Inr (Some s) \<longleftrightarrow> po_getattr obj a = Inr (AttrStr s)"
  "get_optional_string_attr obj a = Inr None \<longleftrightarrow> absent obj a"
  "get_optional_string_attr obj a = Inl e \<longleftrightarrow> po_getattr obj a = Inr (AttrOther e)
     \<or> po_getattr obj a = Inl e \<and> \<not> is_instance_of PyAttributeError e"
  by (auto simp: get_optional_string_attr_def absent_def split: sum.split attr_value.split)


text \<open>The project of an object: its attribute \<open>project\<close>, else \<open>project_id\<close>.\<close>

definition has_project :: "py_object \<Rightarrow> string \<Rightarrow> bool" where
  "has_project obj p \<longleftrightarrow> po_getattr obj ''project'' = Inr (AttrStr p)
     \<or> absent obj ''project'' \<and> po_getattr obj ''project_id'' = Inr (AttrStr p)"

text \<open>The exception that reading an attribute lets through: its own, unless it is an AttributeError, or the
  one of converting a value that is no string. And the attributes that are read, in order.\<close>

definition raised_by :: "py_object \<Rightarrow> string \<Rightarrow> py_err option" where
  "raised_by obj a =
     (case po_getattr obj a of
        Inl err \<Rightarrow> if is_instance_of PyAttributeError err then None else Some err
      | Inr (AttrOther err) \<Rightarrow> Some err
      | Inr v \<Rightarrow> None)"

definition attrs_read :: "py_object \<Rightarrow> string list" where
  "attrs_read obj = ''project'' # (if absent obj ''project'' then [''project_id''] else []) @ [''dataset_id'', ''table_id'']"

definition has_attr :: "py_object \<Rightarrow> string \<Rightarrow> string \<Rightarrow> bool" where
  "has_attr obj a s \<longleftrightarrow> po_getattr obj a = Inr (AttrStr s)"

definition unexpected_object :: "py_object \<Rightarrow> py_err" where
  "unexpected_object obj = type_error (''Expected table_id to be a string or BigQuery table object, got '' @ po_type obj)"

text \<open>All of them in terms of what reading an optional string gives.\<close>

lemma attr_readings:
  "raised_by obj a = (case get_optional_string_attr obj a of Inl e \<Rightarrow> Some e | Inr _ \<Rightarrow> None)"
  "absent obj a \<longleftrightarrow> get_optional_string_attr obj a = Inr None"
  "has_attr obj a s \<longleftrightarrow> get_optional_string_attr obj a = Inr (Some s)"
  "has_project obj p \<longleftrightarrow> get_optional_string_attr obj ''project'' = Inr (Some p)
     \<or> get_optional_string_attr obj ''project'' = Inr None \<and> get_optional_string_attr obj ''project_id'' = Inr (Some p)"
  by (auto simp: raised_by_def has_attr_def has_project_def get_optional_string_attr_iff absent_def
      get_optional_string_attr_def split: sum.split attr_value.split)

text \<open>Reading in order: the first exception, else the identifier or the TypeError.\<close>

lemma parse_object:
  assumes "po_table_id obj = None" "po_str obj = None"
  shows "case List.map_filter (raised_by obj) (attrs_read obj) of
      e # _ \<Rightarrow> py_parse w obj = Inl e
    | [] \<Rightarrow>
        (\<forall>p d t. has_project obj p \<and> has_attr obj ''dataset_id'' d \<and> has_attr obj ''table_id'' t \<longrightarrow>
           py_parse w obj = Inr (py_table_id_new p d t))
        \<and> ((\<forall>p. \<not> has_project obj p) \<or> absent obj ''dataset_id'' \<or> absent obj ''table_id'' \<longrightarrow>
           py_parse w obj = Inl (unexpected_object obj))"
proof -
  obtain p q d t where attrs: "get_optional_string_attr obj ''project'' = p" "get_optional_string_attr obj ''project_id'' = q"
    "get_optional_string_attr obj ''dataset_id'' = d" "get_optional_string_attr obj ''table_id'' = t"
    by blast
  have run: "py_parse w obj =
      rbind (rbind p (\<lambda>x. case x of Some p \<Rightarrow> Inr (Some p) | None \<Rightarrow> q)) (\<lambda>project. rbind d (\<lambda>dataset. rbind t (\<lambda>table.
        (case (project, dataset, table) of
           (Some p, Some d, Some t) \<Rightarrow> Inr (py_table_id_new p d t) | _ \<Rightarrow> Inl (unexpected_object obj)))))"
    unfolding py_parse_def assms option.case project_attr_def attrs unexpected_object_def by (rule refl)
  have reading: "List.map_filter (raised_by obj) (attrs_read obj) =
      List.map_filter (\<lambda>r. case r of Inl e \<Rightarrow> Some e | Inr _ \<Rightarrow> None) (p # (if p = Inr None then [q] else []) @ [d, t])"
    by (simp add: List.map_filter_def attrs_read_def attr_readings attrs)
  show ?thesis
    unfolding reading run attr_readings attrs
    by (cases p; cases q; cases d; cases t) (auto simp: List.map_filter_def split: option.split)
qed

text \<open>C40: Python's parse takes an identifier as it is, and of a string exactly what the parser makes of it,
  a ValueError naming the string when the parser refuses it. Of any other object it reads project (and
  project id when that is absent), dataset id and table id, and lets the first exception through that
  a reading raises, other than an AttributeError. When none is raised it gives the identifier of the three
  strings if all are there, and the TypeError naming the object's type if one is absent.\<close>

theorem py_parse_outcome:
  "case (po_table_id obj, po_str obj) of
     (Some t, _) \<Rightarrow> py_parse w obj = Inr \<lparr>inner = t\<rparr>
   | (None, Some s) \<Rightarrow> py_parse w obj =
       (case table_id_from_str w s of Inr i \<Rightarrow> Inr \<lparr>inner = i\<rparr> | Inl _ \<Rightarrow> Inl (value_error (''Invalid table ID: '' @ s)))
   | (None, None) \<Rightarrow>
       (case List.map_filter (raised_by obj) (attrs_read obj) of
          e # _ \<Rightarrow> py_parse w obj = Inl e
        | [] \<Rightarrow>
            if \<exists>p d t. has_project obj p \<and> has_attr obj ''dataset_id'' d \<and> has_attr obj ''table_id'' t
            then \<exists>p d t. has_project obj p \<and> has_attr obj ''dataset_id'' d \<and> has_attr obj ''table_id'' t
              \<and> py_parse w obj = Inr (py_table_id_new p d t)
            else py_parse w obj = Inl (unexpected_object obj))"
proof (cases "po_table_id obj = None \<and> po_str obj = None")
  case True
  have none: "List.map_filter (raised_by obj) (attrs_read obj) = [] \<Longrightarrow>
      (\<exists>d. has_attr obj ''dataset_id'' d) \<or> absent obj ''dataset_id''"
    "List.map_filter (raised_by obj) (attrs_read obj) = [] \<Longrightarrow>
      (\<exists>t. has_attr obj ''table_id'' t) \<or> absent obj ''table_id''"
    by (auto simp: attr_readings attrs_read_def List.map_filter_def split: if_splits option.splits sum.splits)
  from True parse_object [of obj w] none show ?thesis
    by (cases "List.map_filter (raised_by obj) (attrs_read obj)") (simp_all, blast)
next
  case False
  then show ?thesis
    by (cases "po_table_id obj"; cases "po_str obj") (auto simp: py_parse_def py_from_string_def split: sum.split)
qed

text \<open>A duck-typed table whose project is named by its second attribute, and one without a dataset.\<close>

definition duck :: "string list \<Rightarrow> py_object" where
  "duck names = \<lparr>po_table_id = None, po_str = None,
     po_getattr = (\<lambda>a. if a \<in> set names then Inr (AttrStr a) else Inl (PyErr [PyAttributeError, PyException] a)),
     po_type = ''Duck''\<rparr>"

lemma ducks:
  "py_parse w (duck [''project_id'', ''dataset_id'', ''table_id'']) =
     Inr (py_table_id_new ''project_id'' ''dataset_id'' ''table_id'')"
  "py_parse w (duck [''project'', ''table_id'']) = Inl (unexpected_object (duck [''project'', ''table_id'']))"
  by (simp_all add: py_parse_def duck_def project_attr_def get_optional_string_attr_def is_instance_of_def
      unexpected_object_def)

text \<open>The getters give back the parts of the constructor, and the text of an identifier is the one the
  parser reads.\<close>

lemma getters:
  "py_project_id (py_table_id_new p d t) = p" "py_project (py_table_id_new p d t) = p"
  "py_dataset_id (py_table_id_new p d t) = d" "py_table_id_of (py_table_id_new p d t) = t"
  "py_str i = table_id_display (into_table_id i)" "from_table_id (into_table_id i) = i"
  "py_repr (py_table_id_new ''p'' ''d'' ''t'') =
     ''BigQueryTableId(project_id='' @ in_quotes ''p'' @ '', dataset_id='' @ in_quotes ''d''
       @ '', table_id='' @ in_quotes ''t'' @ '')''"
  by (simp_all add: py_project_id_def py_project_def py_dataset_id_def py_table_id_of_def py_table_id_new_def
      new_table_id_def py_str_def table_id_display_def into_table_id_def from_table_id_def py_repr_def)

end
