(* ===== verification/Py_Client.thy ===== *)
theory Py_Client
  imports Client_Builder Query_Read Py_Stream Py_Table_Id Auth
begin

text \<open>
  The Python class \<open>Client\<close> (\<open>py-arrow-bigquery/src/lib.rs\<close>): building it from keyword arguments,
  the arguments of \<open>read_table\<close> and \<open>read_query\<close>, and how their results and errors cross to
  Python; and the exporters the Python tests use (\<open>testing.rs\<close>).
\<close>

section \<open>Building a client\<close>

text \<open>A credentials provider is named by a number and may be Python's None; the credentials made from
  it carry a new token source.\<close>

definition provider_credentials :: "nat option option \<Rightarrow> (nat \<times> token_source) option" where
  "provider_credentials credentials_provider =
     (case credentials_provider of
        Some (Some provider) \<Rightarrow> Some (provider, source_new)
      | _ \<Rightarrow> None)"

definition py_client_builder ::
  "string \<Rightarrow> (nat \<times> token_source) option \<Rightarrow> string option \<Rightarrow> string option \<Rightarrow> string option
     \<Rightarrow> service_config_builder" where
  "py_client_builder quota_project_id cred user_agent bq_endpoint bqstorage_endpoint =
     (let b = with_quota_project_id (with_user_agent client_builder user_agent) (Some quota_project_id);
          b = (case cred of Some (c, _) \<Rightarrow> with_cred b c | None \<Rightarrow> b);
          b = (case bq_endpoint of Some e \<Rightarrow> with_bq_endpoint b e | None \<Rightarrow> b)
      in case bqstorage_endpoint of Some e \<Rightarrow> with_bqstorage_endpoint b e | None \<Rightarrow> b)"

definition py_client_new ::
  "gax \<Rightarrow> builder_api \<Rightarrow> process \<Rightarrow> string \<Rightarrow> nat option option \<Rightarrow> string option \<Rightarrow> string option
     \<Rightarrow> string option \<Rightarrow> ((raised, client \<times> service_settings \<times> service_settings) res \<times> process) option" where
  "py_client_new gx ba p quota_project_id credentials_provider user_agent bq_endpoint bqstorage_endpoint =
     map_option (map_prod (rmap_err to_py_err) id)
       (from_builder gx ba p (py_client_builder quota_project_id (provider_credentials credentials_provider)
          user_agent bq_endpoint bqstorage_endpoint))"

section \<open>Arguments\<close>

definition parse_compression_codec :: "string \<Rightarrow> (raised, compression_codec) res" where
  "parse_compression_codec codec_name =
     (if codec_name = ''unspecified'' then Inr CompressionUnspecified
      else if codec_name = ''lz4frame'' then Inr Lz4Frame
      else if codec_name = ''zstd'' then Inr Zstd
      else Inl (raise_plain (value_error (''got unexpected compression codec '' @ codec_name))))"

text \<open>The arguments of \<open>read_table\<close>; a snapshot time is what extracting it as a UTC time gives.\<close>

record table_args =
  ta_arrow_buffer_compression :: string
  ta_maintain_order :: bool
  ta_max_stream_count :: "i32 option"
  ta_row_restriction :: string
  ta_sample_percentage :: "f64_bits option"
  ta_selected_fields :: "string list option"
  ta_snapshot_time :: "(py_err, i64 \<times> u32) res option"

definition default_table_args :: table_args where
  "default_table_args = \<lparr>ta_arrow_buffer_compression = ''lz4frame'', ta_maintain_order = False,
     ta_max_stream_count = None, ta_row_restriction = [], ta_sample_percentage = None,
     ta_selected_fields = None, ta_snapshot_time = None\<rparr>"

definition parse_read_options :: "table_args \<Rightarrow> (raised, read_options) res" where
  "parse_read_options a =
     rbind (case ta_snapshot_time a of
              Some dt \<Rightarrow> rmap_err (\<lambda>_. raise_plain (value_error ''failed to extract snapshot_time''))
                (map_sum id Some dt)
            | None \<Rightarrow> Inr None) (\<lambda>snapshot_time.
     rbind (parse_compression_codec (ta_arrow_buffer_compression a)) (\<lambda>codec.
       Inr \<lparr>rd_maintain_order = ta_maintain_order a,
            rd_snapshot_time = snapshot_time,
            rd_selected_fields = unwrap_or [] (ta_selected_fields a),
            rd_row_restriction = ta_row_restriction a,
            rd_arrow_buffer_compression = Some codec,
            rd_sample_percentage = ta_sample_percentage a,
            rd_max_stream_count = ta_max_stream_count a\<rparr>))"

section \<open>Reading\<close>

text \<open>What a call returns to Python: the exporter and the tasks started for it.\<close>

definition py_read_table ::
  "world \<Rightarrow> client \<Rightarrow> py_table_id \<Rightarrow> table_args \<Rightarrow> rpc list
     \<Rightarrow> (raised, arrow_stream_exporter \<times> started) res \<times> rpc list" where
  "py_read_table w c table a log =
     (case parse_read_options a of
        Inl e \<Rightarrow> (Inl e, log)
      | Inr read_options \<Rightarrow>
          (case read_table (wd_platform w) (wd_ipc w) (wd_gax w) (wd_services w) c (inner table) read_options log of
             (Inl err, log') \<Rightarrow> (Inl (to_py_err err), log')
           | (Inr (schema, receiver, readers), log') \<Rightarrow>
               (Inr (exporter_new schema receiver, TableReaders readers), log')))"

definition py_query :: "client \<Rightarrow> string \<Rightarrow> compression_codec \<Rightarrow> bool \<Rightarrow> bool option \<Rightarrow> query" where
  "py_query c sql codec maintain_order use_query_cache =
     with_use_query_cache (with_maintain_order (with_arrow_buffer_compression (client_query c sql) (Some codec)) maintain_order)
       use_query_cache"

text \<open>None inside the result: still waiting for the schema.\<close>

definition py_read_query ::
  "batch_maker \<Rightarrow> world \<Rightarrow> client \<Rightarrow> string \<Rightarrow> string \<Rightarrow> bool \<Rightarrow> bool \<Rightarrow> bool option \<Rightarrow> rpc list
     \<Rightarrow> (raised, (arrow_stream_exporter \<times> started) option) res \<times> rpc list" where
  "py_read_query try_new w c sql codec_name is_dry_run maintain_order use_query_cache log =
     (case parse_compression_codec codec_name of
        Inl e \<Rightarrow> (Inl e, log)
      | Inr codec \<Rightarrow>
          (let q = py_query c sql codec maintain_order use_query_cache
           in if is_dry_run
              then (case dry_run try_new (wd_services w) c q log of
                      (Inl err, log') \<Rightarrow> (Inl (to_py_err err), log')
                    | (Inr batch, log') \<Rightarrow> (Inr (Some (exporter_from_record_batch batch, NothingStarted)), log'))
              else (case query_read w c q log of
                      (Inl err, log') \<Rightarrow> (Inl (to_py_err err), log')
                    | (Inr r, log') \<Rightarrow>
                        (Inr (map_option (\<lambda>(schema, receiver, started). (exporter_new schema receiver, started)) r),
                         log'))))"

text \<open>The names the native module exports.\<close>

definition module_names :: "bool \<Rightarrow> string list" where
  "module_names testing =
     [''BigQueryError'', ''Client'', ''BigQueryTableId''] @
     (if testing then [''_create_test_exporter'', ''_test_create_exporter_with_drop_flag'', ''DropFlag''] else [])"

section \<open>Exporters for the tests\<close>

text \<open>The one task of these exporters holds the sender until it is aborted; the flag is set when the
  task, number 0, is dropped.\<close>

definition placeholder_schema :: arrow_schema where
  "placeholder_schema = [Field ''placeholder'' Int32Type True]"

definition create_test_exporter :: arrow_stream_exporter where
  "create_test_exporter = exporter_new placeholder_schema (receiver_new_for_testing [0])"

definition test_create_exporter_with_drop_flag :: "arrow_stream_exporter \<times> (receiver \<Rightarrow> bool)" where
  "test_create_exporter_with_drop_flag =
     (exporter_new placeholder_schema (receiver_new_for_testing [0]), \<lambda>rx. 0 \<in> set (rx_aborted rx))"

lemma drop_flag_set:
  "snd test_create_exporter_with_drop_flag (receiver_drop (receiver_new_for_testing [0]))"
  by (simp add: test_create_exporter_with_drop_flag_def receiver_drop_def receiver_abort_def receiver_new_def receiver_new_for_testing_def)

section \<open>Arguments are checked before any call\<close>

text \<open>The codecs Python may name, and the two errors of bad arguments.\<close>

definition codec_named :: "string \<Rightarrow> compression_codec option" where
  "codec_named = map_of [(''unspecified'', CompressionUnspecified), (''lz4frame'', Lz4Frame), (''zstd'', Zstd)]"

definition bad_codec :: "string \<Rightarrow> raised" where
  "bad_codec codec_name = raise_plain (value_error (''got unexpected compression codec '' @ codec_name))"

definition bad_snapshot_time :: raised where
  "bad_snapshot_time = raise_plain (value_error ''failed to extract snapshot_time'')"

lemma parse_compression_codec_named:
  "parse_compression_codec s = (case codec_named s of None \<Rightarrow> Inl (bad_codec s) | Some codec \<Rightarrow> Inr codec)"
  by (simp add: parse_compression_codec_def codec_named_def bad_codec_def)

text \<open>The time given, if one is.\<close>

definition time_given :: "table_args \<Rightarrow> (i64 \<times> u32) option" where
  "time_given a = (case ta_snapshot_time a of Some (Inr t) \<Rightarrow> Some t | _ \<Rightarrow> None)"

lemma parse_read_options_cases:
  "parse_read_options a =
     (if \<exists>x. ta_snapshot_time a = Some (Inl x) then Inl bad_snapshot_time
      else case codec_named (ta_arrow_buffer_compression a) of
        None \<Rightarrow> Inl (bad_codec (ta_arrow_buffer_compression a))
      | Some codec \<Rightarrow>
          Inr \<lparr>rd_maintain_order = ta_maintain_order a, rd_snapshot_time = time_given a,
               rd_selected_fields = (case ta_selected_fields a of None \<Rightarrow> [] | Some fs \<Rightarrow> fs),
               rd_row_restriction = ta_row_restriction a, rd_arrow_buffer_compression = Some codec,
               rd_sample_percentage = ta_sample_percentage a, rd_max_stream_count = ta_max_stream_count a\<rparr>)"
proof (cases "ta_snapshot_time a")
  case None
  then show ?thesis
    by (cases "codec_named (ta_arrow_buffer_compression a)"; cases "ta_selected_fields a")
      (simp_all add: parse_read_options_def parse_compression_codec_named time_given_def unwrap_or_def)
next
  case (Some dt)
  then show ?thesis
    by (cases dt; cases "codec_named (ta_arrow_buffer_compression a)"; cases "ta_selected_fields a")
      (simp_all add: parse_read_options_def parse_compression_codec_named time_given_def unwrap_or_def
        bad_snapshot_time_def)
qed

text \<open>C38: Arguments are checked before any request. A read of a table with a snapshot time that is no UTC
  time, and otherwise a read of a table or a query with an unknown codec name, raises the ValueError
  that says so and makes no request. Any other call passes all its arguments on, makes exactly the requests
  of the library, and raises the translated error of the library or hands over the stream it opened
  (for a dry run, the batch).\<close>

theorem arguments_checked_first:
  "py_read_table w c table a log =
     (if \<exists>x. ta_snapshot_time a = Some (Inl x) then (Inl bad_snapshot_time, log)
      else case codec_named (ta_arrow_buffer_compression a) of
        None \<Rightarrow> (Inl (bad_codec (ta_arrow_buffer_compression a)), log)
      | Some codec \<Rightarrow>
          (case read_table (wd_platform w) (wd_ipc w) (wd_gax w) (wd_services w) c (inner table)
                  \<lparr>rd_maintain_order = ta_maintain_order a, rd_snapshot_time = time_given a,
                   rd_selected_fields = (case ta_selected_fields a of None \<Rightarrow> [] | Some fs \<Rightarrow> fs),
                   rd_row_restriction = ta_row_restriction a, rd_arrow_buffer_compression = Some codec,
                   rd_sample_percentage = ta_sample_percentage a, rd_max_stream_count = ta_max_stream_count a\<rparr> log of
             (Inl err, log') \<Rightarrow> (Inl (to_py_err err), log')
           | (Inr (schema, rx, readers), log') \<Rightarrow> (Inr (exporter_new schema rx, TableReaders readers), log')))
   \<and> py_read_query try_new w c sql codec_name dry ordered cache log =
     (case codec_named codec_name of
        None \<Rightarrow> (Inl (bad_codec codec_name), log)
      | Some codec \<Rightarrow>
          (let q = \<lparr>q_sql = sql, q_arrow_buffer_compression = Some codec, q_maintain_order = ordered,
                    q_use_query_cache = cache, q_initial_wait_ms = INITIAL_WAIT_MS_DEFAULT\<rparr>
           in if dry
              then (case dry_run try_new (wd_services w) c q log of
                      (Inl err, log') \<Rightarrow> (Inl (to_py_err err), log')
                    | (Inr batch, log') \<Rightarrow> (Inr (Some (exporter_from_record_batch batch, NothingStarted)), log'))
              else (case query_read w c q log of
                      (Inl err, log') \<Rightarrow> (Inl (to_py_err err), log')
                    | (Inr None, log') \<Rightarrow> (Inr None, log')
                    | (Inr (Some (schema, rx, started)), log') \<Rightarrow> (Inr (Some (exporter_new schema rx, started)), log'))))"
  unfolding py_read_table_def py_read_query_def parse_read_options_cases parse_compression_codec_named
  by (rule conjI)
    (auto simp: py_query_def client_query_def query_new_def with_use_query_cache_def with_maintain_order_def
      with_arrow_buffer_compression_def Let_def split: option.split prod.split sum.split)

text \<open>A snapshot time that does not extract and a codec that does not exist, with any client and world.\<close>

lemma bad_arguments:
  "py_read_table w c table (default_table_args\<lparr>ta_snapshot_time := Some (Inl (type_error ''int''))\<rparr>) log =
     (Inl bad_snapshot_time, log)"
  "py_read_query try_new w c ''SELECT 1'' ''snappy'' dry True None log = (Inl (bad_codec ''snappy''), log)"
  by (simp_all add: py_read_table_def py_read_query_def parse_read_options_cases parse_compression_codec_named
      codec_named_def)

end
