(* ===== verification/Reader_Tests.thy ===== *)
theory Reader_Tests
  imports Read_Stream
begin

text \<open>
  The unit tests of \<open>bigquery_read_stream.rs\<close> on the model: each test is the value of its
  assertions, with the stubs the test sets up, and evaluates to true. The IPC encoding that the
  tests take from polars is replaced by one where a payload has a byte per row.
\<close>

section \<open>Payloads and stubs\<close>

definition test_field :: field where "test_field = Field ''col1'' Int64Type False"

definition end_of_stream :: bytes where "end_of_stream = [255, 255, 255, 255, 0, 0, 0, 0]"

definition test_ipc :: ipc where
  "test_ipc =
     \<lparr>ipc_read_metadata = (\<lambda>bs. if bs = [1] then Inr \<lparr>md_schema = [test_field], md_ipc = bs\<rparr>
        else Inl (StdError ''out of spec'' None None)),
      ipc_stream = (\<lambda>bs md. if bs = end_of_stream then []
        else [Inr (Some_batch \<lparr>rb_len = of_nat (length bs), rb_schema = md_schema md,
                rb_arrays = [Int64Array (map (\<lambda>b. Some (ucast b)) bs)]\<rparr>)])\<rparr>"

definition create_test_arrow_payload_with_range :: "nat \<Rightarrow> nat \<Rightarrow> bytes \<times> bytes" where
  "create_test_arrow_payload_with_range start n = ([1], map of_nat [start..<start + n])"

definition new_response :: response where
  "new_response = \<lparr>rsp_schema = None, rsp_rows = None, rsp_row_count = 0, rsp_total_estimated_row_count = None\<rparr>"

definition create_test_arrow_payload :: "nat \<Rightarrow> bytes \<times> response" where
  "create_test_arrow_payload num_rows =
     (case create_test_arrow_payload_with_range 0 num_rows of
        (schema_bytes, batch_bytes) \<Rightarrow>
          (schema_bytes, new_response\<lparr>rsp_rows := Some (ArrowRecordBatch batch_bytes), rsp_row_count := of_nat num_rows\<rparr>))"

definition service_error :: "grpc_code \<Rightarrow> string \<Rightarrow> gax_error" where
  "service_error code message =
     \<lparr>ge_transient_before_rpc = False, ge_io = False, ge_timeout = False, ge_connect = False,
      ge_transport = False, ge_http_status = None,
      ge_status = Some \<lparr>st_code = code, st_message = message, st_details = []\<rparr>,
      ge_std = StdError message None None\<rparr>"

definition transient_error :: gax_error where
  "transient_error = service_error Unavailable ''transient failure''"

definition permanent_error :: gax_error where
  "permanent_error = service_error PermissionDenied ''permission denied''"

definition no_backoff :: backoff_policy where "no_backoff st = 0"

text \<open>\<open>gax_ref\<close> with errors that show that they are exhausted, and an attempt limit that also counts
  throttled attempts.\<close>

definition test_gax :: gax where
  "test_gax = gax_ref\<lparr>gx_exhausted := (\<lambda>e. e\<lparr>ge_std := StdError ''exhausted'' (Some (ge_std e)) None\<rparr>),
     gx_with_attempt_limit := (\<lambda>p n. (limit_attempts p n)\<lparr>rp_on_throttle := (\<lambda>now st e.
       if n \<le> rs_attempt_count st then ThrottleExhausted e else rp_on_throttle p now st e)\<rparr>)\<rparr>"

definition test_retry_config :: "u32 \<Rightarrow> stream_retry_config option" where
  "test_retry_config max_attempts =
     stream_retry_config_new test_gax (Some (gx_with_attempt_limit test_gax (retryable_errors test_gax) max_attempts))
       (Some no_backoff) 0"

definition test_cfg :: "stream_retry_config option \<Rightarrow> reader_cfg" where
  "test_cfg config = \<lparr>rc_ipc = test_ipc, rc_gax = test_gax, rc_retry = the config\<rparr>"

definition test_request :: read_rows_request where
  "test_request = \<lparr>rr_read_stream = ''streams/1'', rr_offset = 0, rr_buffer_compression = None,
     rr_quota_project = None, rr_user_agent = None\<rparr>"

definition make_test_read_stream :: "stream_metadata option \<Rightarrow> reader" where
  "make_test_read_stream metadata = new_reader test_request 0 metadata False None 0"

text \<open>The next reply of the stub, which gives an empty stream when it has none left.\<close>

definition mock_read_rows :: "(gax_error, item list) res list \<Rightarrow> step_in" where
  "mock_read_rows streams =
     \<lparr>in_cancelled = False, in_select_cancelled = False,
      in_send = (\<lambda>req. case streams of s # _ \<Rightarrow> s | [] \<Rightarrow> Inr []),
      in_reserve = Reserved, in_throttled = False, in_now = 0\<rparr>"

definition requests :: "effect list \<Rightarrow> read_rows_request list" where
  "requests es = concat (map (\<lambda>e. case e of Connect req \<Rightarrow> [req] | _ \<Rightarrow> []) es)"

definition errors_received :: "effect list \<Rightarrow> bq_error list" where
  "errors_received es = concat (map (\<lambda>e. case e of SendError err \<Rightarrow> [err] | _ \<Rightarrow> []) es)"

definition rows_received :: "effect list \<Rightarrow> i64 list" where
  "rows_received es = concat (map (\<lambda>e. case e of
     PushJob job \<Rightarrow> (case decode_arrow_record_batches test_ipc (dj_bytes job) (dj_expected_row_count job) (dj_metadata job) of
       Inr batches \<Rightarrow> map rb_len batches | Inl _ \<Rightarrow> []) | _ \<Rightarrow> []) es)"

definition retry_at :: "u32 \<Rightarrow> retry_state" where
  "retry_at n = (new_retry_state 0 True)\<lparr>rs_attempt_count := n\<rparr>"

text \<open>One step from a state, with the replies of the stub.\<close>

definition step_from ::
  "stream_retry_config option \<Rightarrow> stream_metadata option \<Rightarrow> (gax_error, item list) res list \<Rightarrow> read_state
     \<Rightarrow> read_state \<times> effect list" where
  "step_from config metadata streams st =
     (case step (test_cfg config) (mock_read_rows streams) ((make_test_read_stream metadata)\<lparr>rd_state := st\<rparr>) of
        (r, es) \<Rightarrow> (rd_state r, es))"

definition test_metadata :: stream_metadata where
  "test_metadata = \<lparr>md_schema = [test_field], md_ipc = [1]\<rparr>"

definition status_code :: "bq_error \<Rightarrow> grpc_code option" where
  "status_code e = (case e of Grpc g \<Rightarrow> map_option st_code (ge_status g) | _ \<Rightarrow> None)"

lemmas test_defs =
  step_from_def test_cfg_def mock_read_rows_def make_test_read_stream_def new_reader_def retry_at_def
  new_retry_state_def test_retry_config_def stream_retry_config_new_def test_gax_def gax_ref_def
  limit_attempts_def retryable_errors_def retryable_errors_on_error_def is_retryable_error_def
  transient_error_def permanent_error_def service_error_def no_backoff_def
  step_def step_connecting_def step_backoff_def step_reading_def handle_error_def fail_with_def
  send_fatal_error_def requests_def errors_received_def rows_received_def status_code_def test_request_def
  read_response_def read_page_def response_metadata_def extract_response_arrow_bytes_def
  validate_non_empty_arrow_bytes_def check_first_page_def checked_add_i64_def
  create_test_arrow_payload_def create_test_arrow_payload_with_range_def new_response_def test_metadata_def
  decode_arrow_record_batches_def test_ipc_def end_of_stream_def parse_arrow_schema_def

section \<open>One step\<close>

definition step_connecting_to_reading :: bool where
  "step_connecting_to_reading =
     (case step_from (test_retry_config 5) None [Inr []] (Connecting 42 (retry_at 2)) of
        (Reading offset (Some retry_state) _, es) \<Rightarrow>
          offset = 42 \<and> rs_attempt_count retry_state = 2 \<and> map rr_offset (requests es) = [42]
      | _ \<Rightarrow> False)"

definition step_connecting_retryable_error :: bool where
  "step_connecting_retryable_error =
     (case step_from (test_retry_config 5) None [Inl transient_error] (Connecting 10 (retry_at 1)) of
        (Backoff offset retry_state deadline, es) \<Rightarrow>
          offset = 10 \<and> rs_attempt_count retry_state = 2 \<and> 0 \<le> deadline
      | _ \<Rightarrow> False)"

definition step_connecting_permanent_error :: bool where
  "step_connecting_permanent_error =
     (case step_from (test_retry_config 5) None [Inl permanent_error] (Connecting 0 (retry_at 0)) of
        (st, es) \<Rightarrow> st = Terminated Finished \<and> map status_code (errors_received es) = [Some PermissionDenied])"

definition step_connecting_deadline_exhausted :: bool where
  "step_connecting_deadline_exhausted =
     (case step_from (stream_retry_config_new test_gax
               (Some (gx_with_time_limit test_gax (retryable_errors test_gax) (10 ^ 9))) (Some (\<lambda>st. 60 * 10 ^ 9)) 0)
             None [Inl transient_error] (Connecting 0 (retry_at 0)) of
        (st, es) \<Rightarrow> st = Terminated Finished \<and> errors_received es = [Grpc (gx_exhausted test_gax transient_error)])"

definition step_backoff_to_connecting :: bool where
  "step_backoff_to_connecting =
     (case step_from (test_retry_config 5) None [] (Backoff 42 (retry_at 2) 0) of
        (Connecting offset retry_state, es) \<Rightarrow> offset = 42 \<and> rs_attempt_count retry_state = 2 \<and> requests es = []
      | _ \<Rightarrow> False)"

definition step_first_message_clears_retry_state :: bool where
  "step_first_message_clears_retry_state =
     (case step_from (test_retry_config 5) (Some test_metadata) []
             (Reading 10 (Some (retry_at 3)) [Inr (snd (create_test_arrow_payload 5))]) of
        (Reading offset retry_state _, es) \<Rightarrow> offset = 15 \<and> retry_state = None \<and> rows_received es = [5]
      | _ \<Rightarrow> False)"

definition step_first_message_retryable_error_retains_retry_state :: bool where
  "step_first_message_retryable_error_retains_retry_state =
     (case step_from (test_retry_config 5) None [] (Reading 7 (Some (retry_at 2)) [Inl transient_error]) of
        (Backoff offset retry_state _, es) \<Rightarrow> offset = 7 \<and> rs_attempt_count retry_state = 3
      | _ \<Rightarrow> False)"

definition step_reading_to_reading :: bool where
  "step_reading_to_reading =
     (case step_from (test_retry_config 5) (Some test_metadata) []
             (Reading 5 None [Inr (snd (create_test_arrow_payload 3))]) of
        (Reading offset retry_state _, es) \<Rightarrow> offset = 8 \<and> retry_state = None \<and> rows_received es = [3]
      | _ \<Rightarrow> False)"

definition step_reading_retryable_error_resets_retry_state :: bool where
  "step_reading_retryable_error_resets_retry_state =
     (case step_from (test_retry_config 5) None [] (Reading 12 None [Inl transient_error]) of
        (Backoff offset retry_state _, es) \<Rightarrow> offset = 12 \<and> rs_attempt_count retry_state = 1
      | _ \<Rightarrow> False)"

definition step_reading_permanent_error_to_terminated :: bool where
  "step_reading_permanent_error_to_terminated =
     (case step_from (test_retry_config 5) None [] (Reading 0 None [Inl permanent_error]) of
        (st, es) \<Rightarrow> st = Terminated Finished \<and> map status_code (errors_received es) = [Some PermissionDenied])"

definition step_reading_eof_to_terminated :: bool where
  "step_reading_eof_to_terminated =
     (fst (step_from (test_retry_config 5) None [] (Reading 0 None [])) = Terminated Finished)"

definition step_terminated_stays_terminated :: bool where
  "step_terminated_stays_terminated =
     (step_from (test_retry_config 5) None [] (Terminated Finished) = (Terminated Finished, [])
      \<and> step_from (test_retry_config 5) None [] (Terminated SwitchToReadSession) = (Terminated SwitchToReadSession, []))"

text \<open>A throttler that always throttles, with two attempts: the throttled attempt exhausts them.\<close>

definition retry_throttler_stops_retries_when_exhausted :: bool where
  "retry_throttler_stops_retries_when_exhausted =
     (case step (test_cfg (stream_retry_config_new test_gax
               (Some (gx_with_attempt_limit test_gax (retryable_errors test_gax) 2)) (Some no_backoff) 0))
             ((mock_read_rows [Inl transient_error])\<lparr>in_throttled := True\<rparr>) (make_test_read_stream None) of
        (r, es) \<Rightarrow> rd_state r = Terminated Finished \<and> length (requests es) = 1
          \<and> map status_code (errors_received es) = [Some Unavailable])"

lemma step_tests:
  "step_connecting_to_reading" "step_connecting_retryable_error" "step_connecting_permanent_error"
  "step_backoff_to_connecting" "step_first_message_retryable_error_retains_retry_state"
  "step_reading_retryable_error_resets_retry_state" "step_reading_permanent_error_to_terminated"
  "step_reading_eof_to_terminated" "step_terminated_stays_terminated"
  by (simp_all add: step_connecting_to_reading_def step_connecting_retryable_error_def
      step_connecting_permanent_error_def step_backoff_to_connecting_def
      step_first_message_retryable_error_retains_retry_state_def step_reading_retryable_error_resets_retry_state_def
      step_reading_permanent_error_to_terminated_def step_reading_eof_to_terminated_def
      step_terminated_stays_terminated_def test_defs Let_def)

lemma exhaustion_tests:
  "step_connecting_deadline_exhausted" "retry_throttler_stops_retries_when_exhausted"
  by (simp_all add: step_connecting_deadline_exhausted_def retry_throttler_stops_retries_when_exhausted_def
      test_defs Let_def)

lemma page_tests: "step_first_message_clears_retry_state" "step_reading_to_reading"
  by (simp_all add: step_first_message_clears_retry_state_def step_reading_to_reading_def test_defs Let_def
      eval_nat_numeral)


text \<open>The payloads of the tests below, spelled out.\<close>

lemma upt_payloads:
  "[0..<2] = [0, Suc 0]" "[0..<3] = [0, Suc 0, 2]" "[0..<4] = [0, Suc 0, 2, 3]" "[0..<5] = [0, Suc 0, 2, 3, 4]"
  by (simp_all add: eval_nat_numeral)

section \<open>One response\<close>

definition read_one :: "response \<Rightarrow> bytes \<Rightarrow> (bq_error, (record_batch \<times> i64) option) res" where
  "read_one response schema = read_rows_response_to_record_batch test_ipc response schema"

definition protocol_failure :: "(bq_error, 'a) res \<Rightarrow> bool" where
  "protocol_failure r = (case r of Inl (Protocol _) \<Rightarrow> True | _ \<Rightarrow> False)"

definition test_read_rows_response_empty :: bool where
  "test_read_rows_response_empty =
     (read_one new_response [] = Inr None
      \<and> read_one (new_response\<lparr>rsp_rows := Some (ArrowRecordBatch [])\<rparr>) [] = Inr None)"

definition test_read_rows_response_protocol_error :: bool where
  "test_read_rows_response_protocol_error =
     protocol_failure (read_one (new_response\<lparr>rsp_rows := Some OtherRows, rsp_row_count := 5\<rparr>) [])"

definition test_read_rows_response_arrow_error :: bool where
  "test_read_rows_response_arrow_error =
     (case read_one (new_response\<lparr>rsp_rows := Some (ArrowRecordBatch [0, 1, 2, 3]), rsp_row_count := 5\<rparr>) [0, 0] of
        Inl (Arrow _) \<Rightarrow> True | _ \<Rightarrow> False)"

definition test_read_rows_response_success_and_mismatch :: bool where
  "test_read_rows_response_success_and_mismatch =
     (case create_test_arrow_payload 5 of
        (schema_bytes, response) \<Rightarrow>
          (case read_one response schema_bytes of
             Inr (Some (batch, rows)) \<Rightarrow> rows = 5 \<and> rb_len batch = 5 | _ \<Rightarrow> False)
          \<and> protocol_failure (read_one (response\<lparr>rsp_row_count := 10\<rparr>) schema_bytes))"

definition test_read_rows_response_row_count_mismatch_when_reader_empty :: bool where
  "test_read_rows_response_row_count_mismatch_when_reader_empty =
     (case create_test_arrow_payload 0 of
        (schema_bytes, _) \<Rightarrow>
          protocol_failure (read_one (new_response\<lparr>rsp_rows := Some (ArrowRecordBatch end_of_stream), rsp_row_count := 10\<rparr>)
            schema_bytes))"

lemma response_tests:
  "test_read_rows_response_empty" "test_read_rows_response_protocol_error" "test_read_rows_response_arrow_error"
  "test_read_rows_response_success_and_mismatch" "test_read_rows_response_row_count_mismatch_when_reader_empty"
  by (simp_all add: test_read_rows_response_empty_def test_read_rows_response_protocol_error_def
      test_read_rows_response_arrow_error_def test_read_rows_response_success_and_mismatch_def
      test_read_rows_response_row_count_mismatch_when_reader_empty_def read_one_def protocol_failure_def
      read_rows_response_to_record_batch_def row_count_mismatch_def test_defs upt_payloads)

section \<open>Whole runs\<close>

text \<open>A run from its options, with the reply of the stub to the connection each step may make.\<close>

definition test_run ::
  "nat \<Rightarrow> bytes option \<Rightarrow> u32 \<Rightarrow> (gax_error, item list) res option list \<Rightarrow> effect list \<times> termination_reason option" where
  "test_run offset schema max_attempts replies =
     read_stream test_ipc test_gax
       (map (\<lambda>r. mock_read_rows (case r of Some s \<Rightarrow> [s] | None \<Rightarrow> [])) replies) 0
       \<lparr>ro_read_rows = test_request\<lparr>rr_read_stream := ''test_stream''\<rparr>, ro_current_offset = of_nat offset,
        ro_metadata = map_option (\<lambda>s. \<lparr>md_schema = [test_field], md_ipc = s\<rparr>) schema, ro_schema_tx = False,
        ro_first_page_check = None, ro_retry_config = the (test_retry_config max_attempts),
        ro_maintain_order = True\<rparr>"

definition test_stream_reconnection_offset :: bool where
  "test_stream_reconnection_offset =
     (case test_run 10 (Some [1]) 3
             [Some (Inr [Inr (snd (create_test_arrow_payload 3)), Inl (service_error Unavailable ''transient disconnection'')]),
              None, None, None, Some (Inr [Inr (snd (create_test_arrow_payload 2))]), None, None] of
        (es, reason) \<Rightarrow> reason = Some Finished \<and> rows_received es = [3, 2] \<and> errors_received es = []
          \<and> map rr_offset (requests es) = [10, 13])"

definition test_connect_read_rows_stream_retries_transient_error :: bool where
  "test_connect_read_rows_stream_retries_transient_error =
     (case test_run 0 (Some [1]) 3
             [Some (Inl (service_error Unavailable ''initial connect unavailable'')), None,
              Some (Inr [Inr (snd (create_test_arrow_payload 4))]), None, None] of
        (es, reason) \<Rightarrow> reason = Some Finished \<and> rows_received es = [4] \<and> errors_received es = []
          \<and> map rr_offset (requests es) = [0, 0])"

definition test_stream_unrecoverable_error_terminates_without_retry :: bool where
  "test_stream_unrecoverable_error_terminates_without_retry =
     (case test_run 0 None 3 [Some (Inr [Inl (service_error PermissionDenied ''permission denied'')]), None] of
        (es, reason) \<Rightarrow> reason = Some Finished \<and> map status_code (errors_received es) = [Some PermissionDenied]
          \<and> CancelAll \<in> set es \<and> length (requests es) = 1)"

definition test_stream_reconnection_exhaustion :: bool where
  "test_stream_reconnection_exhaustion =
     (case test_run 0 None 3
             (replicate 9 (Some (Inr [Inl (service_error Unavailable ''persistent disconnect'')]))) of
        (es, reason) \<Rightarrow> reason = Some Finished \<and> map status_code (errors_received es) = [Some Unavailable]
          \<and> CancelAll \<in> set es)"

lemmas run_test_defs = test_run_def read_stream_def reader_of_def test_defs Let_def

lemma run_tests:
  "test_stream_reconnection_offset" "test_connect_read_rows_stream_retries_transient_error"
  "test_stream_unrecoverable_error_terminates_without_retry"
  by (simp_all add: test_stream_reconnection_offset_def test_connect_read_rows_stream_retries_transient_error_def
      test_stream_unrecoverable_error_terminates_without_retry_def run_test_defs upt_payloads)

lemma replicate_9: "replicate 9 x = [x, x, x, x, x, x, x, x, x]"
  by (simp add: eval_nat_numeral)

lemma exhaustion_run_test: "test_stream_reconnection_exhaustion"
  by (simp add: test_stream_reconnection_exhaustion_def replicate_9 run_test_defs)

end
