(* ===== verification/Unit_Tests.thy ===== *)
theory Unit_Tests
  imports Py_Client Reader_Tests
begin

text \<open>
  Unit tests of \<open>lib.rs\<close>, \<open>error.rs\<close>, \<open>query.rs\<close>, \<open>client_builder.rs\<close> and the Python bindings on
  the model, as in \<open>Reader_Tests\<close>: each is the value of its assertions.
\<close>

section \<open>Table identifiers\<close>

definition parsed :: "string \<Rightarrow> (bq_error, table_id) res" where
  "parsed s = table_id_from_str winnow_ref s"

definition is_err :: "('e, 'a) res \<Rightarrow> bool" where
  "is_err r = (case r of Inl _ \<Rightarrow> True | Inr _ \<Rightarrow> False)"

definition table_id_to_table_path_success :: bool where
  "table_id_to_table_path_success =
     (map_sum id to_table_path (parsed ''my-project.my_dataset.my_table'') =
        Inr ''projects/my-project/datasets/my_dataset/tables/my_table'')"

definition table_id_to_table_path_success_legacy_project :: bool where
  "table_id_to_table_path_success_legacy_project =
     (map_sum id to_table_path (parsed ''google.com:my-project.my_dataset.my_table'') =
        Inr ''projects/google.com:my-project/datasets/my_dataset/tables/my_table'')"

definition test_from_str_valid_string :: bool where
  "test_from_str_valid_string =
     (parsed ''proj.ds.tab'' = Inr \<lparr>project_id = ''proj'', dataset_id = ''ds'', tbl_id = ''tab''\<rparr>)"

definition test_from_str_with_colon :: bool where
  "test_from_str_with_colon =
     (parsed ''google.com:project.ds.tab'' =
        Inr \<lparr>project_id = ''google.com:project'', dataset_id = ''ds'', tbl_id = ''tab''\<rparr>)"

definition test_from_str_multipart :: bool where
  "test_from_str_multipart =
     (parsed ''too.many.parts.here'' =
        Inr \<lparr>project_id = ''too'', dataset_id = ''many.parts'', tbl_id = ''here''\<rparr>)"

definition test_from_str_invalid_format :: bool where
  "test_from_str_invalid_format = (is_err (parsed ''just_a_string'') \<and> is_err (parsed ''proj.tab''))"

definition backtick :: string where "backtick = [CHR 0x60]"

definition test_from_str_backtick :: bool where
  "test_from_str_backtick =
     (is_err (parsed (backtick @ ''proj.ds.tab'' @ backtick))
      \<and> is_err (parsed (''proj.'' @ backtick @ ''ds'' @ backtick @ ''.tab'')))"

definition test_from_str_consecutive_dots :: bool where
  "test_from_str_consecutive_dots = (is_err (parsed ''proj..tab'') \<and> is_err (parsed ''proj.a..b.tab''))"

definition test_from_str_empty_string :: bool where
  "test_from_str_empty_string = is_err (parsed '''')"

definition test_from_str_trailing_and_leading_dots :: bool where
  "test_from_str_trailing_and_leading_dots =
     list_all (\<lambda>s. is_err (parsed s))
       [''.proj.ds.tab'', ''proj.ds.tab.'', ''proj.ds.'', ''.ds.tab'', ''.'', ''..'', ''...'']"

definition test_from_str_invalid_legacy_domain :: bool where
  "test_from_str_invalid_legacy_domain =
     list_all (\<lambda>s. is_err (parsed s))
       ['':proj.ds.tab'', ''google.com:'', ''google.com:.ds.tab'', ''google.com:proj.tab'',
        ''google.com:proj.ds.tab.'', ''google.com:proj:extra.ds.tab'']"

definition test_from_str_slash_rejection :: bool where
  "test_from_str_slash_rejection = is_err (parsed ''proj/inject.ds.tbl'')"

lemmas parsed_defs = parsed_def is_err_def table_id_from_str_def parse_table_id_def winnow_ref_def backtick_def

lemma path_tests:
  "table_id_to_table_path_success" "table_id_to_table_path_success_legacy_project"
  by (simp_all add: table_id_to_table_path_success_def table_id_to_table_path_success_legacy_project_def
      parsed_defs to_table_path_def)

lemma parse_tests: "test_from_str_valid_string" "test_from_str_with_colon" "test_from_str_multipart"
  by (simp_all add: test_from_str_valid_string_def test_from_str_with_colon_def test_from_str_multipart_def
      parsed_defs)

lemma parse_error_tests:
  "test_from_str_invalid_format" "test_from_str_backtick" "test_from_str_consecutive_dots"
  "test_from_str_empty_string" "test_from_str_trailing_and_leading_dots"
  "test_from_str_invalid_legacy_domain" "test_from_str_slash_rejection"
  by (simp_all add: test_from_str_invalid_format_def test_from_str_backtick_def test_from_str_consecutive_dots_def
      test_from_str_empty_string_def test_from_str_trailing_and_leading_dots_def
      test_from_str_invalid_legacy_domain_def test_from_str_slash_rejection_def parsed_defs)

section \<open>Read options\<close>

definition test_platform :: platform where
  "test_platform = \<lparr>pf_clamp = (\<lambda>secs nanos. (secs, nanos)), pf_parallelism = Some 8, pf_rayon_threads = 8\<rparr>"

definition test_read_options_defaults :: bool where
  "test_read_options_defaults =
     (let request = build_request test_platform default_read_options
            ''projects/test-project/datasets/test_dataset/tables/test_table'' ''quota-project-123'';
          available_parallelism = of_nat (unwrap_or 1 (pf_parallelism test_platform));
          session = cr_read_session request
      in cr_parent request = ''projects/quota-project-123''
         \<and> cr_max_stream_count request = available_parallelism
         \<and> rq_arrow_format session
         \<and> rq_table session = ''projects/test-project/datasets/test_dataset/tables/test_table''
         \<and> rq_snapshot_time session = None
         \<and> rq_selected_fields session = []
         \<and> rq_row_restriction session = []
         \<and> rq_sample_percentage session = None
         \<and> rq_buffer_compression session = Lz4Frame)"

text \<open>The bits of the double 42.5.\<close>

definition sample_bits :: f64_bits where "sample_bits = 0x4045400000000000"

definition test_read_options_all_fields_plumbed :: bool where
  "test_read_options_all_fields_plumbed =
     (let options = \<lparr>rd_maintain_order = False, rd_snapshot_time = Some (1700000000, 500000000),
            rd_selected_fields = [''col1'', ''col2''], rd_row_restriction = ''col1 > 100'',
            rd_arrow_buffer_compression = Some Zstd, rd_sample_percentage = Some sample_bits,
            rd_max_stream_count = Some 12\<rparr>;
          expected_timestamp = pf_clamp test_platform 1700000000 500000000;
          request = build_request test_platform options ''projects/p/datasets/d/tables/t'' ''custom-quota'';
          session = cr_read_session request
      in cr_parent request = ''projects/custom-quota''
         \<and> cr_max_stream_count request = 12
         \<and> rq_arrow_format session
         \<and> rq_table session = ''projects/p/datasets/d/tables/t''
         \<and> rq_snapshot_time session = Some expected_timestamp
         \<and> rq_selected_fields session = [''col1'', ''col2'']
         \<and> rq_row_restriction session = ''col1 > 100''
         \<and> rq_sample_percentage session = Some sample_bits
         \<and> rq_buffer_compression session = Zstd)"

definition test_read_options_maintain_order_controls_max_stream_count :: bool where
  "test_read_options_maintain_order_controls_max_stream_count =
     (let ordered = build_request test_platform (default_read_options\<lparr>rd_maintain_order := True\<rparr>) ''table'' ''quota'';
          unordered = build_request test_platform
            (default_read_options\<lparr>rd_maintain_order := False, rd_max_stream_count := Some 16\<rparr>) ''table'' ''quota''
      in cr_max_stream_count ordered = 1 \<and> cr_max_stream_count unordered = 16)"

definition test_read_options_compression_codecs :: bool where
  "test_read_options_compression_codecs =
     list_all (\<lambda>(codec, expected).
       rq_buffer_compression (cr_read_session (build_request test_platform
         (default_read_options\<lparr>rd_arrow_buffer_compression := codec\<rparr>) ''table'' ''quota'')) = expected)
       [(None, Lz4Frame), (Some Lz4Frame, Lz4Frame), (Some Zstd, Zstd),
        (Some CompressionUnspecified, CompressionUnspecified)]"

lemma read_options_tests:
  "test_read_options_defaults" "test_read_options_all_fields_plumbed"
  "test_read_options_maintain_order_controls_max_stream_count" "test_read_options_compression_codecs"
  by (simp_all add: test_read_options_defaults_def test_read_options_all_fields_plumbed_def
      test_read_options_maintain_order_controls_max_stream_count_def test_read_options_compression_codecs_def
      build_request_def test_platform_def default_read_options_def DEFAULT_COMPRESSION_def Let_def)


section \<open>Errors\<close>

definition test_bigquery_error_invalid_config_and_protocol :: bool where
  "test_bigquery_error_invalid_config_and_protocol =
     (let err = InvalidConfig ''quota_project_id is required''
      in err_cause err = None
         \<and> format_causal_chain err = ''BigQuery configuration error: quota_project_id is required'')"

definition plain_error :: "string option \<Rightarrow> string option \<Rightarrow> string \<Rightarrow> job_error" where
  "plain_error reason location message =
     \<lparr>je_reason = reason, je_location = location, je_message = message, je_debug_info = None\<rparr>"

definition test_bigquery_error_job_failed_display_and_causal_chain :: bool where
  "test_bigquery_error_job_failed_display_and_causal_chain =
     (let primary = job_error_from \<lparr>ep_reason = ''resourcesExceeded'', ep_location = [],
            ep_message = ''Resources exceeded during query execution: Out of memory.'' @ [CHR 0x0A],
            ep_debug_info = []\<rparr>;
          err = JobFailed \<lparr>jf_project_id = Some ''proj'', jf_location = Some ''US'', jf_job_id = Some ''job-1'',
            jf_error = primary, jf_errors = [primary]\<rparr>;
          multi = JobFailed \<lparr>jf_project_id = None, jf_location = None, jf_job_id = None,
            jf_error = plain_error (Some ''invalid'') None ''Too many errors encountered.'',
            jf_errors = [plain_error (Some ''invalid'') None ''Too many errors encountered.'',
                         plain_error (Some ''invalid'') (Some ''row 42'') ''Bad int64 value'']\<rparr>
      in err_cause err = None
         \<and> format_causal_chain err =
             ''BigQuery job US:job-1 failed (resourcesExceeded): Resources exceeded during query execution: Out of memory.''
         \<and> err_display multi =
             ''BigQuery job failed (invalid): Too many errors encountered.; (invalid at row 42): Bad int64 value'')"

section \<open>Queries\<close>

text \<open>The first value of a column.\<close>

definition utf8_val :: "record_batch \<Rightarrow> nat \<Rightarrow> string option" where
  "utf8_val batch i = (case rb_arrays batch ! i of Utf8Array (x # _) \<Rightarrow> x | _ \<Rightarrow> None)"

definition bool_val :: "record_batch \<Rightarrow> nat \<Rightarrow> bool option" where
  "bool_val batch i = (case rb_arrays batch ! i of BooleanArray (x # _) \<Rightarrow> x | _ \<Rightarrow> None)"

definition int64_val :: "record_batch \<Rightarrow> nat \<Rightarrow> i64 option" where
  "int64_val batch i = (case rb_arrays batch ! i of
     Int64Array (x # _) \<Rightarrow> x | TimestampArray (x # _) _ _ \<Rightarrow> x | _ \<Rightarrow> None)"

definition test_try_new :: batch_maker where
  "test_try_new n schema arrays = Inr \<lparr>rb_len = n, rb_schema = schema, rb_arrays = arrays\<rparr>"

definition us_job :: job_reference where
  "us_job = \<lparr>jr_project_id = ''project-id'', jr_job_id = ''job-id'', jr_location = Some ''US''\<rparr>"

definition test_response :: query_response where
  "test_response =
     \<lparr>qr_job_complete = None, qr_results_schema = None, qr_results = None, qr_page_row_count = 0,
      qr_total_rows = None, qr_page_token = [], qr_statement_type = ''SELECT'', qr_job_reference = Some us_job,
      qr_location = [], qr_schema = None, qr_total_bytes_processed = None, qr_cache_hit = Some True,
      qr_creation_time = None\<rparr>"

text \<open>What serde gives for the schema is a text of its own.\<close>

definition test_query_response_to_record_batch_all_fields :: bool where
  "test_query_response_to_record_batch_all_fields =
     (case query_response_to_record_batch test_try_new
             (test_response\<lparr>qr_schema := Some (Inr ''schema json''), qr_total_bytes_processed := Some 15,
                            qr_creation_time := Some 1767037135155\<rparr>) of
        Inr batch \<Rightarrow>
          rb_len batch = 1
          \<and> map f_name (rb_schema batch) =
              [''bigquerySchema'', ''projectId'', ''jobId'', ''location'', ''totalBytesProcessed'', ''cacheHit'',
               ''statementType'', ''creationTime'']
          \<and> utf8_val batch 0 = Some ''schema json'' \<and> utf8_val batch 1 = Some ''project-id''
          \<and> utf8_val batch 2 = Some ''job-id'' \<and> utf8_val batch 3 = Some ''US''
          \<and> int64_val batch 4 = Some 15 \<and> bool_val batch 5 = Some True
          \<and> utf8_val batch 6 = Some ''SELECT'' \<and> int64_val batch 7 = Some 1767037135155
          \<and> column_dtype (rb_arrays batch ! 7) = TimestampType Millisecond (Some ''UTC'')
      | Inl _ \<Rightarrow> False)"

definition test_query_response_to_record_batch_missing_bytes_use_zero :: bool where
  "test_query_response_to_record_batch_missing_bytes_use_zero =
     (case query_response_to_record_batch test_try_new test_response of
        Inr batch \<Rightarrow>
          rb_len batch = 1
          \<and> utf8_val batch 0 = None \<and> utf8_val batch 1 = Some ''project-id''
          \<and> utf8_val batch 2 = Some ''job-id'' \<and> utf8_val batch 3 = Some ''US''
          \<and> int64_val batch 4 = Some 0 \<and> bool_val batch 5 = Some True
          \<and> utf8_val batch 6 = Some ''SELECT'' \<and> int64_val batch 7 = None
      | Inl _ \<Rightarrow> False)"

definition out_of_memory :: string where
  "out_of_memory = ''Resources exceeded during query execution: Out of memory.''"

definition test_map_query_error_debug_info_and_non_service :: bool where
  "test_map_query_error_debug_info_and_non_service =
     (let status = \<lparr>st_code = InvalidArgument, st_message = out_of_memory,
            st_details = [DebugInfo ''RESOURCES_EXCEEDED: Out of memory'']\<rparr>;
          err = map_query_error ((service_error InvalidArgument out_of_memory)\<lparr>ge_status := Some status\<rparr>);
          io_err = (service_error InvalidArgument ''connection reset'')\<lparr>ge_io := True, ge_status := None\<rparr>
      in (case err of
            JobFailed f \<Rightarrow>
              jf_project_id f = None \<and> jf_location f = None \<and> jf_job_id f = None
              \<and> je_message (jf_error f) = out_of_memory
              \<and> je_debug_info (jf_error f) = Some ''RESOURCES_EXCEEDED: Out of memory''
              \<and> length (jf_errors f) = 1
          | _ \<Rightarrow> False)
         \<and> err_display err = ''BigQuery job failed: '' @ out_of_memory
         \<and> (case map_query_error io_err of Grpc _ \<Rightarrow> True | _ \<Rightarrow> False))"

lemma record_batch_tests:
  "test_query_response_to_record_batch_all_fields" "test_query_response_to_record_batch_missing_bytes_use_zero"
  by (simp_all add: test_query_response_to_record_batch_all_fields_def
      test_query_response_to_record_batch_missing_bytes_use_zero_def query_response_to_record_batch_def
      test_response_def us_job_def extract_job_reference_def Let_def non_empty_str_def then_some_def
      test_try_new_def dry_run_schema_def utf8_val_def bool_val_def int64_val_def creation_time_dtype_def)

lemma config_error_test: "test_bigquery_error_invalid_config_and_protocol"
  by (simp add: test_bigquery_error_invalid_config_and_protocol_def Let_def err_cause_def format_causal_chain_def
      err_display_def)


text \<open>Trimming strings that begin and end with a visible ASCII character.\<close>

definition visible :: "char \<Rightarrow> bool" where
  "visible c \<longleftrightarrow> 32 < (of_char c :: nat) \<and> (of_char c :: nat) < 128"

lemma whitespace_invisible: "w \<in> set whitespace \<Longrightarrow> w \<noteq> [] \<and> \<not> visible (hd w) \<and> \<not> visible (last w)"
proof -
  have "list_all (\<lambda>w. w \<noteq> [] \<and> \<not> visible (hd w) \<and> \<not> visible (last w)) whitespace"
    by (simp add: whitespace_def visible_def)
  then show "w \<in> set whitespace \<Longrightarrow> ?thesis" by (auto simp: list_all_iff)
qed

lemma leading_ws_visible: "visible c \<Longrightarrow> leading_ws (c # s) = None"
  unfolding leading_ws_def find_None_iff
  by (metis whitespace_invisible hd_append2 list.sel(1) prefix_def)

lemma trailing_ws_visible: "visible c \<Longrightarrow> trailing_ws (s @ [c]) = None"
  unfolding trailing_ws_def find_None_iff
  by (metis whitespace_invisible last_appendR last_snoc suffix_def)

lemma trim_start_visible: "visible c \<Longrightarrow> trim_start (c # s) = c # s"
  by (simp add: trim_start.simps leading_ws_visible)

lemma trim_end_visible:
  assumes "s \<noteq> []" "visible (last s)"
  shows "trim_end s = s"
  using trailing_ws_visible [OF assms(2), of "butlast s"] assms(1) by (simp add: trim_end.simps [of s])

lemma trim_visible: "visible (hd s) \<Longrightarrow> s \<noteq> [] \<Longrightarrow> visible (last s) \<Longrightarrow> trim s = s"
  by (cases s) (simp_all add: trim_def trim_start_visible trim_end_visible)

lemma whitespace_start: "\<exists>rest. whitespace = [CHR 0x09] # [CHR 0x0A] # rest"
proof -
  have "char_of (9 :: nat) = CHR 0x09" "char_of (10 :: nat) = CHR 0x0A" by code_simp+
  then show ?thesis by (simp add: whitespace_def)
qed

lemma trailing_ws_newline: "trailing_ws (s @ [CHR 0x0A]) = Some [CHR 0x0A]"
proof -
  obtain rest where w: "whitespace = [CHR 0x09] # [CHR 0x0A] # rest" using whitespace_start by blast
  show ?thesis unfolding trailing_ws_def w by (simp add: suffix_def)
qed

lemma trim_end_newline: "trim_end (s @ [CHR 0x0A]) = trim_end s"
  by (simp add: trim_end.simps [of "s @ [CHR 0x0A]"] trailing_ws_newline)

lemma trim_end_message:
  "trim_end ''Resources exceeded during query execution: Out of memory.\<newline>'' =
     ''Resources exceeded during query execution: Out of memory.''"
  using trim_end_newline [of "''Resources exceeded during query execution: Out of memory.''"]
  by (simp add: trim_end_visible visible_def)

lemma job_error_tests:
  "test_bigquery_error_job_failed_display_and_causal_chain"
  by (simp add: test_bigquery_error_job_failed_display_and_causal_chain_def
      Let_def err_cause_def format_causal_chain_def err_display_def fmt_job_failed_def job_failed_header_def
      format_job_error_def plain_error_def job_error_from_def then_some_def is_same_job_error_def
      trim_visible trim_end_visible trim_end_message visible_def)

lemma map_query_error_test: "test_map_query_error_debug_info_and_non_service"
  by (simp add: test_map_query_error_debug_info_and_non_service_def out_of_memory_def
      service_error_def map_query_error_def job_failed_from_gax_status_def
      Let_def err_cause_def format_causal_chain_def err_display_def fmt_job_failed_def job_failed_header_def
      format_job_error_def is_same_job_error_def trim_end_visible visible_def)

section \<open>Causes of errors\<close>

text \<open>Errors of the authentication library by their texts and causes.\<close>

fun occurrences :: "string \<Rightarrow> string \<Rightarrow> nat" where
  "occurrences [] n = (if n = [] then 1 else 0)"
| "occurrences (c # cs) n = (if prefix n (c # cs) then 1 else 0) + occurrences cs n"

definition nth_cause :: "bq_error \<Rightarrow> nat \<Rightarrow> std_error option" where
  "nth_cause err k = ((\<lambda>s. Option.bind s err_source) ^^ k) (err_cause err)"

definition cause_contains :: "bq_error \<Rightarrow> nat \<Rightarrow> string \<Rightarrow> bool" where
  "cause_contains err k msg = (case nth_cause err k of Some s \<Rightarrow> contains_str (err_text s) msg | None \<Rightarrow> False)"

definition default_credentials :: string where "default_credentials = ''could not create default credentials''"

definition missing_credentials :: string where
  "missing_credentials = ''missing /tmp/application_default_credentials.json''"

definition test_bigquery_error_client_builder_causal_chain :: bool where
  "test_bigquery_error_client_builder_causal_chain =
     (let err = from_client_builder (StdError default_credentials
            (Some (StdError ''cannot create auth headers'' (Some (StdError missing_credentials None None)) None)) None);
          formatted = format_causal_chain err
      in cause_contains err 0 default_credentials \<and> cause_contains err 1 ''cannot create auth headers''
         \<and> cause_contains err 2 missing_credentials \<and> nth_cause err 3 = None
         \<and> contains_str formatted (''BigQuery client builder error: '' @ default_credentials)
         \<and> contains_str formatted ''caused by: cannot create auth headers''
         \<and> contains_str formatted (''caused by: '' @ missing_credentials)
         \<and> occurrences formatted default_credentials = 1)"

definition test_bigquery_error_grpc_exhausted_auth_causal_chain :: bool where
  "test_bigquery_error_grpc_exhausted_auth_causal_chain =
     (let auth_err = (service_error Unauthenticated [])\<lparr>ge_status := None,
            ge_std := StdError ''cannot create the authentication headers'' (Some (StdError ''token refresh failed''
              (Some (StdError ''metadata server reset connection'' None None)) None)) None\<rparr>;
          err = from_grpc (gx_exhausted test_gax auth_err);
          formatted = format_causal_chain err
      in cause_contains err 3 ''metadata server reset connection''
         \<and> contains_str formatted ''BigQuery Storage API error:''
         \<and> contains_str formatted ''token refresh failed''
         \<and> contains_str formatted ''caused by: metadata server reset connection'')"

lemma nth_cause_numeral:
  "nth_cause err (numeral n) = Option.bind (nth_cause err (pred_numeral n)) err_source"
  by (simp add: nth_cause_def numeral_eq_Suc)

lemma nth_cause_first: "nth_cause err 0 = err_cause err" "nth_cause err (Suc 0) = Option.bind (err_cause err) err_source"
  by (simp_all add: nth_cause_def)

lemmas cause_test_defs =
  from_client_builder_def from_grpc_def cause_contains_def nth_cause_numeral nth_cause_first default_credentials_def
  missing_credentials_def format_causal_chain_def err_cause_def err_display_def service_error_def

lemma builder_cause_test: "test_bigquery_error_client_builder_causal_chain"
  unfolding test_bigquery_error_client_builder_causal_chain_def Let_def
  by (simp add: cause_test_defs)

lemma exhausted_cause_test: "test_bigquery_error_grpc_exhausted_auth_causal_chain"
  unfolding test_bigquery_error_grpc_exhausted_auth_causal_chain_def Let_def
  by (simp add: cause_test_defs test_gax_def)

section \<open>The client builder\<close>

definition test_service_config_builder_defaults :: bool where
  "test_service_config_builder_defaults =
     (let builder = service_config_builder_new
      in sb_cred builder = None \<and> sb_bq_endpoint builder = None \<and> sb_bqstorage_endpoint builder = None
         \<and> sb_user_agent builder = None \<and> sb_quota_project_id builder = None)"

definition test_service_config_builder_custom :: bool where
  "test_service_config_builder_custom =
     (let cred = 7;
          builder = with_quota_project_id (with_user_agent (with_bqstorage_endpoint (with_bq_endpoint
            (with_cred service_config_builder_new cred) ''https://custom.bq.endpoint.com'')
            ''https://custom.bqstorage.endpoint.com'') (Some ''custom-agent/1.0'')) (Some ''custom-project'')
      in sb_cred builder \<noteq> None
         \<and> sb_bq_endpoint builder = Some ''https://custom.bq.endpoint.com''
         \<and> sb_bqstorage_endpoint builder = Some ''https://custom.bqstorage.endpoint.com''
         \<and> sb_user_agent builder = Some ''custom-agent/1.0''
         \<and> sb_quota_project_id builder = Some ''custom-project'')"

text \<open>Builders of the generated clients that succeed.\<close>

definition willing_builders :: builder_api where
  "willing_builders = \<lparr>ba_build_job_service = (\<lambda>_. Inr ()), ba_build_read = (\<lambda>_. Inr ())\<rparr>"

definition test_build ::
  "service_config_builder \<Rightarrow> (bq_error, client \<times> service_settings \<times> service_settings) res option" where
  "test_build b = map_option fst (build test_gax willing_builders \<lparr>ps_crypto_installed = False, ps_next_throttler = 0\<rparr> b)"

definition test_service_config_builder_build_success :: bool where
  "test_service_config_builder_build_success =
     (case test_build (with_quota_project_id (with_user_agent (with_bqstorage_endpoint (with_bq_endpoint
            (with_cred service_config_builder_new 7) ''https://custom.bq.endpoint.com'')
            ''https://custom.bqstorage.endpoint.com'') (Some ''custom-agent/1.0'')) (Some ''custom-project'')) of
        Some (Inr (client, _)) \<Rightarrow> client_quota_project_id client = ''custom-project''
      | _ \<Rightarrow> False)"

definition test_service_config_builder_missing_quota_project_id :: bool where
  "test_service_config_builder_missing_quota_project_id =
     ((case test_build (with_cred service_config_builder_new 7) of
        Some (Inl (InvalidConfig msg)) \<Rightarrow> contains_str msg ''quota_project_id is required''
       | _ \<Rightarrow> False)
      \<and> (case test_build (with_quota_project_id (with_cred service_config_builder_new 7) (Some ''   '')) of
            Some (Inl (InvalidConfig msg)) \<Rightarrow> True
          | _ \<Rightarrow> False))"

lemma leading_blank: "leading_ws (CHR '' '' # s) = Some '' ''"
  by (simp add: leading_ws_def whitespace_def char_of_eq_iff)

lemma trim_start_blank: "trim_start (CHR '' '' # s) = trim_start s"
  by (subst trim_start.simps) (simp add: leading_blank)

lemma trim_blanks: "trim ''   '' = []"
  by (simp add: trim_def trim_start_blank)

lemma builder_tests:
  "test_service_config_builder_defaults" "test_service_config_builder_custom"
  "test_service_config_builder_build_success" "test_service_config_builder_missing_quota_project_id"
  by (simp_all add: test_service_config_builder_defaults_def test_service_config_builder_custom_def
      test_service_config_builder_build_success_def test_service_config_builder_missing_quota_project_id_def
      test_build_def build_def willing_builders_def service_config_builder_new_def with_cred_def
      with_bq_endpoint_def with_bqstorage_endpoint_def with_user_agent_def with_quota_project_id_def
      default_retry_throttler_def init_crypto_def client_from_parts_def stream_retry_config_new_def
      default_backoff_policy_def test_gax_def gax_ref_def Let_def client_quota_project_id_def
      trim_visible trim_blanks visible_def)

section \<open>Python arguments\<close>

definition test_parse_read_options_defaults :: bool where
  "test_parse_read_options_defaults =
     (case parse_read_options default_table_args of
        Inr options \<Rightarrow>
          \<not> rd_maintain_order options \<and> rd_snapshot_time options = None \<and> rd_selected_fields options = []
          \<and> rd_row_restriction options = [] \<and> rd_arrow_buffer_compression options = Some Lz4Frame
          \<and> rd_sample_percentage options = None
      | Inl _ \<Rightarrow> False)"

definition test_parse_read_options_all_fields :: bool where
  "test_parse_read_options_all_fields =
     (case parse_read_options \<lparr>ta_arrow_buffer_compression = ''zstd'', ta_maintain_order = True,
             ta_max_stream_count = Some 16, ta_row_restriction = ''col1 > 100'',
             ta_sample_percentage = Some sample_bits, ta_selected_fields = Some [''col1'', ''col2''],
             ta_snapshot_time = Some (Inr (1700000000, 500000000))\<rparr> of
        Inr options \<Rightarrow>
          rd_maintain_order options \<and> rd_max_stream_count options = Some 16
          \<and> rd_snapshot_time options = Some (1700000000, 500000000)
          \<and> rd_selected_fields options = [''col1'', ''col2''] \<and> rd_row_restriction options = ''col1 > 100''
          \<and> rd_arrow_buffer_compression options = Some Zstd \<and> rd_sample_percentage options = Some sample_bits
      | Inl _ \<Rightarrow> False)"

definition raises_value_error :: "string \<Rightarrow> (raised, 'a) res \<Rightarrow> bool" where
  "raises_value_error msg r = (case r of
     Inl e \<Rightarrow> is_instance_of PyValueError (ra_err e) \<and> contains_str (py_text (ra_err e)) msg | Inr _ \<Rightarrow> False)"

definition test_parse_read_options_compression_codecs :: bool where
  "test_parse_read_options_compression_codecs =
     (list_all (\<lambda>(codec, expected).
        (case parse_read_options (default_table_args\<lparr>ta_arrow_buffer_compression := codec\<rparr>) of
           Inr options \<Rightarrow> rd_arrow_buffer_compression options = Some expected | Inl _ \<Rightarrow> False))
        [(''unspecified'', CompressionUnspecified), (''lz4frame'', Lz4Frame), (''zstd'', Zstd)]
      \<and> raises_value_error ''got unexpected compression codec invalid_codec''
          (parse_read_options (default_table_args\<lparr>ta_arrow_buffer_compression := ''invalid_codec''\<rparr>)))"

text \<open>A naive time cannot be extracted as a UTC time.\<close>

definition test_parse_read_options_snapshot_time_naive_error :: bool where
  "test_parse_read_options_snapshot_time_naive_error =
     raises_value_error ''failed to extract snapshot_time''
       (parse_read_options (default_table_args\<lparr>ta_snapshot_time := Some (Inl (value_error ''naive''))\<rparr>))"

text \<open>An object whose property \<open>project\<close> raises.\<close>

definition broken_table :: py_object where
  "broken_table = \<lparr>po_table_id = None, po_str = None,
     po_getattr = (\<lambda>a. Inl (if a = ''project'' then runtime_error ''custom property failure''
       else PyErr [PyAttributeError, PyException] a)), po_type = ''BrokenTable''\<rparr>"

definition test_bigquery_table_id_parse_propagates_property_exceptions :: bool where
  "test_bigquery_table_id_parse_propagates_property_exceptions =
     (case py_parse winnow_ref broken_table of
        Inl err \<Rightarrow> is_instance_of PyRuntimeError err \<and> contains_str (py_text err) ''custom property failure''
      | Inr _ \<Rightarrow> False)"

lemma broken_property_test: "test_bigquery_table_id_parse_propagates_property_exceptions"
  by (simp add: test_bigquery_table_id_parse_propagates_property_exceptions_def broken_table_def py_parse_def
      project_attr_def get_optional_string_attr_def runtime_error_def is_instance_of_def)

lemma python_argument_tests:
  "test_parse_read_options_defaults" "test_parse_read_options_all_fields"
  "test_parse_read_options_compression_codecs" "test_parse_read_options_snapshot_time_naive_error"
  by (simp_all add: test_parse_read_options_defaults_def test_parse_read_options_all_fields_def
      test_parse_read_options_compression_codecs_def test_parse_read_options_snapshot_time_naive_error_def
      parse_read_options_def default_table_args_def parse_compression_codec_def raises_value_error_def
      raise_plain_def value_error_def is_instance_of_def)

section \<open>Errors of the token call\<close>

text \<open>The Python objects the test makes: dictionaries, texts and numbers.\<close>

definition test_auth_api :: auth_api where
  "test_auth_api =
     \<lparr>aa_get_item = (\<lambda>v key. case v of
        PyDict d \<Rightarrow> (case map_of d key of Some x \<Rightarrow> Inr x | None \<Rightarrow> Inl (PyErr [PyKeyError, PyException] key))
      | _ \<Rightarrow> Inl (PyErr [PyTypeError, PyException] ''not subscriptable'')),
      aa_extract_f64 = (\<lambda>v. case v of PyNumber f \<Rightarrow> Inr f | _ \<Rightarrow> Inl (PyErr [PyTypeError, PyException] ''must be real number'')),
      aa_index_error = PyErr [PyOther ''IndexError'', PyException] ''tuple index out of range'',
      aa_unicode_error = PyErr [PyOther ''UnicodeEncodeError'', PyValueError, PyException] ''surrogates not allowed'',
      aa_from_timestamp = (\<lambda>secs nsecs. Some (sint secs * 10 ^ 9 + uint nsecs)),
      aa_header_from_str = (\<lambda>s. if CHR 0x0A \<in> set s
        then Inl (PyErr [PyOther ''InvalidHeaderValue''] ''failed to parse header value'') else Inr s)\<rparr>"

definition expiry :: "bool \<Rightarrow> py_value" where
  "expiry negative = PyNumber \<lparr>fl_finite = True, fl_negative = negative,
     fl_secs = (if negative then - 1 else 1700000000), fl_nsecs = 0\<rparr>"

definition bearer :: "string \<Rightarrow> py_value" where
  "bearer s = PyDict [(''bearer_token'', PyStr (Some s))]"

definition error_case :: "(py_err, py_value) res \<times> string \<times> bool \<times> bool \<Rightarrow> bool" where
  "error_case c = (case c of (result, expected_msg, expected_transient, expect_source) \<Rightarrow>
     (case fetch_from_python test_auth_api result 0 0 1 of
        Inl e \<Rightarrow> ce_transient e = expected_transient \<and> contains_str (ce_message e) expected_msg
          \<and> (if expect_source then ce_source e \<noteq> None else True)
      | Inr _ \<Rightarrow> False))"

definition test_python_token_source_errors_classification_and_causal_source :: bool where
  "test_python_token_source_errors_classification_and_causal_source =
     list_all error_case
       [(Inl (PyErr [PyRuntimeError, PyException] ''metadata 503 unavailable''), ''metadata 503 unavailable'', True, True),
        (Inl (PyErr [PyOther ''ConnectionError'', PyException] ''connection reset''), ''connection reset'', True, True),
        (Inl (PyErr [PyValueError, PyException] ''invalid credentials config''), ''invalid credentials config'', False, True),
        (Inl (PyErr [PyTypeError, PyException] ''bad callable signature''), ''bad callable signature'', False, True),
        (Inr (PyStr (Some ''not-a-tuple'')), ''2-tuple'', False, False),
        (Inr (PyTuple [PyDict [], expiry False]), ''bearer_token'', False, True),
        (Inr (PyTuple [bearer [], expiry False]), ''invalid bearer token'', False, False),
        (Inr (PyTuple [bearer (''bad'' @ [CHR 0x0A] @ ''token''), expiry False]), ''invalid bearer token'', False, True),
        (Inr (PyTuple [bearer ''tok'', expiry True]), ''out of range'', False, False)]"

lemma token_error_tests: "test_python_token_source_errors_classification_and_causal_source"
  by (simp add: test_python_token_source_errors_classification_and_causal_source_def error_case_def
      test_auth_api_def expiry_def bearer_def fetch_from_python_def tuple_item_def bearer_token_def token_expiry_def
      cred_new_def cred_from_msg_def is_transient_python_error_def is_instance_of_def quoted_def)

end
