(* ===== verification/Test_Reads.thy ===== *)
theory Test_Reads
  imports Read_System Unit_Tests
begin

text \<open>
  What the tests of reads set up: services and read stubs that give fixed answers, a client, and a
  read with one interleaving of its tasks. An HTTP server of a test is the service it plays.
\<close>

section \<open>Stubs\<close>

type_synonym read_stub = "read_rows_request \<Rightarrow> (gax_error, item list) res"

definition canned :: "response list \<Rightarrow> read_stub" where
  "canned responses req = Inr (map Inr responses)"

definition not_implemented :: gax_error where
  "not_implemented = service_error Unimplemented ''unimplemented''"

definition stub_in :: "read_stub \<Rightarrow> bool \<Rightarrow> step_in" where
  "stub_in stub flag = \<lparr>in_cancelled = flag, in_select_cancelled = False, in_send = stub,
     in_reserve = Reserved, in_throttled = False, in_now = 0\<rparr>"

definition test_services :: "query_response \<Rightarrow> (gax_error, job) res \<Rightarrow> (gax_error, read_session_reply) res \<Rightarrow> services" where
  "test_services response job session =
     \<lparr>sv_create_read_session = (\<lambda>log req. session), sv_get_job = (\<lambda>log req. job),
      sv_query = (\<lambda>log req. Inr response)\<rparr>"

definition test_world :: "services \<Rightarrow> read_stub \<Rightarrow> world" where
  "test_world svc stub =
     \<lparr>wd_platform = test_platform, wd_ipc = test_ipc, wd_gax = test_gax,
      wd_codec = \<lparr>ca_from_value = V2UnknownValue, ca_from_name = V2UnknownName\<rparr>,
      wd_services = svc, wd_uuid = ''0'', wd_inputs = replicate 4 (stub_in stub False), wd_now = 0\<rparr>"

definition test_quota :: string where "test_quota = ''test-quota-proj''"

definition test_client :: client where
  "test_client = the (client_new_for_testing test_gax test_quota 0)"

definition new_query_response :: query_response where
  "new_query_response =
     \<lparr>qr_job_complete = None, qr_results_schema = None, qr_results = None, qr_page_row_count = 0,
      qr_total_rows = None, qr_page_token = [], qr_statement_type = [], qr_job_reference = None,
      qr_location = [], qr_schema = None, qr_total_bytes_processed = None, qr_cache_hit = None,
      qr_creation_time = None\<rparr>"

definition done_job :: job where
  "done_job = \<lparr>jb_configuration = None, jb_status = Some \<lparr>js_error_result = None, js_errors = []\<rparr>,
     jb_statistics = None\<rparr>"

definition destination :: "string \<Rightarrow> string \<Rightarrow> string \<Rightarrow> table_reference option option option" where
  "destination project dataset table =
     Some (Some (Some \<lparr>tr_project_id = project, tr_dataset_id = dataset, tr_table_id = table\<rparr>))"

definition statement :: "string \<Rightarrow> string \<Rightarrow> query_statistics option option" where
  "statement kind ddl = Some (Some \<lparr>st_statement_type = kind, st_ddl_operation_performed = ddl\<rparr>)"

definition session_reply :: "bytes \<Rightarrow> string list \<Rightarrow> read_session_reply" where
  "session_reply schema_bytes names = \<lparr>rs_schema = Some (ArrowSchema schema_bytes), rs_stream_names = names\<rparr>"

text \<open>A response with a payload and its row count.\<close>

definition rows_response :: "bytes \<times> bytes \<Rightarrow> response" where
  "rows_response payload =
     new_response\<lparr>rsp_rows := Some (ArrowRecordBatch (snd payload)), rsp_row_count := of_nat (length (snd payload))\<rparr>"

definition with_schema :: "bytes \<times> bytes \<Rightarrow> response \<Rightarrow> response" where
  "with_schema payload response = response\<lparr>rsp_schema := Some (ArrowSchema (fst payload))\<rparr>"

abbreviation arrow_payload :: "nat \<Rightarrow> nat \<Rightarrow> bytes \<times> bytes" where
  "arrow_payload \<equiv> create_test_arrow_payload_with_range"

definition job_ref :: "string \<Rightarrow> string \<Rightarrow> string \<Rightarrow> job_reference" where
  "job_ref project location job_id = \<lparr>jr_project_id = project, jr_job_id = job_id, jr_location = Some location\<rparr>"

section \<open>Running a read to its end\<close>

text \<open>A transition of a reader with the effects it carries out, and the rounds of its first worker.\<close>

definition page_acts :: "read_stub \<Rightarrow> nat \<Rightarrow> nat \<Rightarrow> read_action list" where
  "page_acts stub k n = ReaderStep k (stub_in stub False) # replicate n (Perform k)"

definition works :: "nat \<Rightarrow> nat \<Rightarrow> read_action list" where "works k n = replicate n (Work k 0)"

record read_outcome =
  ou_schema :: arrow_schema
  ou_items :: "(bq_error, record_batch) res list"
  ou_ended :: bool
  ou_requests :: "read_rows_request list"
  ou_calls :: "rpc list"

text \<open>The calls of a cutover are made when the default stream has switched.\<close>

definition all_calls :: "world \<Rightarrow> rpc list \<Rightarrow> started \<Rightarrow> read_system \<Rightarrow> rpc list" where
  "all_calls w log st s =
     (case st of
        JobStream task \<Rightarrow>
          (case jt_fallback task of
             Some d \<Rightarrow> if rd_state (ln_reader (hd (sy_lanes s))) = Terminated SwitchToReadSession
                       then snd (switch_to_read_session w test_client d log) else log
           | None \<Rightarrow> log)
      | _ \<Rightarrow> log)"

definition play_read :: "world \<Rightarrow> client \<Rightarrow> read_action list \<Rightarrow> rpc list \<Rightarrow> read_result \<Rightarrow> read_outcome option" where
  "play_read w c acts log r =
     (case r of (schema, rx, st) \<Rightarrow>
        map_option (\<lambda>s. \<lparr>ou_schema = schema, ou_items = sy_got s, ou_ended = sy_ended s,
            ou_requests = concat (map (\<lambda>ln. requests (ln_log ln)) (sy_lanes s)),
            ou_calls = all_calls w log st s\<rparr>)
          (sys_run acts (start_read w c log rx st)))"

text \<open>\<open>client.query(..).read()\<close> and the calls it made, or its error with these calls.\<close>

definition read_error_of :: "world \<Rightarrow> query \<Rightarrow> (bq_error \<times> rpc list) option" where
  "read_error_of w q =
     (case query_read w test_client q [] of (Inl err, log) \<Rightarrow> Some (err, log) | _ \<Rightarrow> None)"

definition read_and_recv :: "world \<Rightarrow> query \<Rightarrow> read_action list \<Rightarrow> read_outcome option" where
  "read_and_recv w q acts =
     (case query_read w test_client q [] of
        (Inr (Some r), log) \<Rightarrow> play_read w test_client acts log r | _ \<Rightarrow> None)"

definition column_values :: "record_batch \<Rightarrow> i64 list" where
  "column_values b = (case rb_arrays b of Int64Array xs # _ \<Rightarrow> map (unwrap_or 0) xs | _ \<Rightarrow> [])"

definition values_of :: "read_outcome \<Rightarrow> i64 list" where
  "values_of out = concat (map column_values (oks (ou_items out)))"

text \<open>The outcome a test expects: the schema, all values in order, no error, and the end.\<close>

definition received :: "read_outcome option \<Rightarrow> i64 list \<Rightarrow> bool" where
  "received out xs =
     (case out of
        Some out \<Rightarrow> map f_name (ou_schema out) = [''col1''] \<and> values_of out = xs
          \<and> errs (ou_items out) = [] \<and> ou_ended out
      | None \<Rightarrow> False)"

fun is_protocol :: "bq_error \<Rightarrow> bool" where
  "is_protocol (Protocol _) = True" | "is_protocol _ = False"

fun is_arrow :: "bq_error \<Rightarrow> bool" where
  "is_arrow (Arrow _) = True" | "is_arrow _ = False"

fun is_grpc :: "bq_error \<Rightarrow> bool" where
  "is_grpc (Grpc _) = True" | "is_grpc _ = False"

fun is_job_failed :: "bq_error \<Rightarrow> bool" where
  "is_job_failed (JobFailed _) = True" | "is_job_failed _ = False"

definition get_job_calls :: "rpc list \<Rightarrow> get_job_request list" where
  "get_job_calls log = concat (map (\<lambda>c. case c of GetJob req options \<Rightarrow> [req] | _ \<Rightarrow> []) log)"

definition session_calls :: "rpc list \<Rightarrow> create_read_session_request list" where
  "session_calls log = concat (map (\<lambda>c. case c of CreateReadSession req options \<Rightarrow> [req] | _ \<Rightarrow> []) log)"

definition query_calls :: "rpc list \<Rightarrow> (string \<times> query_request \<times> call_options) list" where
  "query_calls log = concat (map (\<lambda>c. case c of RunQuery p req options \<Rightarrow> [(p, req, options)] | _ \<Rightarrow> []) log)"

section \<open>Evaluating\<close>

lemma stub_in_fields [simp]:
  "in_cancelled (stub_in stub flag) = flag" "\<not> in_select_cancelled (stub_in stub flag)"
  "in_send (stub_in stub flag) = stub" "in_reserve (stub_in stub flag) = Reserved"
  "\<not> in_throttled (stub_in stub flag)" "in_now (stub_in stub flag) = 0"
  by (simp_all add: stub_in_def)

lemma works_unfold: "replicate (numeral n) x = x # replicate (pred_numeral n) x"
  by (simp add: numeral_eq_Suc)

lemma test_client_fields [simp]:
  "cl_quota_project_id test_client = test_quota" "cl_user_agent test_client = None"
  "cl_retry_throttler test_client = 0"
  by (simp_all add: test_client_def client_new_for_testing_def client_from_parts_def stream_retry_config_new_def
      default_backoff_policy_def test_gax_def gax_ref_def)

lemma reader_cfg_fields [simp]:
  "rc_ipc (reader_cfg_of ipc gx config) = ipc" "rc_gax (reader_cfg_of ipc gx config) = gx"
  "rc_retry (reader_cfg_of ipc gx config) = config"
  by (simp_all add: reader_cfg_of_def)

lemma test_decode [simp]:
  "decode_arrow_record_batches test_ipc bs n md =
     (if bs = end_of_stream then (if n = 0 then Inr [] else Inl (row_count_mismatch n 0))
      else if n = of_nat (length bs) then Inr [\<lparr>rb_len = n, rb_schema = md_schema md, rb_arrays = [Int64Array (map (\<lambda>b. Some (ucast b)) bs)]\<rparr>]
      else Inl (row_count_mismatch n (of_nat (length bs))))"
  using sint_i64_range [of "word_of_nat (length bs)"]
  by (auto simp: decode_arrow_record_batches_def test_ipc_def checked_add_i64_def Let_def)

lemma test_parse [simp]:
  "parse_arrow_schema test_ipc bs =
     (if bs = [1] then Inr test_metadata else Inl (Arrow (StdError ''out of spec'' None None)))"
  by (simp add: parse_arrow_schema_def test_ipc_def test_metadata_def)

lemma test_metadata_schema [simp]: "md_schema test_metadata = [test_field]"
  by (simp add: test_metadata_def)

text \<open>The path of a job's stream is kept folded while a read is evaluated.\<close>

definition job_path :: "string \<Rightarrow> string \<Rightarrow> string \<Rightarrow> string" where
  "job_path project location job_id =
     ''projects/'' @ project @ ''/locations/'' @ location @ ''/jobs/'' @ job_id @ ''/streams/_default''"

lemma default_path_folded:
  "default_job_stream_path response =
     rbind (extract_required_job_reference response) (\<lambda>(project, job_id, location). Inr (job_path project location job_id))"
  by (simp add: default_job_stream_path_def job_path_def)

lemmas read_test_defs =
  read_and_recv_def read_error_of_def query_read_def run_query_def route_response_def inline_schema_def inline_page_def
  has_remaining_rows_def can_read_destination_table_def read_completed_def read_job_stream_or_table_def
  destination_table_read_def resolve_job_error_def extract_required_job_reference_def extract_job_reference_def
  default_path_folded spawn_query_stream_def resolve_empty_job_stream_def empty_receiver_def
  io_bind_def io_lift_def io_return_def call_def test_world_def test_services_def
  new_query_response_def validate_non_empty_arrow_bytes_def rows_response_def with_schema_def new_response_def
  query_new_def non_empty_str_def then_some_def u64_try_from_def prepare_read_rows_def
  apply_request_options_def no_options_def arrow_buffer_compression_def Let_def job_ref_def
  create_test_arrow_payload_with_range_def test_metadata_def upt_conv_Cons

lemmas system_test_defs =
  play_read_def start_read_def start_system_def query_lane_def stream_lane_def new_lane_def
  reader_of_def first_page_job_def no_request_def oq_new_def receiver_new_def channel_size_def
  page_acts_def works_def works_unfold
  values_of_def column_values_def test_platform_def received_def all_calls_def
  do_step_def do_perform_def do_end_def do_recv_def perform_def lane_push_def lane_work_def set_lane_def
  oq_push_def oq_pop_def slot_free_def slots_used_def permits_def senders_alive_def sends_def without_def
  permit_send_def channel_send_def receiver_recv_def channel_recv_def is_terminated_def receiver_abort_def
  oks_def errs_def List.map_filter_def sys_run_def Let_def end_of_stream_def requests_def

end
