(* ===== verification/Query_Tests.thy ===== *)
theory Query_Tests
  imports Test_Reads
begin

text \<open>
  The tests of \<open>Query::read\<close> and \<open>dry_run\<close> in \<open>query.rs\<close> on the model: each is the conjunction of the
  assertions of one test, with the stubs it sets up and, where it receives, one interleaving of
  the tasks.
\<close>

definition no_read :: read_stub where "no_read req = Inl not_implemented"

text \<open>The world of a test whose services only answer the query.\<close>

definition query_world :: "query_response \<Rightarrow> world" where
  "query_world response = test_world (test_services response (Inl not_implemented) (Inl not_implemented)) no_read"

definition inline_response :: "bytes \<times> bytes \<Rightarrow> query_response" where
  "inline_response payload =
     new_query_response\<lparr>qr_results_schema := Some (ArrowSchema (fst payload)),
       qr_results := Some (ArrowRecordBatch (snd payload)), qr_page_row_count := of_nat (length (snd payload))\<rparr>"

definition fails_with :: "(bq_error \<Rightarrow> bool) \<Rightarrow> world \<Rightarrow> query \<Rightarrow> bool" where
  "fails_with P w q = (case read_error_of w q of Some (err, log) \<Rightarrow> P err | None \<Rightarrow> False)"

text \<open>The tasks of a page inside the response that is decoded in order, and its consumer.\<close>

definition inline_acts :: "read_action list" where
  "inline_acts = [Perform 0, TaskEnds 0] @ works 0 6 @ [Recv, Recv]"

lemmas query_test_defs =
  read_test_defs query_world_def inline_response_def fails_with_def no_read_def build_read_request_def
  new_query_request_def bq_to_gapic_compression_codec_def DEFAULT_COMPRESSION_def

lemmas inline_test_defs = system_test_defs inline_acts_def test_field_def

lemmas error_text_defs =
  err_cause_def format_causal_chain_def err_display_def fmt_job_failed_def job_failed_header_def
  format_job_error_def is_same_job_error_def job_error_from_def trim_visible trim_end_visible visible_def

section \<open>Queries answered inside the response\<close>

definition test_dry_run_with_mock_server :: bool where
  "test_dry_run_with_mock_server =
     (let response = new_query_response
            \<lparr>qr_job_reference := Some \<lparr>jr_project_id = test_quota, jr_job_id = [], jr_location = Some ''US''\<rparr>,
             qr_creation_time := Some 1767037135155, qr_total_bytes_processed := Some 0, qr_cache_hit := Some False,
             qr_statement_type := ''SELECT'', qr_schema := Some (Inr ''schema json'')\<rparr>
      in case dry_run test_try_new (wd_services (query_world response)) test_client (query_new ''SELECT 1 AS one'') [] of
           (Inr batch, [RunQuery project request options]) \<Rightarrow>
             project = test_quota \<and> qq_dry_run request
             \<and> rb_len batch = 1
             \<and> utf8_val batch 0 = Some ''schema json'' \<and> utf8_val batch 1 = Some test_quota
             \<and> utf8_val batch 2 = None \<and> utf8_val batch 3 = Some ''US''
             \<and> int64_val batch 4 = Some 0 \<and> bool_val batch 5 = Some False
             \<and> utf8_val batch 6 = Some ''SELECT'' \<and> int64_val batch 7 = Some 1767037135155
         | _ \<Rightarrow> False)"

definition test_read_with_mock_server :: bool where
  "test_read_with_mock_server =
     (let w = query_world ((inline_response (arrow_payload 0 3))
            \<lparr>qr_job_reference := Some \<lparr>jr_project_id = test_quota, jr_job_id = [], jr_location = Some ''US''\<rparr>\<rparr>);
          out = read_and_recv w (query_new ''SELECT col1 FROM tbl'') inline_acts
      in received out [0, 1, 2]
         \<and> (case out of
              Some out \<Rightarrow> map rb_len (oks (ou_items out)) = [3]
                \<and> (case query_calls (ou_calls out) of
                     [(project, request, options)] \<Rightarrow> project = test_quota
                       \<and> qq_job_creation_optional request \<and> qq_arrow_results request
                       \<and> qq_arrow_compression request = Some V2Lz4Frame
                   | _ \<Rightarrow> False)
            | None \<Rightarrow> False))"

definition test_read_empty_results :: bool where
  "test_read_empty_results =
     (let w = query_world (new_query_response\<lparr>qr_results_schema := Some (ArrowSchema (fst (arrow_payload 0 0)))\<rparr>);
          out = read_and_recv w (query_new ''SELECT col1 FROM tbl WHERE FALSE'') [Recv]
      in received out []
         \<and> (case out of
              Some out \<Rightarrow>
                (case query_calls (ou_calls out) of
                   [(project, request, options)] \<Rightarrow>
                     project = test_quota \<and> co_quota_project options = Some test_quota
                     \<and> qq_query request = ''SELECT col1 FROM tbl WHERE FALSE''
                     \<and> qq_use_legacy_sql request = Some False \<and> qq_job_creation_optional request
                     \<and> qq_arrow_results request \<and> qq_arrow_compression request = Some V2Lz4Frame
                 | _ \<Rightarrow> False)
            | None \<Rightarrow> False))"

text \<open>The status that the transport makes of the HTTP answer, with one error info.\<close>

definition syntax_error :: string where
  "syntax_error = ''Syntax error: Unexpected end of script at [1:7]''"

definition http_status :: gax_error where
  "http_status = (service_error InvalidArgument syntax_error)
     \<lparr>ge_http_status := Some 400,
      ge_status := Some \<lparr>st_code = InvalidArgument, st_message = syntax_error,
        st_details = [ErrorInfo ''invalidQuery'' [(''location'', ''q''), (''message'', syntax_error)]]\<rparr>\<rparr>"

definition test_read_http_error_with_mock_server :: bool where
  "test_read_http_error_with_mock_server =
     (let services = (test_services new_query_response (Inl not_implemented) (Inl not_implemented))
            \<lparr>sv_query := (\<lambda>log req. Inl http_status)\<rparr>
      in case read_error_of (test_world services no_read) (query_new ''SELECT'') of
           Some (JobFailed job_failed, log) \<Rightarrow>
             jf_project_id job_failed = None \<and> jf_location job_failed = None \<and> jf_job_id job_failed = None
             \<and> je_reason (jf_error job_failed) = Some ''invalidQuery''
             \<and> je_location (jf_error job_failed) = Some ''q''
             \<and> je_message (jf_error job_failed) = syntax_error
             \<and> err_display (JobFailed job_failed)
                 = ''BigQuery job failed (invalidQuery at q): Syntax error: Unexpected end of script at [1:7]''
         | _ \<Rightarrow> False)"

text \<open>A warning in the response is a field that the code does not read.\<close>

definition test_read_with_warnings_in_errors_succeeds :: bool where
  "test_read_with_warnings_in_errors_succeeds =
     (let out = read_and_recv (query_world (inline_response (arrow_payload 0 2)))
            (query_new ''SELECT col1 FROM tbl'') inline_acts
      in received out [0, 1] \<and> map_option (\<lambda>out. map rb_len (oks (ou_items out))) out = Some [2])"

definition test_read_missing_arrow_schema_error :: bool where
  "test_read_missing_arrow_schema_error =
     fails_with is_protocol (query_world (new_query_response\<lparr>qr_statement_type := ''SELECT''\<rparr>)) (query_new ''SELECT 1'')"

text \<open>An IPC reader that refuses the payload.\<close>

definition corrupt_ipc :: ipc where
  "corrupt_ipc = test_ipc\<lparr>ipc_stream := (\<lambda>bs md. [Inl (StdError ''out of spec'' None None)])\<rparr>"

definition test_read_corrupt_arrow_record_batch_error :: bool where
  "test_read_corrupt_arrow_record_batch_error =
     (let w = (query_world ((inline_response (fst (arrow_payload 0 0), [0, 1, 2, 3]))\<lparr>qr_page_row_count := 0\<rparr>))
            \<lparr>wd_ipc := corrupt_ipc\<rparr>
      in case read_and_recv w (query_new ''SELECT 1'') ([Perform 0, TaskEnds 0] @ works 0 5 @ [Recv, Recv]) of
           Some out \<Rightarrow> (case ou_items out of [Inl err] \<Rightarrow> is_arrow err | _ \<Rightarrow> False) \<and> ou_ended out
         | None \<Rightarrow> False)"

lemma corrupt_ipc_laws [simp]:
  "parse_arrow_schema corrupt_ipc bs = parse_arrow_schema test_ipc bs"
  "decode_arrow_record_batches corrupt_ipc bs n md = Inl (Arrow (StdError ''out of spec'' None None))"
  by (simp_all add: corrupt_ipc_def parse_arrow_schema_def decode_arrow_record_batches_def)

lemma inline_query_tests:
  "test_dry_run_with_mock_server" "test_read_http_error_with_mock_server" "test_read_missing_arrow_schema_error"
  by (simp_all add: test_dry_run_with_mock_server_def test_read_http_error_with_mock_server_def
      test_read_missing_arrow_schema_error_def query_test_defs test_quota_def http_status_def service_error_def
      map_query_error_def job_failed_from_gax_status_def status_job_error_def syntax_error_def
      error_text_defs dry_run_def query_response_to_record_batch_def test_try_new_def dry_run_schema_def
      utf8_val_def bool_val_def int64_val_def creation_time_dtype_def)

lemma inline_read_tests:
  "test_read_with_mock_server" "test_read_with_warnings_in_errors_succeeds" "test_read_empty_results"
  "test_read_corrupt_arrow_record_batch_error"
  by (simp_all add: test_read_with_mock_server_def test_read_with_warnings_in_errors_succeeds_def
      test_read_empty_results_def test_read_corrupt_arrow_record_batch_error_def query_test_defs)
    (simp_all add: inline_test_defs query_calls_def)

section \<open>The rest of the rows from the job's stream\<close>

definition test_query_compression_codecs :: bool where
  "test_query_compression_codecs =
     (let build = build_read_request (wd_codec (query_world new_query_response)) ''0'';
          new = query_new ''SELECT 1'';
          codec = (\<lambda>c. qq_arrow_compression (build (with_arrow_buffer_compression new c)))
      in qq_job_creation_optional (build new) \<and> qq_arrow_compression (build new) = Some V2Lz4Frame
         \<and> list_all (\<lambda>(c, expected). codec c = Some expected)
             [(None, V2Lz4Frame), (Some Lz4Frame, V2Lz4Frame), (Some Zstd, V2Zstd),
              (Some CompressionUnspecified, V2CompressionUnspecified)]
         \<and> codec (Some Zstd) = Some V2Zstd
         \<and> qq_use_query_cache (build new) = None
         \<and> qq_use_query_cache (build (with_use_query_cache new (Some False))) = Some False
         \<and> qq_use_query_cache (build (with_use_query_cache new (Some True))) = Some True)"

text \<open>The only request of a read that needs one.\<close>

definition only_request :: "read_outcome option \<Rightarrow> string \<Rightarrow> i64 \<Rightarrow> compression_codec option \<Rightarrow> bool" where
  "only_request out path offset codec =
     (case out of
        Some out \<Rightarrow>
          (case ou_requests out of
             [req] \<Rightarrow> rr_read_stream req = path \<and> rr_offset req = offset \<and> rr_buffer_compression req = codec
           | _ \<Rightarrow> False)
      | None \<Rightarrow> False)"

definition stream_world :: "query_response \<Rightarrow> response list \<Rightarrow> world" where
  "stream_world response responses =
     test_world (test_services response (Inl not_implemented) (Inl not_implemented)) (canned responses)"

definition rest_of_eight :: "response list" where
  "rest_of_eight = [rows_response (arrow_payload 3 2), rows_response (arrow_payload 5 3)]"

definition test_read_opens_stream_for_remaining_rows :: bool where
  "test_read_opens_stream_for_remaining_rows =
     (let response = (inline_response (arrow_payload 0 3))
            \<lparr>qr_job_reference := Some (job_ref ''job-proj'' ''EU'' ''job-123''), qr_total_rows := Some 8\<rparr>;
          page = page_acts (canned rest_of_eight) 0;
          out = read_and_recv (stream_world response rest_of_eight)
            (with_arrow_buffer_compression (query_new ''SELECT col1 FROM tbl'') (Some Zstd))
            ([Perform 0] @ page 1 @ page 2 @ page 2 @ page 1 @ [TaskEnds 0] @ works 0 16 @ replicate 4 Recv)
      in received out [0, 1, 2, 3, 4, 5, 6, 7]
         \<and> only_request out (job_path ''job-proj'' ''EU'' ''job-123'') 3 (Some Zstd)
         \<and> (case out of
              Some out \<Rightarrow> map (\<lambda>(project, request, options). qq_arrow_compression request)
                  (query_calls (ou_calls out)) = [Some V2Zstd]
            | None \<Rightarrow> False))"

definition test_read_does_not_open_stream_when_no_remaining_rows :: bool where
  "test_read_does_not_open_stream_when_no_remaining_rows =
     (let response = (inline_response (arrow_payload 0 3))
            \<lparr>qr_job_reference := Some (job_ref ''job-proj'' ''US'' ''job-123''), qr_total_rows := Some 3\<rparr>;
          out = read_and_recv (query_world response) (query_new ''SELECT col1 FROM tbl'') inline_acts
      in received out [0, 1, 2] \<and> map_option ou_requests out = Some [])"

definition test_read_remaining_rows_missing_job_reference_error :: bool where
  "test_read_remaining_rows_missing_job_reference_error =
     fails_with is_protocol (query_world (new_query_response\<lparr>qr_total_rows := Some 5\<rparr>))
       (query_new ''SELECT col1 FROM tbl'')"

text \<open>A heartbeat, then the schema with rows, then more rows.\<close>

definition heartbeat_and_rows :: "response list" where
  "heartbeat_and_rows =
     [new_response, with_schema (arrow_payload 0 3) (rows_response (arrow_payload 0 3)), rows_response (arrow_payload 3 2)]"

definition test_read_job_incomplete_streams_from_read_rows :: bool where
  "test_read_job_incomplete_streams_from_read_rows =
     (let response = new_query_response
            \<lparr>qr_job_complete := Some False, qr_job_reference := Some (job_ref ''job-proj'' ''US'' ''running-job-456'')\<rparr>;
          page = page_acts (canned heartbeat_and_rows) 0;
          out = read_and_recv (stream_world response heartbeat_and_rows) (query_new ''SELECT col1 FROM tbl'')
            (page 1 @ page 1 @ page 3 @ page 2 @ page 1 @ [TaskEnds 0] @ works 0 11 @ replicate 3 Recv)
      in received out [0, 1, 2, 3, 4]
         \<and> only_request out (job_path ''job-proj'' ''US'' ''running-job-456'') 0 (Some Lz4Frame))"

definition schema_and_rows :: "response list" where
  "schema_and_rows = [with_schema (arrow_payload 0 3) (rows_response (arrow_payload 0 3))]"

definition test_read_empty_first_page_with_remaining_rows_streams_from_read_rows :: bool where
  "test_read_empty_first_page_with_remaining_rows_streams_from_read_rows =
     (let response = new_query_response
            \<lparr>qr_job_reference := Some (job_ref ''job-proj'' ''US'' ''job-empty-first-page''), qr_total_rows := Some 3\<rparr>;
          page = page_acts (canned schema_and_rows) 0;
          out = read_and_recv (stream_world response schema_and_rows)
            (with_arrow_buffer_compression (query_new ''SELECT col1 FROM tbl'') (Some CompressionUnspecified))
            (page 1 @ page 3 @ page 1 @ [TaskEnds 0] @ works 0 6 @ replicate 2 Recv)
      in received out [0, 1, 2]
         \<and> only_request out (job_path ''job-proj'' ''US'' ''job-empty-first-page'') 0 (Some CompressionUnspecified)
         \<and> (case out of
              Some out \<Rightarrow> map (\<lambda>(project, request, options). qq_arrow_compression request)
                  (query_calls (ou_calls out)) = [Some V2CompressionUnspecified]
            | None \<Rightarrow> False))"

lemma codec_query_tests:
  "test_query_compression_codecs" "test_read_remaining_rows_missing_job_reference_error"
  by (simp_all add: test_query_compression_codecs_def test_read_remaining_rows_missing_job_reference_error_def
      query_test_defs with_arrow_buffer_compression_def with_use_query_cache_def)

lemmas stream_query_defs =
  query_test_defs stream_world_def with_arrow_buffer_compression_def

lemmas reader_test_defs =
  step_def step_connecting_def step_backoff_def step_reading_def read_response_def read_page_def response_metadata_def
  extract_response_arrow_bytes_def checked_add_i64_def validate_non_empty_arrow_bytes_def
  read_stream_def new_reader_def new_retry_state_def run.simps

lemma unchecked_page_is_kept [simp]: "check_first_page None bs n estimate = PageKeep"
  by (simp add: check_first_page_def)

text \<open>The responses are unfolded only where a stub gives them.\<close>

lemmas payload_defs =
  rows_response_def with_schema_def new_response_def create_test_arrow_payload_with_range_def upt_conv_Cons

lemma canned_items [simp]:
  "canned rest_of_eight req = Inr (map Inr [rows_response (arrow_payload 3 2), rows_response (arrow_payload 5 3)])"
  "canned heartbeat_and_rows req = Inr (map Inr [new_response,
     with_schema (arrow_payload 0 3) (rows_response (arrow_payload 0 3)), rows_response (arrow_payload 3 2)])"
  "canned schema_and_rows req = Inr (map Inr [with_schema (arrow_payload 0 3) (rows_response (arrow_payload 0 3))])"
  by (simp_all add: canned_def rest_of_eight_def heartbeat_and_rows_def schema_and_rows_def)

lemmas played_defs = inline_test_defs reader_test_defs payload_defs query_calls_def only_request_def

lemma remaining_rows_test: "test_read_opens_stream_for_remaining_rows"
  by (simp add: test_read_opens_stream_for_remaining_rows_def stream_query_defs) (simp add: played_defs)

lemma no_remaining_rows_test: "test_read_does_not_open_stream_when_no_remaining_rows"
  by (simp add: test_read_does_not_open_stream_when_no_remaining_rows_def stream_query_defs)
    (simp add: played_defs)

lemma incomplete_job_test: "test_read_job_incomplete_streams_from_read_rows"
  by (simp add: test_read_job_incomplete_streams_from_read_rows_def stream_query_defs
      read_stream_with_first_page_check_def)
    (simp add: played_defs)

lemma empty_first_page_test: "test_read_empty_first_page_with_remaining_rows_streams_from_read_rows"
  by (simp add: test_read_empty_first_page_with_remaining_rows_streams_from_read_rows_def stream_query_defs
      read_stream_with_first_page_check_def)
    (simp add: played_defs)

section \<open>Row counts, inline schemas and job references\<close>

definition test_read_first_page_row_count_mismatch_error :: bool where
  "test_read_first_page_row_count_mismatch_error =
     (let page = inline_response (arrow_payload 0 2)
      in fails_with is_protocol (query_world (page\<lparr>qr_results := None\<rparr>)) (query_new ''SELECT col1 FROM tbl'')
         \<and> (case read_and_recv (query_world (page\<lparr>qr_page_row_count := 5\<rparr>)) (query_new ''SELECT col1 FROM tbl'')
                ([Perform 0, TaskEnds 0] @ works 0 5 @ [Recv, Recv]) of
              Some out \<Rightarrow> (case ou_items out of [Inl err] \<Rightarrow> is_protocol err | _ \<Rightarrow> False) \<and> ou_ended out
            | None \<Rightarrow> False))"

definition f64_equal :: "f64 \<Rightarrow> f64 \<Rightarrow> bool" where
  "f64_equal x y = (f64_ge x y \<and> f64_ge y x)"

definition test_estimate_remaining_bytes :: bool where
  "test_estimate_remaining_bytes =
     (let page = replicate 1024 0
      in f64_equal (estimate_remaining_bytes page 0 (Some 100)) (0, 1)
         \<and> f64_equal (estimate_remaining_bytes page 10 None) (0, 1)
         \<and> f64_equal (estimate_remaining_bytes page 10 (Some 10)) (0, 1)
         \<and> f64_equal (estimate_remaining_bytes page 10 (Some 5)) (0, 1)
         \<and> f64_equal (estimate_remaining_bytes page 10 (Some 100)) (9216, 1))"

definition three_rows_left :: "response list" where
  "three_rows_left = [rows_response (arrow_payload 0 3)]"

definition inline_schema_response :: "bytes \<Rightarrow> query_response" where
  "inline_schema_response schema_bytes = new_query_response
     \<lparr>qr_job_complete := Some True,
      qr_job_reference := Some (job_ref ''job-proj'' ''US'' ''job-inline-schema-stream''),
      qr_results_schema := Some (ArrowSchema schema_bytes), qr_total_rows := Some 3\<rparr>"

definition test_read_empty_first_page_with_inline_schema_streams_from_read_rows :: bool where
  "test_read_empty_first_page_with_inline_schema_streams_from_read_rows =
     (let page = page_acts (canned three_rows_left) 0;
          out = read_and_recv (stream_world (inline_schema_response (fst (arrow_payload 0 3))) three_rows_left)
            (query_new ''SELECT col1 FROM tbl'')
            (page 1 @ page 2 @ page 1 @ [TaskEnds 0] @ works 0 6 @ replicate 2 Recv)
      in received out [0, 1, 2]
         \<and> only_request out (job_path ''job-proj'' ''US'' ''job-inline-schema-stream'') 0 (Some Lz4Frame)
         \<and> map_option (\<lambda>out. get_job_calls (ou_calls out)) out = Some []
         \<and> (case read_error_of (query_world (inline_schema_response [0, 1, 2, 3])) (query_new ''SELECT col1 FROM tbl'') of
              Some (err, log) \<Rightarrow> is_arrow err \<and> get_job_calls log = []
            | None \<Rightarrow> False))"

definition test_read_inline_batch_missing_arrow_schema_error :: bool where
  "test_read_inline_batch_missing_arrow_schema_error =
     list_all (\<lambda>page_token.
         fails_with is_protocol
           (query_world ((inline_response (arrow_payload 0 2))
              \<lparr>qr_results_schema := None, qr_job_complete := Some True,
               qr_job_reference := Some (job_ref ''job-proj'' ''US'' ''job-inline-no-schema''),
               qr_page_token := page_token\<rparr>))
           (query_new ''SELECT col1 FROM tbl''))
       [[], ''next-token'']"

lemma three_rows_item [simp]: "canned three_rows_left req = Inr (map Inr [rows_response (arrow_payload 0 3)])"
  by (simp add: canned_def three_rows_left_def)

lemma row_count_tests:
  "test_read_first_page_row_count_mismatch_error" "test_read_inline_batch_missing_arrow_schema_error"
  by (simp_all add: test_read_first_page_row_count_mismatch_error_def
      test_read_inline_batch_missing_arrow_schema_error_def query_test_defs)
    (simp_all add: inline_test_defs row_count_mismatch_def)

lemma inline_schema_test: "test_read_empty_first_page_with_inline_schema_streams_from_read_rows"
  by (simp add: test_read_empty_first_page_with_inline_schema_streams_from_read_rows_def inline_schema_response_def
      stream_query_defs read_stream_with_first_page_check_def get_job_calls_def)
    (simp add: played_defs)

lemma estimate_test: "test_estimate_remaining_bytes"
proof -
  obtain k where "f64_div (f64_mul (f64_of_nat 1024) (f64_of_nat 90)) (f64_of_nat 10) = (9216 * 2 ^ k, 2 ^ k)"
    using f64_quotient_exact [of 1024 90 10 9216] by auto
  then show ?thesis
    by (simp add: test_estimate_remaining_bytes_def estimate_remaining_bytes_def f64_equal_def f64_ge_def)
qed

end
