(* ===== verification/Query_Job_Tests.thy ===== *)
theory Query_Job_Tests
  imports Query_Tests
begin

text \<open>
  The tests of \<open>Query::read\<close> in \<open>query.rs\<close> whose job gives no rows or fails: statements without a
  result, empty selects whose schema comes from the destination table, jobs that end with an error.
\<close>

definition closed_read :: read_stub where "closed_read req = Inr []"

definition job_in :: "string \<Rightarrow> job_reference" where
  "job_in job_id = job_ref ''job-proj'' ''US'' job_id"

definition incomplete_response :: "string \<Rightarrow> query_response" where
  "incomplete_response job_id =
     new_query_response\<lparr>qr_job_complete := Some False, qr_job_reference := Some (job_in job_id)\<rparr>"

text \<open>A schema without columns, or with the one column of the payloads, and then the end.\<close>

definition no_columns :: "read_outcome option \<Rightarrow> bool" where
  "no_columns out =
     (case out of Some out \<Rightarrow> ou_schema out = [] \<and> ou_items out = [] \<and> ou_ended out | None \<Rightarrow> False)"

definition job_calls_of :: "read_outcome option \<Rightarrow> get_job_request list option" where
  "job_calls_of out = map_option (get_job_calls \<circ> ou_calls) out"

definition tables_of :: "read_outcome option \<Rightarrow> (i32 \<times> string) list option" where
  "tables_of out =
     map_option (map (\<lambda>req. (cr_max_stream_count req, rq_table (cr_read_session req))) \<circ> session_calls \<circ> ou_calls) out"

section \<open>Statements without a result\<close>

definition test_read_short_ddl_query_no_schema :: bool where
  "test_read_short_ddl_query_no_schema =
     no_columns (read_and_recv
       (query_world (new_query_response
          \<lparr>qr_job_complete := Some True, qr_statement_type := ''CREATE_SCHEMA'',
           qr_job_reference := Some (job_in ''ddl-job-1'')\<rparr>))
       (query_new ''CREATE SCHEMA IF NOT EXISTS my_dataset'') [Recv])"

text \<open>A stub for the one stream of a job: a heartbeat while the model is trained, then the end.\<close>

definition job_stream_stub :: "string \<Rightarrow> item list \<Rightarrow> read_stub" where
  "job_stream_stub job_id items req =
     (if rr_read_stream req = job_path ''job-proj'' ''US'' job_id then Inr items else Inl not_implemented)"

definition heartbeat_then_close :: "string \<Rightarrow> read_stub" where
  "heartbeat_then_close job_id = job_stream_stub job_id [Inr new_response]"

definition model_job :: job where
  "model_job = done_job
     \<lparr>jb_statistics := statement ''CREATE_MODEL'' ''CREATE'',
      jb_configuration := destination ''job-proj'' ''my_ds'' ''my_model''\<rparr>"

definition test_read_long_ddl_query_no_schema :: bool where
  "test_read_long_ddl_query_no_schema =
     (let w = test_world (test_services (incomplete_response ''create-model-job-1'') (Inr model_job)
                (Inl not_implemented)) (heartbeat_then_close ''create-model-job-1'');
          out = read_and_recv w (query_new ''CREATE OR REPLACE MODEL my_ds.my_model'') [Recv]
      in no_columns out
         \<and> job_calls_of out = Some [\<lparr>gj_project_id = ''job-proj'', gj_job_id = ''create-model-job-1'',
                gj_location = Some ''US''\<rparr>])"

section \<open>Empty selects\<close>

definition select_job :: "(string \<times> string \<times> string) option \<Rightarrow> job" where
  "select_job dest = done_job
     \<lparr>jb_statistics := statement ''SELECT'' [],
      jb_configuration := (case dest of Some (p, d, t) \<Rightarrow> destination p d t | None \<Rightarrow> None)\<rparr>"

text \<open>Services whose job wrote the table, which has the schema of the empty payload and a stream.\<close>

definition empty_table_world :: "query_response \<Rightarrow> string \<Rightarrow> read_stub \<Rightarrow> world" where
  "empty_table_world response table stub =
     test_world (test_services response (Inr (select_job (Some (''dest-proj'', ''_anon_ds'', table))))
       (Inr (session_reply (fst (arrow_payload 0 0)) [''streams/unused'']))) stub"

text \<open>The schema of the table and no rows, with one job and one session of at most one stream.\<close>

definition empty_select :: "read_outcome option \<Rightarrow> string \<Rightarrow> string \<Rightarrow> bool" where
  "empty_select out job_id path =
     (received out []
      \<and> job_calls_of out = Some [\<lparr>gj_project_id = ''job-proj'', gj_job_id = job_id, gj_location = Some ''US''\<rparr>]
      \<and> tables_of out = Some [(1, path)])"

definition test_read_long_empty_select_fetches_schema_from_destination_table :: bool where
  "test_read_long_empty_select_fetches_schema_from_destination_table =
     (let out = read_and_recv
            (empty_table_world (incomplete_response ''long-empty-select-1'') ''anon_empty_tbl''
               (heartbeat_then_close ''long-empty-select-1''))
            (query_new ''SELECT col1 FROM tbl WHERE FALSE'') [Recv]
      in empty_select out ''long-empty-select-1'' ''projects/dest-proj/datasets/_anon_ds/tables/anon_empty_tbl'')"

definition failed_job :: "error_proto \<Rightarrow> job" where
  "failed_job e = done_job\<lparr>jb_status := Some \<lparr>js_error_result = Some e, js_errors = []\<rparr>\<rparr>"

definition proto :: "string \<Rightarrow> string \<Rightarrow> error_proto" where
  "proto reason message = \<lparr>ep_reason = reason, ep_location = [], ep_message = message, ep_debug_info = []\<rparr>"

definition empty_job_world :: "job \<Rightarrow> world" where
  "empty_job_world j =
     test_world (test_services (incomplete_response ''empty-stream-job'') (Inr j) (Inl not_implemented)) closed_read"

definition test_read_long_empty_select_missing_destination_table_error :: bool where
  "test_read_long_empty_select_missing_destination_table_error =
     (fails_with is_protocol (empty_job_world (select_job None)) (query_new ''SELECT 1 WHERE FALSE'')
      \<and> fails_with is_job_failed (empty_job_world (failed_job (proto ''invalid'' ''bad'')))
          (query_new ''CREATE MODEL ...''))"

definition completed_empty :: "string \<Rightarrow> u64 option \<Rightarrow> job_reference option \<Rightarrow> query_response" where
  "completed_empty statement_type total_rows job_reference =
     new_query_response
       \<lparr>qr_job_complete := Some True, qr_statement_type := statement_type, qr_total_rows := total_rows,
        qr_job_reference := job_reference\<rparr>"

text \<open>A job reference that lacks its identifier, its location or its project.\<close>

definition partial_references :: "(string \<times> job_reference option) list" where
  "partial_references =
     [([], None), (''INSERT'', None),
      (''INSERT'', Some (job_ref ''job-proj'' ''US'' [])),
      (''SELECT'', Some \<lparr>jr_project_id = ''job-proj'', jr_job_id = ''missing-loc-job'', jr_location = None\<rparr>),
      ([], Some (job_ref [] ''US'' ''missing-proj-job''))]"

definition test_read_completed_empty_job_without_inline_schema :: bool where
  "test_read_completed_empty_job_without_inline_schema =
     (let complete = Some (job_in ''empty-completed-job'')
      in list_all (\<lambda>(statement_type, total_rows).
             empty_select
               (read_and_recv (empty_table_world (completed_empty statement_type total_rows complete)
                    ''empty_select_tbl'' no_read)
                  (query_new ''SELECT col1 FROM tbl WHERE FALSE'') [Recv])
               ''empty-completed-job'' ''projects/dest-proj/datasets/_anon_ds/tables/empty_select_tbl'')
           [(''SELECT'', Some 0), ([], None)]
         \<and> list_all (\<lambda>statement_type.
             let out = read_and_recv (query_world (completed_empty statement_type (Some 0) complete))
                   (query_new ''INSERT INTO tbl VALUES (1)'') [Recv]
             in no_columns out \<and> job_calls_of out = Some [])
           [''INSERT'', ''SCRIPT'']
         \<and> list_all (\<lambda>(statement_type, reference).
             case read_error_of (query_world (completed_empty statement_type (Some 0) reference)) (query_new ''SELECT 1'') of
               Some (err, log) \<Rightarrow> is_protocol err \<and> get_job_calls log = []
             | None \<Rightarrow> False)
           partial_references)"

lemmas job_test_defs =
  stream_query_defs read_stream_with_first_page_check_def resolve_empty_job_stream_def fetch_job_def
  check_job_status_error_def extract_destination_table_def is_ddl_def statement_type_of_def
  create_table_read_session_def to_table_path_def new_table_id_def session_reply_def build_request_def default_read_options_def
  job_in_def incomplete_response_def closed_read_def heartbeat_then_close_def job_stream_stub_def
  done_job_def model_job_def select_job_def failed_job_def proto_def statement_def destination_def
  reader_test_defs reader_of_def works_unfold handle_error_def fail_with_def send_fatal_error_def

lemmas job_outcome_defs =
  played_defs no_columns_def empty_select_def job_calls_of_def tables_of_def get_job_calls_def session_calls_def

lemma ddl_tests: "test_read_short_ddl_query_no_schema" "test_read_long_ddl_query_no_schema"
  by (simp_all add: test_read_short_ddl_query_no_schema_def test_read_long_ddl_query_no_schema_def job_test_defs)
    (simp_all add: job_outcome_defs)

lemma empty_select_test: "test_read_long_empty_select_fetches_schema_from_destination_table"
  by (simp add: test_read_long_empty_select_fetches_schema_from_destination_table_def empty_table_world_def
      job_test_defs)
    (simp add: job_outcome_defs)

lemma missing_destination_test: "test_read_long_empty_select_missing_destination_table_error"
  by (simp add: test_read_long_empty_select_missing_destination_table_error_def empty_job_world_def
      job_test_defs missing_destination_def)

lemma completed_empty_test: "test_read_completed_empty_job_without_inline_schema"
  by (simp add: test_read_completed_empty_job_without_inline_schema_def partial_references_def empty_table_world_def
      completed_empty_def job_test_defs)
    (simp add: job_outcome_defs)

section \<open>Jobs that fail, and results that are not inside the response\<close>

definition resources_exceeded :: string where
  "resources_exceeded = ''Resources exceeded during query execution: Out of memory.''"

definition read_rows_failure :: string where
  "read_rows_failure = ''Job failed-job-789 failed with error: Resources exceeded''"

definition denied_job :: string where "denied_job = ''get_job permission denied''"

text \<open>A stub whose stream ends with an error of the service.\<close>

definition invalid_argument :: "string \<Rightarrow> read_stub" where
  "invalid_argument message req = Inr [Inl (service_error InvalidArgument message)]"

lemma invalid_argument_item [simp]: "invalid_argument message req = Inr [Inl (service_error InvalidArgument message)]"
  by (simp add: invalid_argument_def)

definition failing_world :: "(gax_error, job) res \<Rightarrow> world" where
  "failing_world get_job =
     test_world (test_services (incomplete_response ''failed-job-789'') get_job (Inl not_implemented))
       (invalid_argument read_rows_failure)"

definition failed_select :: query where "failed_select = query_new ''SELECT * FROM huge_tbl''"

definition expected_job_error :: job_error where
  "expected_job_error =
     \<lparr>je_reason = Some ''resourcesExceeded'', je_location = None, je_message = resources_exceeded, je_debug_info = None\<rparr>"

definition job_options_of :: "rpc list \<Rightarrow> (get_job_request \<times> string option \<times> bool option) list" where
  "job_options_of log = concat (map (\<lambda>c. case c of
       GetJob req options \<Rightarrow> [(req, co_quota_project options, co_idempotent options)] | _ \<Rightarrow> []) log)"

definition test_read_job_incomplete_failure_surfaces_job_failed_error :: bool where
  "test_read_job_incomplete_failure_surfaces_job_failed_error =
     (let e = proto ''resourcesExceeded'' resources_exceeded;
          job = done_job\<lparr>jb_status := Some \<lparr>js_error_result = Some e, js_errors = [e]\<rparr>\<rparr>;
          denied = service_error PermissionDenied denied_job
      in (case read_error_of (failing_world (Inr job)) failed_select of
            Some (err, log) \<Rightarrow>
              err = JobFailed
                \<lparr>jf_project_id = Some ''job-proj'', jf_location = Some ''US'', jf_job_id = Some ''failed-job-789'',
                 jf_error = expected_job_error, jf_errors = [expected_job_error]\<rparr>
              \<and> format_causal_chain err =
                  ''BigQuery job US:failed-job-789 failed (resourcesExceeded): '' @ resources_exceeded
              \<and> job_options_of log =
                  [(\<lparr>gj_project_id = ''job-proj'', gj_job_id = ''failed-job-789'', gj_location = Some ''US''\<rparr>,
                    Some test_quota, Some True)]
          | None \<Rightarrow> False)
         \<and> fails_with (\<lambda>err. is_grpc err \<and> contains_str (err_display err) read_rows_failure
                \<and> \<not> contains_str (err_display err) denied_job) (failing_world (Inl denied)) failed_select
         \<and> fails_with is_grpc (failing_world (Inr done_job)) failed_select)"

lemma invalid_argument_permanent [simp]:
  "rp_on_error (src_retry_policy (client_retry_config test_client)) now st (service_error InvalidArgument message)
     = Permanent (service_error InvalidArgument message)"
  by (simp add: client_retry_config_def test_client_def client_new_for_testing_def client_from_parts_def
      stream_retry_config_new_def stream_reconnect_retry_policy_def default_backoff_policy_def test_gax_def gax_ref_def
      limit_attempts_def retryable_errors_def retryable_errors_on_error_def is_retryable_error_def service_error_def
      retryable_code_def)

lemma failed_job_test: "test_read_job_incomplete_failure_surfaces_job_failed_error"
  by (simp add: test_read_job_incomplete_failure_surfaces_job_failed_error_def failing_world_def failed_select_def
      job_test_defs)
    (simp add: job_options_of_def expected_job_error_def resources_exceeded_def error_text_defs denied_job_def
      read_rows_failure_def service_error_def then_some_def Let_def)

definition large_results :: query_response where
  "large_results = new_query_response
     \<lparr>qr_job_complete := Some True, qr_statement_type := ''SELECT'',
      qr_job_reference := Some (job_in ''completed-large-job''), qr_page_token := ''large-results-page-token''\<rparr>"

definition two_rows_without_schema :: "response list" where
  "two_rows_without_schema = [rows_response (arrow_payload 0 2)]"

definition test_read_completed_large_results_stream_eof_and_grpc_failure :: bool where
  "test_read_completed_large_results_stream_eof_and_grpc_failure =
     (let q = query_new ''SELECT col1 FROM tbl'';
          failed = failed_job (proto ''resourcesExceeded'' ''Resources exceeded'')
      in empty_select
           (read_and_recv (empty_table_world large_results ''eof_dest_tbl'' (job_stream_stub ''completed-large-job'' []))
              q [Recv]) ''completed-large-job'' ''projects/dest-proj/datasets/_anon_ds/tables/eof_dest_tbl''
         \<and> (case read_error_of (test_world (test_services large_results (Inr failed) (Inl not_implemented))
                  (invalid_argument ''Job completed-large-job failed'')) q of
              Some (err, log) \<Rightarrow> is_job_failed err \<and> length (get_job_calls log) = 1
            | None \<Rightarrow> False)
         \<and> (case read_error_of (stream_world large_results two_rows_without_schema) q of
              Some (err, log) \<Rightarrow> is_protocol err \<and> get_job_calls log = []
            | None \<Rightarrow> False))"

lemma two_rows_item [simp]:
  "canned two_rows_without_schema req = Inr (map Inr [rows_response (arrow_payload 0 2)])"
  by (simp add: canned_def two_rows_without_schema_def)

lemma large_results_test: "test_read_completed_large_results_stream_eof_and_grpc_failure"
  by (simp add: test_read_completed_large_results_stream_eof_and_grpc_failure_def large_results_def
      empty_table_world_def job_test_defs payload_defs)
    (simp add: job_outcome_defs)

end
