(* ===== verification/Query_Table_Tests.thy ===== *)
theory Query_Table_Tests
  imports Query_Job_Tests
begin

text \<open>
  The tests of \<open>Query::read\<close> in \<open>query.rs\<close> that decide between the job's stream and the streams of
  the destination table.
\<close>

definition written_job :: "string \<Rightarrow> job" where
  "written_job table = done_job\<lparr>jb_status := None, jb_configuration := destination ''dest-proj'' ''_temp_dataset'' table\<rparr>"

definition big_select :: query where
  "big_select = with_arrow_buffer_compression (with_maintain_order (query_new ''SELECT col1 FROM big_tbl'') False) (Some Zstd)"

definition session_options_of :: "rpc list \<Rightarrow> (string \<times> compression_codec) list" where
  "session_options_of log =
     map (\<lambda>req. (rq_table (cr_read_session req), rq_buffer_compression (cr_read_session req))) (session_calls log)"

section \<open>Enough rows are known from the query\<close>

definition two_streams :: read_stub where
  "two_streams req =
     (if rr_read_stream req = ''streams/s1'' then Inr [Inr (rows_response (arrow_payload 0 2))]
      else if rr_read_stream req = ''streams/s2'' then Inr [Inr (rows_response (arrow_payload 2 2))]
      else Inl not_implemented)"

definition large_query_world :: world where
  "large_query_world =
     test_world
       (test_services
          (new_query_response\<lparr>qr_job_reference := Some (job_in ''large-job-1''), qr_total_rows := Some MULTI_STREAM_THRESHOLD_ROWS\<rparr>)
          (Inr (written_job ''anon_table_123''))
          (Inr (session_reply (fst (arrow_payload 0 2)) [''streams/s1'', ''streams/s2''])))
       two_streams"

text \<open>The page of a table's stream, then its end; the job is decoded as soon as it is ready.\<close>

definition table_acts :: "read_stub \<Rightarrow> nat \<Rightarrow> read_action list" where
  "table_acts stub k = page_acts stub k 1 @ page_acts stub k 2 @ page_acts stub k 1 @ [TaskEnds k] @ works k 4"

definition test_read_maintain_order_false_switches_to_read_table_above_threshold :: bool where
  "test_read_maintain_order_false_switches_to_read_table_above_threshold =
     (let out = read_and_recv large_query_world big_select
            (table_acts two_streams 1 @ table_acts two_streams 0 @ replicate 3 Recv)
      in received out [2, 3, 0, 1]
         \<and> (case out of
              Some out \<Rightarrow>
                get_job_calls (ou_calls out) =
                  [\<lparr>gj_project_id = ''job-proj'', gj_job_id = ''large-job-1'', gj_location = Some ''US''\<rparr>]
                \<and> session_options_of (ou_calls out) =
                  [(''projects/dest-proj/datasets/_temp_dataset/tables/anon_table_123'', Zstd)]
                \<and> map rr_read_stream (ou_requests out) = [''streams/s1'', ''streams/s2'']
            | None \<Rightarrow> False))"

lemmas table_test_defs =
  job_test_defs with_maintain_order_def destination_read_def resolve_def read_table_def
  prepare_table_read_session_def written_job_def big_select_def

lemmas table_outcome_defs =
  job_outcome_defs session_options_of_def table_acts_def two_streams_def

lemma large_query_test: "test_read_maintain_order_false_switches_to_read_table_above_threshold"
  by (simp add: test_read_maintain_order_false_switches_to_read_table_above_threshold_def large_query_world_def
      table_test_defs)
    (simp add: table_outcome_defs)

section \<open>The size estimated from the first page\<close>

text \<open>A first page of two rows that is wide: the estimate of its job reaches the threshold.\<close>

definition wide_page :: bytes where
  "wide_page = replicate 600 0 @ snd (arrow_payload 900 2)"

definition first_of_many :: response where
  "first_of_many = new_response
     \<lparr>rsp_schema := Some (ArrowSchema (fst (arrow_payload 900 2))), rsp_rows := Some (ArrowRecordBatch wide_page),
      rsp_row_count := 2, rsp_total_estimated_row_count := Some 10000000\<rparr>"

definition job_then_table :: read_stub where
  "job_then_table req =
     (if rr_read_stream req = job_path ''job-proj'' ''US'' ''large-job-2'' then Inr [Inr first_of_many]
      else Inr [Inr (rows_response (arrow_payload 10 3))])"

definition empty_first_page_world :: world where
  "empty_first_page_world =
     test_world
       (test_services
          (new_query_response\<lparr>qr_job_reference := Some (job_in ''large-job-2''), qr_total_rows := Some 0,
             qr_page_token := ''page-token-xyz''\<rparr>)
          (Inr (written_job ''anon_table_456''))
          (Inr (session_reply (fst (arrow_payload 900 2)) [''streams/table_s1''])))
       job_then_table"

definition test_read_maintain_order_false_empty_first_page_switches_to_read_table_above_threshold :: bool where
  "test_read_maintain_order_false_empty_first_page_switches_to_read_table_above_threshold =
     (let page = page_acts job_then_table 0;
          out = read_and_recv empty_first_page_world big_select
            (page 1 @ page 1 @ [TaskEnds 0] @ table_acts job_then_table 1 @ replicate 2 Recv)
      in received out [10, 11, 12]
         \<and> (case out of
              Some out \<Rightarrow>
                length (get_job_calls (ou_calls out)) = 1
                \<and> session_options_of (ou_calls out) =
                  [(''projects/dest-proj/datasets/_temp_dataset/tables/anon_table_456'', Zstd)]
                \<and> map rr_read_stream (ou_requests out) =
                  [job_path ''job-proj'' ''US'' ''large-job-2'', ''streams/table_s1'']
                \<and> map rr_buffer_compression (take 1 (ou_requests out)) = [Some Zstd]
            | None \<Rightarrow> False))"

lemma wide_page_reaches: "f64_ge (estimate_remaining_bytes wide_page 2 (Some 10000000)) (262144000, 1)"
  by (rule estimate_reaches)
    (simp_all add: wide_page_def create_test_arrow_payload_with_range_def upt_conv_Cons)

lemma threshold_values:
  "MULTI_STREAM_THRESHOLD_ROWS = 32768000" "MULTI_STREAM_THRESHOLD_BYTES = (262144000, 1)"
  by (simp_all add: MULTI_STREAM_THRESHOLD_ROWS_def MULTI_STREAM_THRESHOLD_BYTES_def MEDIAN_ROW_SIZE_BYTES_def)

lemma first_of_many_fields [simp]:
  "rsp_schema first_of_many = Some (ArrowSchema [1])" "rsp_rows first_of_many = Some (ArrowRecordBatch wide_page)"
  "rsp_row_count first_of_many = 2" "rsp_total_estimated_row_count first_of_many = Some 10000000"
  "wide_page \<noteq> []"
  by (simp_all add: first_of_many_def new_response_def wide_page_def create_test_arrow_payload_with_range_def)

lemma table_stream_differs: "''streams/table_s1'' \<noteq> job_path project location job_id"
  by (simp add: job_path_def)

lemma wide_page_switches:
  "check_first_page (Some \<lparr>fp_threshold_bytes = (262144000, Suc 0), fp_fallback_total_rows = Some 0\<rparr>)
     wide_page 2 (Some 10000000) = PageSwitch"
  using wide_page_reaches by (simp add: check_first_page_def u64_try_from_def)

lemmas estimate_test_defs =
  table_test_defs switch_to_read_session_def job_then_table_def threshold_values wide_page_switches table_stream_differs

lemma empty_first_page_switches_test:
  "test_read_maintain_order_false_empty_first_page_switches_to_read_table_above_threshold"
  by (simp add: test_read_maintain_order_false_empty_first_page_switches_to_read_table_above_threshold_def
      empty_first_page_world_def estimate_test_defs)
    (simp add: table_outcome_defs estimate_test_defs)

section \<open>Reads that stay with the job's stream\<close>

definition schema_then_rows :: "i64 \<Rightarrow> response list" where
  "schema_then_rows estimate =
     [(with_schema (arrow_payload 0 2) (rows_response (arrow_payload 0 2)))\<lparr>rsp_total_estimated_row_count := Some estimate\<rparr>,
      rows_response (arrow_payload 2 3)]"

definition single_stream_response :: "u64 \<Rightarrow> string \<Rightarrow> query_response" where
  "single_stream_response total_rows statement_type = new_query_response
     \<lparr>qr_job_reference := Some (job_in ''job-single-stream''), qr_statement_type := statement_type,
      qr_total_rows := Some total_rows, qr_page_token := ''token-1''\<rparr>"

definition single_stream_read :: "i64 \<Rightarrow> u64 \<Rightarrow> string \<Rightarrow> query \<Rightarrow> nat \<Rightarrow> read_outcome option" where
  "single_stream_read estimate total_rows statement_type q rounds =
     (let page = page_acts (canned (schema_then_rows estimate)) 0
      in read_and_recv (stream_world (single_stream_response total_rows statement_type) (schema_then_rows estimate)) q
           (page 1 @ page 3 @ page 2 @ page 1 @ [TaskEnds 0] @ works 0 rounds @ replicate 3 Recv))"

definition keeps_stream :: "read_outcome option \<Rightarrow> bool" where
  "keeps_stream out \<longleftrightarrow> received out [0, 1, 2, 3, 4] \<and> job_calls_of out = Some []"

definition test_read_maintain_order_below_threshold_or_default_true_keeps_single_stream :: bool where
  "test_read_maintain_order_below_threshold_or_default_true_keeps_single_stream =
     (let unordered = (\<lambda>sql. with_maintain_order (query_new sql) False);
          small = single_stream_read 5 0 ''SELECT'' (unordered ''SELECT col1 FROM small_tbl'') 8;
          rows = ucast MULTI_STREAM_THRESHOLD_ROWS
      in keeps_stream small
         \<and> map_option (map rr_buffer_compression \<circ> ou_requests) small = Some [Some Lz4Frame]
         \<and> keeps_stream (single_stream_read rows MULTI_STREAM_THRESHOLD_ROWS ''SELECT''
              (query_new ''SELECT col1 FROM big_tbl ORDER BY col1'') 11)
         \<and> keeps_stream (single_stream_read rows MULTI_STREAM_THRESHOLD_ROWS ''SCRIPT''
              (unordered ''DECLARE x INT64 DEFAULT 1; SELECT col1 FROM big_tbl;'') 8))"

lemma schema_then_rows_items [simp]:
  "canned (schema_then_rows estimate) req = Inr (map Inr
     [(with_schema (arrow_payload 0 2) (rows_response (arrow_payload 0 2)))\<lparr>rsp_total_estimated_row_count := Some estimate\<rparr>,
      rows_response (arrow_payload 2 3)])"
  by (simp add: canned_def schema_then_rows_def)

lemma small_page_is_kept:
  "check_first_page (Some \<lparr>fp_threshold_bytes = (262144000, Suc 0), fp_fallback_total_rows = Some 0\<rparr>)
     [0, 1] 2 (Some 5) = PageKeep"
proof -
  obtain k where "f64_div (f64_mul (f64_of_nat (Suc (Suc 0))) (f64_of_nat 3)) (f64_of_nat 2) = (3 * 2 ^ k, 2 ^ k)"
    using f64_quotient_exact [of "Suc (Suc 0)" 3 2 3] by auto
  then show ?thesis
    by (simp add: check_first_page_def u64_try_from_def estimate_remaining_bytes_def f64_ge_def)
qed

lemma single_stream_test: "test_read_maintain_order_below_threshold_or_default_true_keeps_single_stream"
  by (simp add: test_read_maintain_order_below_threshold_or_default_true_keeps_single_stream_def single_stream_read_def
      single_stream_response_def table_test_defs payload_defs threshold_values small_page_is_kept)
    (simp add: table_outcome_defs keeps_stream_def threshold_values small_page_is_kept)

end
