(* ===== verification/Client_Tests.thy ===== *)
theory Client_Tests
  imports Query_Job_Tests
begin

text \<open>
  The tests of \<open>Client::read_table\<close> and \<open>Client::read_stream\<close> in \<open>lib.rs\<close> and the cancellation test of
  \<open>bigquery_read_stream.rs\<close> on the model.
\<close>

definition custom_ua :: string where "custom_ua = ''custom-ua/2.0''"

definition ua_client :: client where
  "ua_client = the (client_from_parts test_gax test_quota (Some custom_ua) 0)"

lemma ua_client_fields [simp]:
  "cl_quota_project_id ua_client = test_quota" "cl_user_agent ua_client = Some custom_ua"
  "cl_retry_throttler ua_client = 0" "client_retry_config ua_client = client_retry_config test_client"
  by (simp_all add: ua_client_def test_client_def client_new_for_testing_def client_retry_config_def
      client_from_parts_def stream_retry_config_new_def default_backoff_policy_def test_gax_def gax_ref_def)

lemma permanent_error_permanent [simp]:
  "rp_on_error (src_retry_policy (client_retry_config test_client)) now st permanent_error = Permanent permanent_error"
  by (simp add: client_retry_config_def test_client_def client_new_for_testing_def client_from_parts_def
      stream_retry_config_new_def stream_reconnect_retry_policy_def default_backoff_policy_def test_gax_def gax_ref_def
      limit_attempts_def retryable_errors_def retryable_errors_on_error_def is_retryable_error_def permanent_error_def
      service_error_def retryable_code_def)

definition denied_read :: read_stub where "denied_read req = Inl permanent_error"

lemma denied_read_answer [simp]: "denied_read req = Inl permanent_error"
  by (simp add: denied_read_def)

section \<open>Reading a table\<close>

definition session_world :: "(gax_error, read_session_reply) res \<Rightarrow> read_stub \<Rightarrow> world" where
  "session_world session stub = test_world (test_services new_query_response (Inl not_implemented) session) stub"

definition table_read :: "world \<Rightarrow> client \<Rightarrow> (bq_error, arrow_schema \<times> receiver \<times> read_stream_options list) res \<times> rpc list" where
  "table_read w c =
     (case parsed ''proj.ds.tbl'' of
        Inr table \<Rightarrow> read_table (wd_platform w) (wd_ipc w) (wd_gax w) (wd_services w) c table default_read_options []
      | Inl e \<Rightarrow> (Inl e, []))"

definition table_reader :: "string \<Rightarrow> world" where
  "table_reader stream = session_world (Inr (session_reply (fst (create_test_arrow_payload 0)) [stream])) denied_read"

text \<open>The failing transition of the reader, the four effects it carries out, and the consumer.\<close>

definition denied_acts :: "read_action list" where
  "denied_acts = page_acts denied_read 0 4 @ [TaskEnds 0, Recv]"

definition session_options :: "rpc list \<Rightarrow> (string option \<times> string option) list" where
  "session_options log = concat (map (\<lambda>c. case c of
       CreateReadSession req options \<Rightarrow> [(co_quota_project options, co_user_agent options)] | _ \<Rightarrow> []) log)"

definition only_item_fails :: "(bq_error \<Rightarrow> bool) \<Rightarrow> (bq_error, record_batch) res list \<Rightarrow> bool" where
  "only_item_fails P items = (case items of [Inl err] \<Rightarrow> P err | _ \<Rightarrow> False)"

definition test_client_read_table_applies_options :: bool where
  "test_client_read_table_applies_options =
     (case table_read (table_reader ''streams/s1'') ua_client of
        (Inr (schema, rx, options), log) \<Rightarrow>
          (case play_read (table_reader ''streams/s1'') ua_client denied_acts log (schema, rx, TableReaders options) of
             Some out \<Rightarrow>
               only_item_fails is_grpc (ou_items out)
               \<and> session_options (ou_calls out) = [(Some test_quota, Some custom_ua)]
               \<and> map (\<lambda>req. (rr_quota_project req, rr_user_agent req)) (ou_requests out) =
                   [(Some test_quota, Some custom_ua)]
           | None \<Rightarrow> False)
      | _ \<Rightarrow> False)"

text \<open>A failure of the credentials that an error of the operating system caused.\<close>

definition authentication_error :: gax_error where
  "authentication_error = (service_error Unauthenticated [])
     \<lparr>ge_status := None,
      ge_std := StdError ''cannot create the authentication headers''
        (Some (StdError ''custom auth provider failed'' (Some (StdError ''socket permission denied'' None None)) None))
        None\<rparr>"

definition test_client_read_table_preserves_causal_error_chain :: bool where
  "test_client_read_table_preserves_causal_error_chain =
     (case fst (table_read (session_world (Inl authentication_error) no_read) test_client) of
        Inl err \<Rightarrow>
          (case Option.bind (Option.bind (err_cause err) err_source) err_source of
             Some s3 \<Rightarrow> contains_str (err_text s3) ''socket permission denied'' | None \<Rightarrow> False)
          \<and> contains_str (format_causal_chain err) ''custom auth provider failed''
          \<and> contains_str (format_causal_chain err) ''caused by: socket permission denied''
      | Inr _ \<Rightarrow> False)"

text \<open>The throttler is shared: its identity is in the configuration of every reader, and a failed
  attempt tells it once.\<close>

definition failures_told :: "lane \<Rightarrow> nat" where
  "failures_told ln = length (filter (\<lambda>e. case e of ThrottlerFailure flow \<Rightarrow> True | _ \<Rightarrow> False) (ln_log ln))"

definition throttled_client :: client where
  "throttled_client = the (client_from_parts test_gax test_quota None 7)"

definition test_client_shares_retry_throttler :: bool where
  "test_client_shares_retry_throttler =
     (case table_read (table_reader ''streams/s0'') throttled_client of
        (Inr (schema, rx, options), log) \<Rightarrow>
          map (src_retry_throttler \<circ> ro_retry_config) options = [7]
          \<and> (case sys_run denied_acts
                  (start_read (table_reader ''streams/s0'') throttled_client log rx (TableReaders options)) of
               Some s \<Rightarrow> only_item_fails is_grpc (sy_got s) \<and> map failures_told (sy_lanes s) = [1]
             | None \<Rightarrow> False)
      | _ \<Rightarrow> False)"

lemma throttled_client_fields [simp]:
  "cl_quota_project_id throttled_client = test_quota" "cl_user_agent throttled_client = None"
  "cl_retry_throttler throttled_client = 7"
  "client_retry_config throttled_client = (client_retry_config test_client)\<lparr>src_retry_throttler := 7\<rparr>"
  by (simp_all add: throttled_client_def test_client_def client_new_for_testing_def client_retry_config_def
      client_from_parts_def stream_retry_config_new_def default_backoff_policy_def test_gax_def gax_ref_def)

lemmas client_test_defs =
  job_test_defs table_read_def session_world_def table_reader_def session_options_def only_item_fails_def
  read_table_def prepare_table_read_session_def denied_acts_def create_test_arrow_payload_def

lemmas client_outcome_defs =
  job_outcome_defs table_reader_def session_world_def handle_error_def fail_with_def send_fatal_error_def
  only_item_fails_def failures_told_def session_options_def

lemma table_id_read: "parsed ''proj.ds.tbl'' = Inr \<lparr>project_id = ''proj'', dataset_id = ''ds'', tbl_id = ''tbl''\<rparr>"
  by (simp add: parsed_defs)

lemma options_test: "test_client_read_table_applies_options"
  by (simp add: test_client_read_table_applies_options_def table_id_read client_test_defs)
    (simp add: client_outcome_defs)

lemma causal_chain_test: "test_client_read_table_preserves_causal_error_chain"
  by (simp add: test_client_read_table_preserves_causal_error_chain_def table_id_read client_test_defs)
    (simp add: authentication_error_def service_error_def error_text_defs)

lemma throttler_test: "test_client_shares_retry_throttler"
  by (simp add: test_client_shares_retry_throttler_def table_id_read client_test_defs)
    (simp add: client_outcome_defs)

section \<open>Reading one stream\<close>

definition default_stream_options :: stream_options where
  "default_stream_options =
     \<lparr>so_maintain_order = False, so_offset = 0, so_schema = None, so_arrow_buffer_compression = None\<rparr>"

definition stream_read_world :: "read_stub \<Rightarrow> world" where
  "stream_read_world stub = session_world (Inl not_implemented) stub"

definition stream_and_recv :: "client \<Rightarrow> read_stub \<Rightarrow> string \<Rightarrow> stream_options \<Rightarrow> read_action list \<Rightarrow> read_outcome option" where
  "stream_and_recv c stub stream options acts =
     (case client_read_stream (stream_read_world stub) c stream options of
        Some (Inr (schema, rx, task)) \<Rightarrow> play_read (stream_read_world stub) c acts [] (schema, rx, JobStream task)
      | _ \<Rightarrow> None)"

definition batch_lens :: "read_outcome \<Rightarrow> i64 list" where
  "batch_lens out = map rb_len (oks (ou_items out))"

definition heartbeat_then_five :: "response list" where
  "heartbeat_then_five =
     [new_response, with_schema (arrow_payload 0 3) (snd (create_test_arrow_payload 3)), snd (create_test_arrow_payload 2)]"

definition test_client_read_stream_extracts_schema_from_first_response :: bool where
  "test_client_read_stream_extracts_schema_from_first_response =
     (let stream = ''projects/p/locations/us/sessions/s/streams/0'';
          page = page_acts (canned heartbeat_then_five) 0;
          out = stream_and_recv ua_client (canned heartbeat_then_five) stream default_stream_options
            (page 1 @ page 1 @ page 3 @ page 2 @ page 1 @ [TaskEnds 0] @ works 0 8 @ replicate 3 Recv)
      in \<not> so_maintain_order default_stream_options
         \<and> received out [0, 1, 2, 0, 1]
         \<and> map_option batch_lens out = Some [3, 2]
         \<and> map_option ou_requests out =
             Some [\<lparr>rr_read_stream = stream, rr_offset = 0, rr_buffer_compression = None,
                    rr_quota_project = Some test_quota, rr_user_agent = Some custom_ua\<rparr>])"

definition four_and_one :: "response list" where
  "four_and_one = [snd (create_test_arrow_payload 4), snd (create_test_arrow_payload 1)]"

definition test_client_read_stream_with_provided_schema :: bool where
  "test_client_read_stream_with_provided_schema =
     (let page = page_acts (canned four_and_one) 0;
          out = stream_and_recv test_client (canned four_and_one) ''streams/s1''
            \<lparr>so_maintain_order = True, so_offset = 42, so_schema = Some (fst (create_test_arrow_payload 4)),
             so_arrow_buffer_compression = Some Zstd\<rparr>
            (page 1 @ page 2 @ page 2 @ page 1 @ [TaskEnds 0] @ works 0 11 @ replicate 3 Recv)
      in received out [0, 1, 2, 3, 0]
         \<and> map_option batch_lens out = Some [4, 1]
         \<and> map_option (map (\<lambda>req. (rr_offset req, rr_buffer_compression req)) \<circ> ou_requests) out = Some [(42, Some Zstd)])"

definition stream_fails :: "(bq_error \<Rightarrow> bool) \<Rightarrow> read_stub \<Rightarrow> stream_options \<Rightarrow> bool" where
  "stream_fails P stub options =
     (case client_read_stream (stream_read_world stub) test_client ''streams/s1'' options of
        Some (Inl err) \<Rightarrow> P err | _ \<Rightarrow> False)"

definition only_heartbeat :: read_stub where "only_heartbeat req = Inr [Inr new_response]"

definition test_client_read_stream_errors :: bool where
  "test_client_read_stream_errors =
     (let given = (\<lambda>schema. default_stream_options\<lparr>so_schema := Some schema\<rparr>)
      in stream_fails is_protocol only_heartbeat default_stream_options
         \<and> stream_fails is_protocol closed_read default_stream_options
         \<and> stream_fails is_grpc denied_read default_stream_options
         \<and> stream_fails is_arrow denied_read (given [])
         \<and> (case stream_and_recv test_client denied_read ''streams/s1''
                  (given (fst (create_test_arrow_payload 1))) denied_acts of
              Some out \<Rightarrow> only_item_fails is_grpc (ou_items out) | None \<Rightarrow> False))"

lemma stream_items [simp]:
  "canned heartbeat_then_five req = Inr (map Inr
     [new_response, with_schema (arrow_payload 0 3) (snd (create_test_arrow_payload 3)), snd (create_test_arrow_payload 2)])"
  "canned four_and_one req = Inr (map Inr [snd (create_test_arrow_payload 4), snd (create_test_arrow_payload 1)])"
  "only_heartbeat req = Inr [Inr new_response]" "closed_read req = Inr []"
  by (simp_all add: canned_def heartbeat_then_five_def four_and_one_def only_heartbeat_def closed_read_def)

lemmas stream_test_defs =
  client_test_defs stream_and_recv_def stream_fails_def client_read_stream_def stream_read_world_def
  default_stream_options_def payload_defs

lemma extracted_schema_test: "test_client_read_stream_extracts_schema_from_first_response"
  by (simp add: test_client_read_stream_extracts_schema_from_first_response_def stream_test_defs)
    (simp add: client_outcome_defs batch_lens_def create_test_arrow_payload_def)

lemma provided_schema_test: "test_client_read_stream_with_provided_schema"
  by (simp add: test_client_read_stream_with_provided_schema_def stream_test_defs)
    (simp add: client_outcome_defs batch_lens_def create_test_arrow_payload_def)

lemma stream_error_test: "test_client_read_stream_errors"
  by (simp add: test_client_read_stream_errors_def stream_test_defs)
    (simp add: client_outcome_defs)

end
