(* ===== verification/Decode_Tests.thy ===== *)
theory Decode_Tests
  imports Client_Tests
begin

text \<open>
  The tests of \<open>DecodeQueue\<close> in \<open>decode.rs\<close> and of cancellation in \<open>bigquery_read_stream.rs\<close> on the model.
  A test that only pushes jobs is a task that has terminated with these pushes still to carry out.
  The large payloads are named by their range of rows, and their values are never listed.
\<close>

section \<open>Payloads by their ranges\<close>

fun ranges_from :: "nat \<Rightarrow> nat list \<Rightarrow> (nat \<times> nat) list" where
  "ranges_from start [] = []"
| "ranges_from start (rows # sizes) = (start, rows) # ranges_from (start + rows) sizes"

definition range_values :: "nat \<Rightarrow> nat \<Rightarrow> i64 list" where
  "range_values start rows = map of_nat [start..<start + rows]"

definition range_batch :: "nat \<times> nat \<Rightarrow> record_batch" where
  "range_batch r =
     \<lparr>rb_len = of_nat (snd r), rb_schema = md_schema test_metadata,
      rb_arrays = [Int64Array (map Some (range_values (fst r) (snd r)))]\<rparr>"

text \<open>The payload of a range is its place in the list.\<close>

definition ranges_ipc :: "(nat \<times> nat) list \<Rightarrow> ipc" where
  "ranges_ipc ranges = test_ipc\<lparr>ipc_stream := (\<lambda>bs md. [Inr (Some_batch (range_batch (ranges ! unat (hd bs))))])\<rparr>"

definition range_jobs :: "(nat \<times> nat) list \<Rightarrow> decode_job list" where
  "range_jobs ranges = map (\<lambda>k. \<lparr>dj_bytes = [of_nat k], dj_expected_row_count = of_nat (snd (ranges ! k)),
     dj_metadata = test_metadata\<rparr>) [0..<length ranges]"

definition pushed_jobs :: "ipc \<Rightarrow> bool \<Rightarrow> nat \<Rightarrow> decode_job list \<Rightarrow> read_system" where
  "pushed_jobs ipc ordered slots todo =
     start_system slots (receiver_new True [0])
       [new_lane (reader_cfg_of ipc test_gax (client_retry_config test_client)) ordered
          ((new_reader no_request 0 (Some test_metadata) False None 0)\<lparr>rd_state := Terminated Finished\<rparr>)
          (map PushJob todo)] None"

definition received_batches :: "read_action list \<Rightarrow> read_system \<Rightarrow> record_batch list option" where
  "received_batches acts s =
     (case sys_run acts s of
        Some s' \<Rightarrow> if errs (sy_got s') = [] \<and> sy_ended s' then Some (oks (sy_got s')) else None
      | None \<Rightarrow> None)"

section \<open>The tests\<close>

definition test_ordered_decode_queue_preserves_batch_order :: bool where
  "test_ordered_decode_queue_preserves_batch_order =
     (let sizes = [50000, 1, 25000, 1, 10000, 1, 5000, 1];
          ranges = ranges_from 0 sizes
      in case received_batches (replicate 8 (Perform 0) @ [TaskEnds 0] @ works 0 41 @ replicate 9 Recv)
             (pushed_jobs (ranges_ipc ranges) True (length sizes + 2) (range_jobs ranges)) of
           Some batches \<Rightarrow>
             map rb_len batches = map of_nat sizes
             \<and> concat (map column_values batches) = range_values 0 (sum_list sizes)
         | None \<Rightarrow> False)"

text \<open>The task of the last job pushed runs first; the values are sorted by taking the batches back.\<close>

definition test_work_stealing_decode_queue_decodes_all_batches :: bool where
  "test_work_stealing_decode_queue_decodes_all_batches =
     (let sizes = [20000, 10, 15000, 10, 10000, 10];
          ranges = ranges_from 0 sizes
      in case received_batches
             (replicate 6 (Perform 0) @ [TaskEnds 0] @
              concat (map (\<lambda>w. replicate 4 (Work 0 w)) [5, 4, 3, 2, 1, 0]) @ replicate 7 Recv)
             (pushed_jobs (ranges_ipc ranges) False (length sizes + 2) (range_jobs ranges)) of
           Some batches \<Rightarrow> concat (map column_values (rev batches)) = range_values 0 (sum_list sizes)
         | None \<Rightarrow> False)"

definition test_decode_job_error_signals_cancellation_and_pushes_err :: bool where
  "test_decode_job_error_signals_cancellation_and_pushes_err =
     (let valid_batch = snd (arrow_payload 0 5);
          job = (\<lambda>rows. \<lparr>dj_bytes = valid_batch, dj_expected_row_count = rows, dj_metadata = test_metadata\<rparr>)
      in case sys_run ([Perform 0, Perform 0, TaskEnds 0] @ works 0 8 @ [Recv, Recv])
             (pushed_jobs test_ipc True 4 [job 999, job 5]) of
           Some s \<Rightarrow> only_item_fails is_protocol (sy_got s) \<and> rx_cancel_flag (sy_rx s) \<and> sy_ended s
         | None \<Rightarrow> False)"

text \<open>The flag is seen before the stream is connected, or while its first message is awaited.\<close>

definition test_stream_cancellation_terminates_blocked_sibling :: bool where
  "test_stream_cancellation_terminates_blocked_sibling =
     list_all (\<lambda>inputs.
         case run (test_cfg (test_retry_config 3)) inputs
             (new_reader (no_request\<lparr>rr_read_stream := ''hanging_stream''\<rparr>) 0 None False None 0) of
           (r, es, reason) \<Rightarrow> reason = Some Finished)
       [[stub_in closed_read True],
        [stub_in closed_read False, (stub_in closed_read False)\<lparr>in_select_cancelled := True\<rparr>]]"

section \<open>They hold\<close>

lemma values_of_ranges:
  "concat (map (\<lambda>r. range_values (fst r) (snd r)) (ranges_from start sizes)) = range_values start (sum_list sizes)"
proof (induction sizes arbitrary: start)
  case (Cons rows sizes)
  have "range_values start rows @ range_values (start + rows) n = range_values start (rows + n)" for n
    using upt_add_eq_append [of start "start + rows" n] by (simp add: range_values_def add.assoc)
  with Cons show ?case by simp
qed (simp add: range_values_def)

lemma range_batch_fields [simp]:
  "rb_len (range_batch r) = of_nat (snd r)" "column_values (range_batch r) = range_values (fst r) (snd r)"
  by (simp_all add: range_batch_def column_values_def comp_def unwrap_or_def)

lemma ranges_decode [simp]:
  "decode_arrow_record_batches (ranges_ipc ranges) [k] n md =
     (if of_nat (snd (ranges ! unat k)) = n then Inr [range_batch (ranges ! unat k)]
      else Inl (row_count_mismatch n (of_nat (snd (ranges ! unat k)))))"
  using sint_i64_range [of "word_of_nat (snd (ranges ! unat k))"]
  by (auto simp: decode_arrow_record_batches_def ranges_ipc_def checked_add_i64_def Let_def)

lemmas queue_test_defs =
  client_outcome_defs pushed_jobs_def received_batches_def range_jobs_def upt_conv_Cons reader_of_def

lemma queue_error_test: "test_decode_job_error_signals_cancellation_and_pushes_err"
  by (simp add: test_decode_job_error_signals_cancellation_and_pushes_err_def queue_test_defs row_count_mismatch_def)

lemma cancellation_test: "test_stream_cancellation_terminates_blocked_sibling"
  by (simp add: test_stream_cancellation_terminates_blocked_sibling_def reader_test_defs)

lemma ordered_queue_test: "test_ordered_decode_queue_preserves_batch_order"
proof -
  let ?sizes = "[50000, 1, 25000, 1, 10000, 1, 5000, 1]"
  have "received_batches (replicate 8 (Perform 0) @ [TaskEnds 0] @ works 0 41 @ replicate 9 Recv)
      (pushed_jobs (ranges_ipc (ranges_from 0 ?sizes)) True (length ?sizes + 2) (range_jobs (ranges_from 0 ?sizes)))
    = Some (map range_batch (ranges_from 0 ?sizes))"
    by (simp add: queue_test_defs)
  then show ?thesis
    using values_of_ranges [of 0 ?sizes]
    by (simp add: test_ordered_decode_queue_preserves_batch_order_def)
qed

lemma work_stealing_test: "test_work_stealing_decode_queue_decodes_all_batches"
proof -
  let ?sizes = "[20000, 10, 15000, 10, 10000, 10]"
  have "received_batches
      (replicate 6 (Perform 0) @ [TaskEnds 0] @
       concat (map (\<lambda>w. replicate 4 (Work 0 w)) [5, 4, 3, 2, 1, 0]) @ replicate 7 Recv)
      (pushed_jobs (ranges_ipc (ranges_from 0 ?sizes)) False (length ?sizes + 2) (range_jobs (ranges_from 0 ?sizes)))
    = Some (rev (map range_batch (ranges_from 0 ?sizes)))"
    by (simp add: queue_test_defs without_def)
  then show ?thesis
    using values_of_ranges [of 0 ?sizes]
    by (simp add: test_work_stealing_decode_queue_decodes_all_batches_def rev_map)
qed

end
