(* ===== verification/Auth_Tests.thy ===== *)
theory Auth_Tests
  imports Auth Test_Reads
begin

text \<open>
  The tests of the token source in \<open>auth.rs\<close> on the model. The Python provider of a test is what each
  of its calls returns, its threads and timers are one explicit schedule of the actions, and the
  clock starts at instant 0. Header values are text here, so that they are marked as sensitive is not
  part of the replayed assertions.
\<close>

section \<open>Providers and schedules\<close>

definition millis :: "nat \<Rightarrow> nat" where "millis n = n * 10 ^ 6"

definition utc_at :: "nat \<Rightarrow> int" where "utc_at now = 1700000000 * 10 ^ 9 + int now"

text \<open>An answer with a token that expires some seconds after instant 0, or never.\<close>

definition expires_in :: "nat option \<Rightarrow> py_value" where
  "expires_in life =
     (case life of
        Some s \<Rightarrow> PyNumber \<lparr>fl_finite = True, fl_negative = False, fl_secs = of_nat (1700000000 + s), fl_nsecs = 0\<rparr>
      | None \<Rightarrow> PyNone)"

definition provides :: "string \<Rightarrow> nat option \<Rightarrow> nat \<Rightarrow> nat \<Rightarrow> (cred_error, cached_token) res" where
  "provides token life now tag =
     fetch_from_python test_auth_api (Inr (PyTuple [bearer token, expires_in life])) (utc_at now) now tag"

definition raises :: "py_err \<Rightarrow> (cred_error, cached_token) res" where
  "raises e = fetch_from_python test_auth_api (Inl e) 0 0 0"

text \<open>What refresh \<open>k\<close> does from the answer of Python on, and a refresh for a waiting caller.\<close>

definition answered :: "nat \<Rightarrow> (cred_error, cached_token) res \<Rightarrow> action list" where
  "answered k outcome = [PythonReturns k outcome, FirstCheck k, TakeLock k, WriteToken k, JoinWorker k]"

definition refreshed :: "nat \<Rightarrow> nat \<Rightarrow> (cred_error, cached_token) res \<Rightarrow> action list" where
  "refreshed k now outcome = [CallHeaders now None, LockRefresh, CheckCache k now None] @ answered k outcome"

definition auth_run :: "action list \<Rightarrow> token_source \<Rightarrow> token_source" where
  "auth_run acts s = fold auth_step acts s"

definition resource_at :: "token_source \<Rightarrow> nat \<Rightarrow> nat option \<Rightarrow> cacheable_resource option" where
  "resource_at s now extension =
     (case headers_first (ts_cache s) now extension of
        Serve resource \<Rightarrow> Some resource | ServeStale resource can_attempt \<Rightarrow> Some resource | MustWait \<Rightarrow> None)"

definition results_of :: "token_source \<Rightarrow> (cred_error, cacheable_resource) res option list" where
  "results_of s = map rf_result (ts_refreshes s)"

definition python_calls :: "token_source \<Rightarrow> nat" where
  "python_calls s = length (filter (\<lambda>r. rf_worker r \<noteq> NotStarted) (ts_refreshes s))"

section \<open>The tests\<close>

definition test_python_token_source_caches_and_not_modified :: bool where
  "test_python_token_source_caches_and_not_modified =
     (let s = auth_run (refreshed 0 0 (provides ''secret-token-1'' (Some 3600) 0 1)) source_new;
          first = New 1 ''Bearer secret-token-1''
      in universe_domain source_new = None
         \<and> results_of s = [Some (Inr first)]
         \<and> \<not> contains_str (token_source_debug s) ''secret-token-1''
         \<and> resource_at s (millis 1) None = Some first
         \<and> resource_at s (millis 2) (Some 1) = Some NotModified
         \<and> python_calls (auth_run [CallHeaders (millis 1) None, CallHeaders (millis 2) (Some 1)] s) = 1)"

definition test_python_token_source_refreshes_when_expiring_soon :: bool where
  "test_python_token_source_refreshes_when_expiring_soon =
     (let s = auth_run (refreshed 0 0 (provides ''token-1'' (Some 30) 0 1)) source_new
      in results_of s = [Some (Inr (New 1 ''Bearer token-1''))]
         \<and> results_of (auth_run (refreshed 1 (millis 1) (provides ''token-2'' (Some 3600) (millis 1) 2)) s)
             = [Some (Inr (New 1 ''Bearer token-1'')), Some (Inr (New 2 ''Bearer token-2''))])"

text \<open>A background refresh that fails after 2 ms, five calls during its cooldown of 80 ms, and a call
  after it.\<close>

definition test_python_token_source_stale_while_revalidate_and_failure_cooldown :: bool where
  "test_python_token_source_stale_while_revalidate_and_failure_cooldown =
     (let blip = PyErr [PyRuntimeError, PyException] ''transient metadata blip'';
          s1 = auth_run (refreshed 0 0 (provides ''token-1'' (Some 90) 0 1))
                 (source_with_config (5 * 10 ^ 9) (millis 80));
          s2 = auth_run ([CallHeaders (millis 1) (Some 1), CheckCache 1 (millis 1) None] @ answered 1 (raises blip)
                 @ [RecordFailure 1 (millis 2)]) s1;
          s3 = auth_run (replicate 5 (CallHeaders (millis 26) None)) s2;
          s4 = auth_run ([CallHeaders (millis 101) None, CheckCache 2 (millis 101) None]
                 @ answered 2 (provides ''token-3'' (Some 3600) (millis 101) 3)) s3
      in results_of s1 = [Some (Inr (New 1 ''Bearer token-1''))]
         \<and> resource_at s1 (millis 1) (Some 1) = Some NotModified
         \<and> resource_at s3 (millis 26) None = Some (New 1 ''Bearer token-1'')
         \<and> python_calls s3 = 2
         \<and> resource_at s4 (millis 111) None = Some (New 3 ''Bearer token-3''))"

text \<open>The callers that wait each take the lock after the refresh and find its token.\<close>

definition test_python_token_source_coalesces_concurrent_refreshes :: bool where
  "test_python_token_source_coalesces_concurrent_refreshes =
     (let s = auth_run (replicate 16 (CallHeaders 0 None) @ [LockRefresh, CheckCache 0 0 None]
            @ answered 0 (provides ''coalesced-token-1'' (Some 3600) 0 1)
            @ concat (map (\<lambda>k. [LockRefresh, CheckCache k (millis 51) None]) [1, 2, 3, 4, 5, 6, 7, 8, 9, 10, 11, 12, 13, 14, 15]))
            source_new
      in results_of s = replicate 16 (Some (Inr (New 1 ''Bearer coalesced-token-1'')))
         \<and> ts_waiting s = 0 \<and> python_calls s = 1)"

text \<open>The first caller is cancelled while its refresh is detached, which is no action of the source.\<close>

definition test_python_token_source_cancellation_safety_preserves_inflight_refresh :: bool where
  "test_python_token_source_cancellation_safety_preserves_inflight_refresh =
     (let s = auth_run ([CallHeaders 0 None, LockRefresh, CheckCache 0 0 None, CallHeaders (millis 15) None, LockRefresh]
            @ answered 0 (provides ''saved-token-1'' (Some 3600) 0 1) @ [LockRefresh, CheckCache 1 (millis 61) None])
            source_new
      in last (results_of s) = Some (Inr (New 1 ''Bearer saved-token-1''))
         \<and> python_calls s = 1)"

definition test_python_token_source_refresh_timeout_releases_lock :: bool where
  "test_python_token_source_refresh_timeout_releases_lock =
     (let s1 = auth_run [CallHeaders 0 None, LockRefresh, CheckCache 0 0 None, TimeOut 0]
                 (source_with_config (millis 50) (10 ^ 9));
          s2 = auth_run (refreshed 1 (millis 51) (provides ''fresh-recovered-token'' (Some 3600) (millis 51) 2)) s1;
          s3 = auth_run (answered 0 (provides ''stale-timed-out-token'' (Some 3600) (millis 250) 1)) s2
      in (case results_of s1 of
            [Some (Inl err)] \<Rightarrow> ce_transient err \<and> contains_str (ce_message err) ''timed out'' | _ \<Rightarrow> False)
         \<and> last (results_of s2) = Some (Inr (New 2 ''Bearer fresh-recovered-token''))
         \<and> resource_at s3 (millis 281) None = Some (New 2 ''Bearer fresh-recovered-token''))"

definition test_python_token_source_none_expiration :: bool where
  "test_python_token_source_none_expiration =
     (let s = auth_run (refreshed 0 0 (provides ''forever-token'' None 0 1)) source_new
      in results_of s = [Some (Inr (New 1 ''Bearer forever-token''))]
         \<and> python_calls (auth_run [CallHeaders (millis 1) None] s) = 1)"

lemmas auth_action_defs =
  auth_run_def refreshed_def answered_def source_new_def source_with_config_def empty_cache_def
  call_headers_def lock_refresh_def check_cache_def python_returns_def first_check_def take_lock_def write_token_def
  join_worker_def time_out_def record_failure_def take_guard_def new_refresh_def nth_refresh_def put_def release_def
  install_def headers_first_def double_check_def should_refresh_def can_attempt_soft_refresh_def
  to_cacheable_resource_def token_freshness_def deadlines_freshness_def from_utc_expiry_def
  SOFT_EXPIRY_BUFFER_def HARD_EXPIRY_BUFFER_def MAX_SOFT_REFRESH_COOLDOWN_def record_soft_refresh_failure_def

lemmas auth_answer_defs =
  provides_def raises_def fetch_from_python_def tuple_item_def bearer_token_def bearer_def token_expiry_def
  expires_in_def test_auth_api_def utc_at_def millis_def cred_new_def is_transient_python_error_def

lemmas auth_test_defs =
  auth_action_defs auth_answer_defs results_of_def resource_at_def python_calls_def Let_def

lemma cached_token_test: "test_python_token_source_caches_and_not_modified"
  unfolding test_python_token_source_caches_and_not_modified_def Let_def
  by (simp add: auth_test_defs universe_domain_def token_source_debug_def)

lemma expiring_token_test: "test_python_token_source_refreshes_when_expiring_soon"
  unfolding test_python_token_source_refreshes_when_expiring_soon_def Let_def
  by (simp add: auth_test_defs)

lemma stale_token_test: "test_python_token_source_stale_while_revalidate_and_failure_cooldown"
  unfolding test_python_token_source_stale_while_revalidate_and_failure_cooldown_def Let_def
  by (simp add: auth_test_defs works_unfold is_instance_of_def)

lemma coalescing_test: "test_python_token_source_coalesces_concurrent_refreshes"
  unfolding test_python_token_source_coalesces_concurrent_refreshes_def Let_def
  by (simp add: auth_test_defs works_unfold)

lemma cancelled_caller_test: "test_python_token_source_cancellation_safety_preserves_inflight_refresh"
  unfolding test_python_token_source_cancellation_safety_preserves_inflight_refresh_def Let_def
  by (simp add: auth_test_defs)

lemma refresh_timeout_test: "test_python_token_source_refresh_timeout_releases_lock"
  unfolding test_python_token_source_refresh_timeout_releases_lock_def Let_def
  by (simp add: auth_test_defs timeout_error_def
      cred_from_msg_def)

lemma lasting_token_test: "test_python_token_source_none_expiration"
  unfolding test_python_token_source_none_expiration_def Let_def
  by (simp add: auth_test_defs)

end
