(* ===== verification/Py_Tests.thy ===== *)
theory Py_Tests
  imports Client_Tests
begin

text \<open>
  The tests of the Python class \<open>Client\<close> (\<open>py-arrow-bigquery/src/lib.rs\<close>) and of the translation of
  errors (\<open>py-arrow-bigquery/src/error.rs\<close>) on the model. What a library's error prints is its text.
\<close>

section \<open>Errors\<close>

text \<open>An error of the credentials library with its cause, inside an error of a client builder.\<close>

definition credentials_error :: "string \<Rightarrow> std_error \<Rightarrow> std_error" where
  "credentials_error msg source = StdError msg (Some source) None"

definition missing_file :: std_error where
  "missing_file = StdError ''missing /etc/gcp/credentials.json'' None None"

definition test_to_py_err_preserves_rust_causal_chain_without_duplicate_py_causes :: bool where
  "test_to_py_err_preserves_rust_causal_chain_without_duplicate_py_causes =
     (let py_err = to_py_err (ClientBuilder (StdError ''could not create default credentials''
            (Some (credentials_error ''cannot create auth headers'' missing_file)) None))
      in is_instance_of PyBigQueryError (ra_err py_err) \<and> is_instance_of PyRuntimeError (ra_err py_err)
         \<and> list_all (contains_str (py_text (ra_err py_err)))
             [''could not create default credentials'', ''cannot create auth headers'', ''missing /etc/gcp/credentials.json'']
         \<and> ra_cause py_err = None)"

definition test_to_py_err_invalid_config_maps_to_value_error :: bool where
  "test_to_py_err_invalid_config_maps_to_value_error =
     (let py_err = to_py_err (InvalidConfig ''quota_project_id is required'')
      in is_instance_of PyValueError (ra_err py_err)
         \<and> contains_str (py_text (ra_err py_err)) ''quota_project_id is required'')"

text \<open>An error of authentication whose credentials failed with a Python exception.\<close>

definition python_failure :: "string \<Rightarrow> std_error" where
  "python_failure msg = StdError (''ValueError: '' @ msg) None (Some (value_error msg))"

definition authentication_failure :: "string \<Rightarrow> gax_error" where
  "authentication_failure msg = authentication_error
     \<lparr>ge_std := StdError ''cannot create the authentication headers''
        (Some (credentials_error ''Python credentials provider failed'' (python_failure msg))) None\<rparr>"

text \<open>The cause is an exception of Python itself, which has no further cause.\<close>

definition caused_by :: "raised \<Rightarrow> string \<Rightarrow> bool" where
  "caused_by e msg =
     (case ra_cause e of
        Some cause \<Rightarrow> is_instance_of PyValueError cause \<and> contains_str (py_text cause) msg | None \<Rightarrow> False)"

definition test_to_py_err_recovers_original_python_exception_in_cause_chain :: bool where
  "test_to_py_err_recovers_original_python_exception_in_cause_chain =
     (let py_err = to_py_err (Grpc (authentication_failure ''custom python token failure''))
      in is_instance_of PyBigQueryError (ra_err py_err)
         \<and> contains_str (py_text (ra_err py_err)) ''custom python token failure''
         \<and> caused_by py_err ''custom python token failure'')"

section \<open>The client\<close>

definition python_client ::
  "nat option option \<Rightarrow> string option \<Rightarrow> string option \<Rightarrow> string option \<Rightarrow> (raised, client) res option" where
  "python_client credentials_provider user_agent bq_endpoint bqstorage_endpoint =
     map_option (map_sum id fst \<circ> fst)
       (py_client_new test_gax willing_builders \<lparr>ps_crypto_installed = False, ps_next_throttler = 0\<rparr>
          ''test-project'' credentials_provider user_agent bq_endpoint bqstorage_endpoint)"

definition plain_table :: py_table_id where "plain_table = py_table_id_new ''p'' ''d'' ''t''"

definition with_python_client :: "(client \<Rightarrow> bool) \<Rightarrow> bool" where
  "with_python_client P = (case python_client None None None None of Some (Inr c) \<Rightarrow> P c | _ \<Rightarrow> False)"

definition unreached :: world where "unreached = session_world (Inl not_implemented) no_read"

definition test_client_read_table_invalid_compression :: bool where
  "test_client_read_table_invalid_compression =
     with_python_client (\<lambda>c. raises_value_error ''got unexpected compression codec invalid_codec''
       (fst (py_read_table unreached c plain_table
          (default_table_args\<lparr>ta_arrow_buffer_compression := ''invalid_codec''\<rparr>) [])))"

definition test_client_read_table_naive_snapshot_time :: bool where
  "test_client_read_table_naive_snapshot_time =
     with_python_client (\<lambda>c. raises_value_error ''failed to extract snapshot_time''
       (fst (py_read_table unreached c plain_table
          (default_table_args\<lparr>ta_snapshot_time := Some (Inl (value_error ''naive''))\<rparr>) [])))"

definition test_client_new_with_credentials_provider :: bool where
  "test_client_new_with_credentials_provider =
     (case python_client (Some (Some 3)) (Some ''test-agent/1.0'') (Some ''https://custom.bq.endpoint.com'')
             (Some ''https://custom.bqstorage.endpoint.com'') of
        Some (Inr c) \<Rightarrow> True | _ \<Rightarrow> False)"

definition token_generator :: string where
  "token_generator = ''underlying python token generator broke''"

definition test_client_read_table_preserves_python_cause_chain :: bool where
  "test_client_read_table_preserves_python_cause_chain =
     (case fst (py_read_table (session_world (Inl (authentication_failure token_generator)) no_read)
             (the (client_new_for_testing test_gax ''test-project'' 0)) plain_table default_table_args []) of
        Inl err \<Rightarrow>
          is_instance_of PyBigQueryError (ra_err err)
          \<and> contains_str (py_text (ra_err err)) ''Python credentials provider failed''
          \<and> contains_str (py_text (ra_err err)) (''caused by: ValueError: '' @ token_generator)
          \<and> caused_by err token_generator
      | Inr _ \<Rightarrow> False)"

definition test_client_read_query_invalid_compression :: bool where
  "test_client_read_query_invalid_compression =
     with_python_client (\<lambda>c. raises_value_error ''got unexpected compression codec invalid_codec''
       (fst (py_read_query test_try_new unreached c ''SELECT 1'' ''invalid_codec'' False False None [])))"

lemmas py_error_defs =
  to_py_err_def raise_plain_def value_error_def py_bigquery_error_def is_instance_of_def caused_by_def
  credentials_error_def missing_file_def python_failure_def authentication_failure_def authentication_error_def
  service_error_def error_text_defs

lemmas py_client_defs =
  python_client_def py_client_new_def provider_credentials_def py_client_builder_def client_builder_def
  service_config_builder_new_def with_quota_project_id_def with_user_agent_def with_cred_def with_bq_endpoint_def
  with_bqstorage_endpoint_def from_builder_def willing_builders_def
  build_def default_retry_throttler_def init_crypto_def client_from_parts_def stream_retry_config_new_def
  default_backoff_policy_def test_gax_def gax_ref_def trim_visible visible_def

lemma python_error_tests:
  "test_to_py_err_preserves_rust_causal_chain_without_duplicate_py_causes"
  "test_to_py_err_invalid_config_maps_to_value_error"
  "test_to_py_err_recovers_original_python_exception_in_cause_chain"
  by (simp_all add: test_to_py_err_preserves_rust_causal_chain_without_duplicate_py_causes_def
      test_to_py_err_invalid_config_maps_to_value_error_def
      test_to_py_err_recovers_original_python_exception_in_cause_chain_def py_error_defs)

lemma refused_argument_tests:
  "py_read_table w c t (default_table_args\<lparr>ta_arrow_buffer_compression := ''invalid_codec''\<rparr>) log =
     (Inl (raise_plain (value_error ''got unexpected compression codec invalid_codec'')), log)"
  "py_read_table w c t (default_table_args\<lparr>ta_snapshot_time := Some (Inl e)\<rparr>) log =
     (Inl (raise_plain (value_error ''failed to extract snapshot_time'')), log)"
  "py_read_query try_new w c sql ''invalid_codec'' dry ordered cache log =
     (Inl (raise_plain (value_error ''got unexpected compression codec invalid_codec'')), log)"
  by (simp_all add: py_read_table_def py_read_query_def parse_read_options_def parse_compression_codec_def
      default_table_args_def)

lemma built_python_client: "\<exists>c. python_client None None None None = Some (Inr c)"
  by (simp add: py_client_defs)

lemma refused_call_tests:
  "test_client_read_table_invalid_compression" "test_client_read_table_naive_snapshot_time"
  "test_client_read_query_invalid_compression"
  using built_python_client
  by (auto simp: test_client_read_table_invalid_compression_def test_client_read_table_naive_snapshot_time_def
      test_client_read_query_invalid_compression_def with_python_client_def refused_argument_tests
      raises_value_error_def raise_plain_def value_error_def is_instance_of_def)

lemma credentials_provider_test: "test_client_new_with_credentials_provider"
  by (simp add: test_client_new_with_credentials_provider_def py_client_defs)

lemma python_cause_test: "test_client_read_table_preserves_python_cause_chain"
  by (simp add: test_client_read_table_preserves_python_cause_chain_def py_read_table_def parse_read_options_def
      parse_compression_codec_def default_table_args_def plain_table_def py_table_id_new_def client_test_defs)
    (simp add: py_error_defs token_generator_def)

end
