(* ===== verification/Spec2Isabelle.thy ===== *)
theory Spec2Isabelle
  imports Read_Stream_Delivery Read_Stream_Diagram Read_System_Examples Query_Examples Auth_Proofs Py_Client Unit_Tests
    Query_Table_Tests Decode_Tests Auth_Tests Py_Tests
begin

text \<open>
  A verification of the Rust code of the Polars BigQuery client: the library that reads tables and
  query results through the Storage Read API (\<open>crates/arrow-bigquery/src\<close>) and its Python bindings
  (\<open>py-arrow-bigquery/src\<close>).

  \<^bold>\<open>How the program works.\<close> A \<open>Client\<close> opens a read session on a table and spawns one reader per
  stream; or it runs a query, takes the first page that comes inside the response, and reads the
  rest from the job's default stream, where the first page may show that the result is large enough
  to cut over to parallel readers of the destination table. A reader is a state machine that
  connects, reads, backs off and reconnects at the offset it has reached. It hands payloads to a
  decode queue, which keeps their order or steals work, and the decoded batches arrive at one
  receiver. Its consumer is Rust code or, through an iterator that polls, the Arrow C stream that
  Python reads. Requests are authenticated with tokens that a Python callable yields and a token
  source caches, refreshes ahead of their expiry and protects from stampedes.

  \<^bold>\<open>Theories, in the order of their imports.\<close>

  \<^item> \<open>Prelude\<close>: machine integers as words with checked and saturating addition, strings as UTF-8 bytes,
    results as sums with the error on the left, third-party error objects by what the code can
    observe of them, and locales of step functions: \<open>step_invariant\<close>, \<open>absorbing\<close> and \<open>ranked\<close> for those
    that always take a step, \<open>guarded_invariant\<close> and \<open>guarded_rank\<close> for those whose actions may have
    to wait.
  \<^item> \<open>Bq_Error\<close> (\<open>error.rs\<close>): the error enum, its texts and causes, and the causal chain.
  \<^item> \<open>Table_Id\<close> (\<open>lib.rs\<close>): identifiers and their parser over the winnow combinators.
  \<^item> \<open>Float64\<close>, \<open>Retry\<close> (\<open>bigquery_read_retry.rs\<close>): rounding of doubles as exact fractions; which errors
    are retried and the configured policies.
  \<^item> \<open>Arrow\<close>, \<open>Decode\<close> (\<open>decode.rs\<close>): arrays and batches as the code sees them; one payload, the decode
    job, and both queues as locales with their interpretations.
  \<^item> \<open>Read_Stream\<close> (\<open>bigquery_read_stream.rs\<close>): one function per state of \<open>ReadStream::step\<close>, the run loop and
    both entry points. \<open>Read_Stream_Proofs\<close> states the transition relation \<open>rstep\<close> that \<open>step\<close> refines;
    \<open>Read_Stream_Runs\<close> has the invariants of a run, \<open>Read_Stream_Delivery\<close> what a reader delivers
    against an honest server, \<open>Read_Stream_Diagram\<close> the diagram of the module, and
    \<open>Read_Stream_Scenario\<close> the concrete runs the witnesses use.
  \<^item> \<open>Api\<close>, \<open>Client\<close>, \<open>Client_Builder\<close> (\<open>lib.rs\<close>, \<open>client_builder.rs\<close>): remote calls as a log that services
    answer from; options, receiver, sessions; building a client.
  \<^item> \<open>Query\<close>, \<open>Query_Read\<close> (\<open>query.rs\<close> and the stream task of \<open>lib.rs\<close>): the builder, requests, job errors,
    the dry run; the routing of a read and the cutover. \<open>Query_Proofs\<close>, \<open>Query_Errors\<close> and
    \<open>Query_Stream_Proofs\<close> hold their properties, \<open>Query_Examples\<close> the witnesses.
  \<^item> \<open>Read_System\<close> (\<open>decode.rs\<close>, \<open>bigquery_read_stream.rs\<close>, \<open>lib.rs\<close>): a whole read as one concurrent system. A
    lane is a reader task with its decode queue and workers; the system has the lanes, the receiver
    with its bounded channel, the cancel flag and the lanes a cutover would open. \<open>sys_step\<close> is one
    action of one task: a transition of a reader, one of the effects it asks for, a round of a worker,
    the return or abort of a task, a \<open>recv\<close> or a drop by the consumer; an action that has to wait is
    not enabled. \<open>start_read\<close> turns the outcome of a read into such a system. \<open>Read_System_Proofs\<close> has
    the invariant of the system, \<open>Read_System_Rows\<close> the rows the consumer sees, \<open>Read_System_Schema\<close>
    their schema, \<open>Read_System_Progress\<close> why a read does not hang while payloads hold one batch each,
    and \<open>Read_System_Examples\<close> whole runs evaluated.
  \<^item> \<open>Auth\<close>, \<open>Auth_Proofs\<close> (\<open>auth.rs\<close>): the token source; its refresh protocol as one atomic action per
    access to shared state, and what holds after any sequence of actions.
  \<^item> \<open>Py_Error\<close>, \<open>Py_Table_Id\<close>, \<open>Py_Stream\<close>, \<open>Py_Client\<close> (\<open>error.rs\<close>, \<open>table_id.rs\<close>, \<open>stream.rs\<close>, \<open>lib.rs\<close> and
    \<open>testing.rs\<close> of the bindings): translated errors, arguments, the exported stream, the class.
  \<^item> \<open>Reader_Tests\<close>, \<open>Unit_Tests\<close>: the repository's own unit tests replayed on the model. Each is the
    conjunction of the assertions of one test, evaluated to true.
  \<^item> \<open>Test_Reads\<close>, \<open>Query_Tests\<close>, \<open>Query_Job_Tests\<close>, \<open>Query_Table_Tests\<close>, \<open>Client_Tests\<close>: the tests of
    whole reads (\<open>query.rs\<close>, \<open>lib.rs\<close>), run on the concurrent system: the stubs and mock HTTP servers
    are the services they play, and each read is one explicit interleaving of its tasks.
  \<^item> \<open>Decode_Tests\<close>, \<open>Auth_Tests\<close>, \<open>Py_Tests\<close>: the tests of the decode queues, of the token source with
    its concurrent callers, timeouts and cooldowns, and of the Python client and its errors.

  \<^bold>\<open>How the model corresponds to the code.\<close> A struct is a record, an enum a datatype,
  and the fields and variants keep their order. An \<open>i64\<close> or \<open>u64\<close> is a 64-bit
  word; durations and instants are nanoseconds. A \<open>Result\<close> is a sum, and a panic is None
  (\<open>Panics\<close> where None means something else). What an await or a shared object answers in a
  step is the input of the step (\<open>step_in\<close>, \<open>run_env\<close>, \<open>poll\<close>,
  \<open>action\<close>), so a statement about all inputs covers every server, clock, schedule and
  cancellation. What a step does to the outside is a list of effects. A spawned task is returned as data and
  run by its own function. Code that is not in the repository is an argument: winnow, gax, the IPC reader,
  the services, chrono and Python objects. Hypotheses on it state what it documents, and each has an
  instance in a witness (\<open>winnow_ref\<close>, \<open>gax_ref\<close>, \<open>row_ipc\<close>,
  \<open>toy_services\<close>, \<open>strict_try_new\<close>, \<open>strict_struct\<close>).

  \<^bold>\<open>What the properties show.\<close>

  \<^item> Whole reads: whatever the interleaving of readers, workers, channel, cancellation and consumer, the
    consumer of an ordered read has seen a prefix of the table, that of parallel streams no row twice,
    and each of them everything when it sees a clean end (for readers that know their schema and do
    not cut over, against an honest server; what a reader that learns its schema or cuts over queues
    is stated for the reader); all batches have the schema the query returned or, once the read has cut
    over, that of the session it opened; a consumer never waits in vain while payloads hold one batch
    each, which the design documents state of the service (what happens otherwise is shown by an
    example); a dropped read stops within as many actions as its rank.
  \<^item> Reading: the payloads queued tile the stream from its initial offset; requests resume at the rows queued so far; errors come
    last and cancel the siblings; the schema comes before the data; with the default policy a reader
    of a dead server is done within 32 transitions (ten attempts of at most three transitions each
    and the first and last ones); the machine takes the transitions of its diagram and one more.
  \<^item> Queries: one query call and at most two lookups; the inline page and its stream cover the result; a
    cutover repeats and loses nothing; ordered queries never cut over; a failure before the schema is
    reported as the failure of the job when the job has one; the size check, in rounded doubles,
    decides as the exact quotient would while the byte and row counts and their product are below
    \<open>2 ^ 53\<close>; a dry run gives one row whose named columns hold what the response says.
  \<^item> Decoding: batches agree with the announced counts; the ordered queue is first-in first-out with one
    drain task and drains from every reachable state.
  \<^item> Tokens: one refresh at a time; a late worker never replaces a newer token and a timely token is
    never lost; Python is called only when needed; freshness, cooldown and error classes.
  \<^item> Python: the consumer sees each batch once and in order, then one error or the end, or the panic over
    a batch that does not fit the stream's schema; errors keep all causes; arguments are checked before
    any request, and what parsing an identifier gives is stated for every object.
  \<^item> Texts: identifiers and their displays are inverse; causal chains lose no cause.

  \<^bold>\<open>Not modelled.\<close> The transport below the services, the Arrow IPC encoding, the C data interface and the
  allocation of memory belong to third-party crates. Tasks are interleaved at the granularity of
  their awaits and locks; the fairness of the runtime is not assumed, and termination is stated for
  the transitions taken. Of the panics of third-party constructors only that of a struct array is
  modelled; the lock it can poison is that of the exporter (\<open>ex_poisoned\<close>), and no other lock is held
  around code that panics. The sequential definitions leave out the slots of the channel, which the concurrent
  system has; the number of threads of the worker pool is not bounded there.
  Of the tests, those that call a live service, the benchmarks and the Python tests are not replayed,
  and neither is the assertion that a header value is marked as sensitive. The
  Python packages, the documentation and the plugin of the expression tests are outside the Rust
  library.
\<close>

end
